(* ===== verification/Orlop_Prelude.thy ===== *)
theory Orlop_Prelude
  imports Main "HOL-Library.Word"
begin

text \<open>
  The vocabulary the component theories share.

  \<^item> \<open>bindE\<close> and \<open>ensure\<close> write Go's \<^verbatim>\<open>if err != nil { return ..., err }\<close> chains: a
    computation is a value of \<open>'e + 'a\<close>, \<open>Inl\<close> the error the function returns early with.
  \<^item> \<open>tbl_get\<close>, \<open>tbl_delete\<close>, \<open>tbl_update\<close>, \<open>tbl_insert\<close> and their kin are the SQL statements
    of the sources over one table. A table is the list of its rows in rowid order, so a row
    inserted last stands last, as a scan by rowid visits it.
  \<^item> the simp rules below are the ones the component proofs run on; \<open>tx_simps\<close> collects the
    definitions a transaction is unfolded with and \<open>row_simps\<close> the facts about row lookups.
\<close>

named_theorems tx_simps \<open>definitions a store transaction unfolds to\<close>
named_theorems row_simps \<open>facts about lookups in updated tables\<close>

type_synonym byte = "8 word"

section \<open>Early returns\<close>

definition bindE :: "'e + 'a \<Rightarrow> ('a \<Rightarrow> 'e + 'b) \<Rightarrow> 'e + 'b" where
  "bindE x f = (case x of Inl e \<Rightarrow> Inl e | Inr v \<Rightarrow> f v)"

definition ensure :: "bool \<Rightarrow> 'e \<Rightarrow> 'e + unit" where
  "ensure b e = (if b then Inr () else Inl e)"

lemma bindE_Inl [simp]: "bindE (Inl e) f = Inl e"
  by (simp add: bindE_def)

lemma bindE_Inr [simp]: "bindE (Inr v) f = f v"
  by (simp add: bindE_def)

lemma bindE_eq_Inr [simp]: "bindE x f = Inr y \<longleftrightarrow> (\<exists>v. x = Inr v \<and> f v = Inr y)"
  by (cases x) auto

lemma bindE_eq_Inl: "bindE x f = Inl e \<longleftrightarrow> x = Inl e \<or> (\<exists>v. x = Inr v \<and> f v = Inl e)"
  by (cases x) auto

lemma ensure_True [simp]: "ensure True e = Inr ()"
  by (simp add: ensure_def)

lemma ensure_False [simp]: "ensure False e = Inl e"
  by (simp add: ensure_def)

lemma ensure_eq_Inr [simp]: "ensure b e = Inr u \<longleftrightarrow> b"
  by (simp add: ensure_def)

lemma ensure_eq_Inl [simp]: "ensure b e = Inl e' \<longleftrightarrow> \<not> b \<and> e' = e"
  by (auto simp: ensure_def)

section \<open>Tables\<close>

definition tbl_get :: "('r \<Rightarrow> 'k) \<Rightarrow> 'r list \<Rightarrow> 'k \<Rightarrow> 'r option" where
  "tbl_get key rows k = find (\<lambda>r. key r = k) rows"

definition tbl_has :: "('r \<Rightarrow> 'k) \<Rightarrow> 'r list \<Rightarrow> 'k \<Rightarrow> bool" where
  "tbl_has key rows k = list_ex (\<lambda>r. key r = k) rows"

definition tbl_count :: "('r \<Rightarrow> bool) \<Rightarrow> 'r list \<Rightarrow> nat" where
  "tbl_count P rows = length (filter P rows)"

definition tbl_delete :: "('r \<Rightarrow> bool) \<Rightarrow> 'r list \<Rightarrow> 'r list" where
  "tbl_delete P rows = filter (\<lambda>r. \<not> P r) rows"

definition tbl_update :: "('r \<Rightarrow> bool) \<Rightarrow> ('r \<Rightarrow> 'r) \<Rightarrow> 'r list \<Rightarrow> 'r list" where
  "tbl_update P f rows = map (\<lambda>r. if P r then f r else r) rows"

text \<open>\<^verbatim>\<open>insert or ignore\<close> / \<^verbatim>\<open>on conflict do nothing\<close>.\<close>

definition tbl_insert :: "('r \<Rightarrow> 'k) \<Rightarrow> 'r \<Rightarrow> 'r list \<Rightarrow> 'r list" where
  "tbl_insert key r rows = (if tbl_has key rows (key r) then rows else rows @ [r])"

text \<open>A plain \<^verbatim>\<open>insert\<close>: a duplicate primary key aborts the statement with the given error.\<close>

definition tbl_insert_new :: "'e \<Rightarrow> ('r \<Rightarrow> 'k) \<Rightarrow> 'r \<Rightarrow> 'r list \<Rightarrow> 'e + 'r list" where
  "tbl_insert_new e key r rows = (if tbl_has key rows (key r) then Inl e else Inr (rows @ [r]))"

text \<open>\<^verbatim>\<open>insert ... on conflict do update set ...\<close>: the update touches the row with the same key.\<close>

definition tbl_upsert :: "('r \<Rightarrow> 'k) \<Rightarrow> 'r \<Rightarrow> ('r \<Rightarrow> 'r) \<Rightarrow> 'r list \<Rightarrow> 'r list" where
  "tbl_upsert key r f rows =
     (if tbl_has key rows (key r) then tbl_update (\<lambda>x. key x = key r) f rows else rows @ [r])"

text \<open>
  An \<^verbatim>\<open>update\<close> that rewrites the primary key. SQLite checks the unique index at every row it
  rewrites, against the rows as they stand at that moment, and aborts the statement on a
  duplicate. The statements concerned have no usable index, so rows are visited in rowid order.
\<close>

fun tbl_rekey_from :: "'e \<Rightarrow> ('r \<Rightarrow> 'k) \<Rightarrow> ('r \<Rightarrow> bool) \<Rightarrow> ('r \<Rightarrow> 'r) \<Rightarrow> 'r list \<Rightarrow> 'r list \<Rightarrow> 'e + 'r list" where
  "tbl_rekey_from e key P f done [] = Inr done"
| "tbl_rekey_from e key P f done (r # rs) =
     (if P r then
        (if tbl_has key (done @ rs) (key (f r)) then Inl e
         else tbl_rekey_from e key P f (done @ [f r]) rs)
      else tbl_rekey_from e key P f (done @ [r]) rs)"

definition tbl_rekey :: "'e \<Rightarrow> ('r \<Rightarrow> 'k) \<Rightarrow> ('r \<Rightarrow> bool) \<Rightarrow> ('r \<Rightarrow> 'r) \<Rightarrow> 'r list \<Rightarrow> 'e + 'r list" where
  "tbl_rekey e key P f rows = tbl_rekey_from e key P f [] rows"

abbreviation tbl_keys :: "('r \<Rightarrow> 'k) \<Rightarrow> 'r list \<Rightarrow> 'k set" where
  "tbl_keys key rows \<equiv> key ` set rows"

subsection \<open>Lookups\<close>

lemma tbl_has_iff [simp]: "tbl_has key rows k \<longleftrightarrow> k \<in> tbl_keys key rows"
  by (auto simp: tbl_has_def list_ex_iff)

lemma tbl_get_SomeD: "tbl_get key rows k = Some r \<Longrightarrow> r \<in> set rows \<and> key r = k"
  by (auto simp: tbl_get_def find_Some_iff)

lemma tbl_get_None: "tbl_get key rows k = None \<longleftrightarrow> k \<notin> tbl_keys key rows"
  by (auto simp: tbl_get_def find_None_iff)

lemma tbl_get_Some_ex: "k \<in> tbl_keys key rows \<Longrightarrow> \<exists>r. tbl_get key rows k = Some r"
  by (cases "tbl_get key rows k") (auto simp: tbl_get_None)

lemma tbl_get_unique:
  assumes "distinct (map key rows)" and "r \<in> set rows"
  shows "tbl_get key rows (key r) = Some r"
  using assms by (induction rows) (auto simp: tbl_get_def)

lemma tbl_get_iff:
  assumes "distinct (map key rows)"
  shows "tbl_get key rows k = Some r \<longleftrightarrow> r \<in> set rows \<and> key r = k"
  using assms tbl_get_SomeD tbl_get_unique by fastforce

lemma tbl_get_append [row_simps]:
  "tbl_get key (rows @ rows') k = (case tbl_get key rows k of None \<Rightarrow> tbl_get key rows' k | Some r \<Rightarrow> Some r)"
  by (induction rows) (auto simp: tbl_get_def)

lemma tbl_get_Cons: "tbl_get key (r # rows) k = (if key r = k then Some r else tbl_get key rows k)"
  by (simp add: tbl_get_def)

lemma tbl_get_Nil [simp]: "tbl_get key [] k = None"
  by (simp add: tbl_get_def)

lemma tbl_get_delete_key [row_simps]:
  "tbl_get key (tbl_delete (\<lambda>r. key r = k) rows) k' = (if k' = k then None else tbl_get key rows k')"
  by (induction rows) (auto simp: tbl_get_def tbl_delete_def)

lemma tbl_get_update:
  assumes "\<And>r. key (f r) = key r"
  shows "tbl_get key (tbl_update P f rows) k =
    map_option (\<lambda>r. if P r then f r else r) (tbl_get key rows k)"
  using assms by (induction rows) (auto simp: tbl_get_def tbl_update_def)

subsection \<open>Primary keys stay unique\<close>

lemma set_tbl_delete [simp]: "set (tbl_delete P rows) = {r \<in> set rows. \<not> P r}"
  by (auto simp: tbl_delete_def)

lemma set_tbl_update [simp]: "set (tbl_update P f rows) = (\<lambda>r. if P r then f r else r) ` set rows"
  by (simp add: tbl_update_def)

lemma tbl_keys_update [simp]:
  assumes "\<And>r. key (f r) = key r"
  shows "map key (tbl_update P f rows) = map key rows"
  using assms by (induction rows) (auto simp: tbl_update_def)

lemma distinct_tbl_delete [simp]: "distinct (map key rows) \<Longrightarrow> distinct (map key (tbl_delete P rows))"
  by (auto simp: tbl_delete_def distinct_map_filter)

lemma distinct_tbl_insert [simp]: "distinct (map key rows) \<Longrightarrow> distinct (map key (tbl_insert key r rows))"
  by (auto simp: tbl_insert_def)

lemma distinct_tbl_insert_new: 
  "tbl_insert_new e key r rows = Inr rows' \<Longrightarrow> distinct (map key rows) \<Longrightarrow> distinct (map key rows')"
  by (auto simp: tbl_insert_new_def split: if_splits)

lemma distinct_tbl_upsert [simp]:
  assumes "distinct (map key rows)" and "\<And>x. key (f x) = key x"
  shows "distinct (map key (tbl_upsert key r f rows))"
  using assms by (auto simp: tbl_upsert_def)

lemma tbl_rekey_from_distinct:
  "tbl_rekey_from e key P f done rows = Inr rows' \<Longrightarrow> distinct (map key (done @ rows)) \<Longrightarrow>
   distinct (map key rows')"
  by (induction e key P f "done" rows rule: tbl_rekey_from.induct) (auto simp: image_Un split: if_splits)

lemma tbl_rekey_distinct:
  "tbl_rekey e key P f rows = Inr rows' \<Longrightarrow> distinct (map key rows) \<Longrightarrow> distinct (map key rows')"
  by (auto simp: tbl_rekey_def dest: tbl_rekey_from_distinct)

lemma tbl_rekey_from_rows:
  "tbl_rekey_from e key P f done rows = Inr rows' \<Longrightarrow>
   rows' = done @ map (\<lambda>r. if P r then f r else r) rows"
  by (induction e key P f "done" rows rule: tbl_rekey_from.induct) (auto split: if_splits)

lemma tbl_rekey_rows: "tbl_rekey e key P f rows = Inr rows' \<Longrightarrow> rows' = tbl_update P f rows"
  by (auto simp: tbl_rekey_def tbl_update_def dest: tbl_rekey_from_rows)

lemma tbl_count_0 [simp]: "tbl_count P rows = 0 \<longleftrightarrow> (\<forall>r\<in>set rows. \<not> P r)"
  by (auto simp: tbl_count_def filter_empty_conv)

lemma tbl_count_append [simp]: "tbl_count P (rows @ rows') = tbl_count P rows + tbl_count P rows'"
  by (simp add: tbl_count_def)

section \<open>Lists\<close>

lemma find_map: "find P (map f xs) = map_option f (find (P \<circ> f) xs)"
  by (induction xs) auto

lemma prefix_take_drop: "take (length p) s = p \<Longrightarrow> s = p @ drop (length p) s"
  by (metis append_take_drop_id)

lemma sort_key_new_min:
  fixes f :: "'a \<Rightarrow> 'b::linorder"
  assumes "\<forall>x\<in>set xs. f r < f x"
  shows "sort_key f (xs @ [r]) = r # sort_key f xs"
  using assms
proof (induction xs)
  case (Cons y xs)
  have "\<not> f y \<le> f r" using Cons.prems by (simp add: not_le)
  then have "insort_key f y (r # sort_key f xs) = r # insort_key f y (sort_key f xs)" by simp
  with Cons show ?case by simp
qed simp

end
