(* ===== verification/Go_Paths.thy ===== *)
theory Go_Paths
  imports Orlop_Prelude
begin

text \<open>
  Paths as Go strings (byte lists), the functions of Go's \<^verbatim>\<open>path\<close> and \<^verbatim>\<open>strings\<close> packages the data
  plane uses on them, and the path helpers of the server itself: \<^verbatim>\<open>splitParentName\<close> of
  manifests.go, \<^verbatim>\<open>joinVirtual\<close> of dataplane_server.go.

  \<open>render\<close> is the canonical absolute path of a list of components. The lemmas show that on
  canonical paths \<open>path_clean\<close> is the identity and \<open>splitParentName\<close> is the split at the last
  component, which is what the directory tables are keyed by.
\<close>

section \<open>Strings\<close>

definition has_prefix :: "string \<Rightarrow> string \<Rightarrow> bool" where
  "has_prefix s p = (take (length p) s = p)"

definition trim_prefix :: "string \<Rightarrow> string \<Rightarrow> string" where
  "trim_prefix s p = (if has_prefix s p then drop (length p) s else s)"

definition trim_right :: "char \<Rightarrow> string \<Rightarrow> string" where
  "trim_right c s = rev (dropWhile (\<lambda>x. x = c) (rev s))"

text \<open>\<^verbatim>\<open>strings.Split(s, "/")\<close>.\<close>

fun split_on :: "char \<Rightarrow> string \<Rightarrow> string list" where
  "split_on c [] = [[]]"
| "split_on c (x # xs) =
     (if x = c then [] # split_on c xs
      else (case split_on c xs of [] \<Rightarrow> [[x]] | w # ws \<Rightarrow> (x # w) # ws))"

fun join_with :: "char \<Rightarrow> string list \<Rightarrow> string" where
  "join_with c [] = []"
| "join_with c [w] = w"
| "join_with c (w # ws) = w @ c # join_with c ws"

section \<open>Go's path package\<close>

abbreviation slash :: char where
  "slash \<equiv> CHR ''/''"

text \<open>
  \<^verbatim>\<open>path.Clean\<close>: the components processed so far, last first. An empty component and \<^verbatim>\<open>.\<close> are
  dropped, \<^verbatim>\<open>..\<close> removes the component before it, stays where there is none in a relative path and
  is dropped at the root.
\<close>

fun clean_comps :: "bool \<Rightarrow> string list \<Rightarrow> string list \<Rightarrow> string list" where
  "clean_comps rooted out [] = rev out"
| "clean_comps rooted out (w # ws) =
     (if w = '''' \<or> w = ''.'' then clean_comps rooted out ws
      else if w = ''..'' then
        (case out of
           [] \<Rightarrow> if rooted then clean_comps rooted [] ws else clean_comps rooted [''..''] ws
         | q # qs \<Rightarrow> if q = ''..'' then clean_comps rooted (''..'' # out) ws
                   else clean_comps rooted qs ws)
      else clean_comps rooted (w # out) ws)"

definition path_clean :: "string \<Rightarrow> string" where
  "path_clean p =
     (if p = '''' then ''.''
      else let rooted = (hd p = slash);
               body = join_with slash (clean_comps rooted [] (split_on slash p))
           in if rooted then slash # body else if body = '''' then ''.'' else body)"

definition path_dir :: "string \<Rightarrow> string" where
  "path_dir p = path_clean (rev (dropWhile (\<lambda>c. c \<noteq> slash) (rev p)))"

section \<open>Path helpers of the server\<close>

definition splitParentName :: "string \<Rightarrow> string \<times> string" where
  "splitParentName p =
     (let clean = path_clean p
      in if clean = ''/'' \<or> clean = ''.'' then (''/'', '''')
         else let parent = path_dir clean;
                  name = trim_prefix clean parent
              in (parent, trim_prefix name ''/''))"

definition joinVirtual :: "string \<Rightarrow> string \<Rightarrow> string" where
  "joinVirtual parent name =
     (if parent = ''/'' then ''/'' @ name else trim_right slash parent @ ''/'' @ name)"

text \<open>
  The SQL expression \<^verbatim>\<open>case when parent = '/' then '/' || name else parent || '/' || name end\<close> of
  ListChildren, queryChanges and tombstoneSubtreeTx.
\<close>

definition full_path :: "string \<Rightarrow> string \<Rightarrow> string" where
  "full_path parent name = (if parent = ''/'' then ''/'' @ name else parent @ ''/'' @ name)"

section \<open>Canonical paths\<close>

definition comp_ok :: "string \<Rightarrow> bool" where
  "comp_ok w \<longleftrightarrow> w \<noteq> '''' \<and> w \<noteq> ''.'' \<and> w \<noteq> ''..'' \<and> slash \<notin> set w"

definition render :: "string list \<Rightarrow> string" where
  "render ws = slash # join_with slash ws"

definition canonical :: "string \<Rightarrow> bool" where
  "canonical p \<longleftrightarrow> p \<noteq> '''' \<and> hd p = slash \<and> path_clean p = p"

subsection \<open>Splitting and joining\<close>

lemma has_prefix_append [simp]: "has_prefix (p @ s) p"
  by (simp add: has_prefix_def)

lemma has_prefix_iff: "has_prefix s p \<longleftrightarrow> (\<exists>t. s = p @ t)"
  unfolding has_prefix_def by (metis append_eq_conv_conj)

lemma trim_prefix_append [simp]: "trim_prefix (p @ s) p = s"
  by (simp add: trim_prefix_def)

lemma split_on_not_Nil [simp]: "split_on c s \<noteq> []"
  by (induction s) (auto split: list.splits)

lemma split_on_word: "c \<notin> set w \<Longrightarrow> split_on c w = [w]"
  by (induction w) auto

lemma split_on_append: "c \<notin> set w \<Longrightarrow> split_on c (w @ c # s) = w # split_on c s"
  by (induction w) auto

lemma split_on_join: "ws \<noteq> [] \<Longrightarrow> \<forall>w\<in>set ws. c \<notin> set w \<Longrightarrow> split_on c (join_with c ws) = ws"
  by (induction c ws rule: join_with.induct) (auto simp: split_on_word split_on_append)

lemma join_split: "join_with c (split_on c s) = s"
proof (induction s)
  case (Cons x xs)
  show ?case
  proof (cases "split_on c xs")
    case Nil
    then show ?thesis by simp
  next
    case (Cons w ws)
    with Cons.IH show ?thesis by (cases ws) auto
  qed
qed simp

lemma split_on_no_sep: "w \<in> set (split_on c s) \<Longrightarrow> c \<notin> set w"
  by (induction s arbitrary: w) (auto split: if_splits list.splits)

lemma join_with_eq_Nil: "join_with c ws = [] \<longleftrightarrow> ws = [] \<or> ws = [[]]"
  by (cases "(c, ws)" rule: join_with.cases) auto

lemma join_with_snoc: "ws \<noteq> [] \<Longrightarrow> join_with c (ws @ [w]) = join_with c ws @ c # w"
proof (induction ws)
  case (Cons v vs)
  then show ?case by (cases vs) auto
qed simp

lemma join_with_Cons: "ws \<noteq> [] \<Longrightarrow> join_with c (w # ws) = w @ c # join_with c ws"
  by (cases ws) auto

lemma join_with_append:
  "us \<noteq> [] \<Longrightarrow> vs \<noteq> [] \<Longrightarrow> join_with c (us @ vs) = join_with c us @ c # join_with c vs"
proof (induction us)
  case (Cons u us)
  then show ?case by (cases us) (auto simp: join_with_Cons)
qed simp

subsection \<open>Clean on component lists\<close>

lemma clean_comps_ok:
  "\<forall>w\<in>set ws. comp_ok w \<Longrightarrow> clean_comps rooted out ws = rev out @ ws"
  by (induction ws arbitrary: out) (auto simp: comp_ok_def)

lemma clean_comps_rooted_ok:
  assumes "\<forall>w\<in>set out. comp_ok w" and "\<forall>w\<in>set ws. slash \<notin> set w"
  shows "\<forall>w\<in>set (clean_comps True out ws). comp_ok w"
  using assms
proof (induction ws arbitrary: out)
  case (Cons w ws)
  have ws: "\<forall>w\<in>set ws. slash \<notin> set w" using Cons.prems by simp
  consider "w = '''' \<or> w = ''.''" | "w = ''..''" | "comp_ok w"
    using Cons.prems by (auto simp: comp_ok_def)
  then show ?case
  proof cases
    case 1
    then show ?thesis using Cons.IH [OF Cons.prems(1) ws] by simp
  next
    case 2
    have q: "q \<noteq> ''..''" if "out = q # qs" for q qs
      using Cons.prems(1) that by (simp add: comp_ok_def)
    show ?thesis
    proof (cases out)
      case Nil
      then show ?thesis using 2 Cons.IH [OF Cons.prems(1) ws] by simp
    next
      case (Cons r rs)
      with q have "clean_comps True out (w # ws) = clean_comps True rs ws"
        using 2 by simp
      then show ?thesis using Cons.IH [OF _ ws, of rs] Cons.prems(1) Cons by simp
    qed
  next
    case 3
    then have "clean_comps True out (w # ws) = clean_comps True (w # out) ws"
      by (simp add: comp_ok_def)
    then show ?thesis using Cons.IH [OF _ ws, of "w # out"] Cons.prems(1) 3 by simp
  qed
qed simp

lemma comp_okD: "comp_ok w \<Longrightarrow> slash \<notin> set w" "comp_ok w \<Longrightarrow> w \<noteq> ''''"
  by (auto simp: comp_ok_def)

lemma clean_slash_Cons:
  "path_clean (slash # s) = slash # join_with slash (clean_comps True [] (split_on slash s))"
  by (simp add: path_clean_def Let_def)

lemma path_clean_render [simp]:
  assumes "\<forall>w\<in>set ws. comp_ok w"
  shows "path_clean (render ws) = render ws"
proof (cases ws)
  case Nil
  then show ?thesis by (simp add: render_def clean_slash_Cons)
next
  case (Cons w ws')
  with assms have "split_on slash (join_with slash ws) = ws"
    by (intro split_on_join) (auto dest: comp_okD)
  with assms show ?thesis
    by (simp add: render_def clean_slash_Cons clean_comps_ok)
qed

lemma canonical_render: "\<forall>w\<in>set ws. comp_ok w \<Longrightarrow> canonical (render ws)"
  by (simp add: canonical_def) (simp add: render_def)

lemma canonicalE:
  assumes "canonical p"
  obtains ws where "p = render ws" "\<forall>w\<in>set ws. comp_ok w"
proof -
  from assms obtain s where p: "p = slash # s"
    by (cases p) (auto simp: canonical_def)
  let ?ws = "clean_comps True [] (split_on slash s)"
  have "p = render ?ws"
    using assms p by (simp add: canonical_def clean_slash_Cons render_def)
  moreover have "\<forall>w\<in>set ?ws. comp_ok w"
    by (rule clean_comps_rooted_ok) (auto dest: split_on_no_sep)
  ultimately show thesis by (rule that)
qed

lemma canonical_iff: "canonical p \<longleftrightarrow> (\<exists>ws. p = render ws \<and> (\<forall>w\<in>set ws. comp_ok w))"
  by (auto elim: canonicalE intro: canonical_render)

lemma render_inj:
  assumes "\<forall>w\<in>set us. comp_ok w" "\<forall>w\<in>set vs. comp_ok w" "render us = render vs"
  shows "us = vs"
proof -
  have inv: "clean_comps True [] (split_on slash (join_with slash ws)) = ws"
    if "\<forall>w\<in>set ws. comp_ok w" for ws
  proof (cases "ws = []")
    case False
    with that have "split_on slash (join_with slash ws) = ws"
      by (intro split_on_join) (auto dest: comp_okD)
    with that show ?thesis by (simp add: clean_comps_ok)
  qed simp
  have "join_with slash us = join_with slash vs"
    using assms(3) by (simp add: render_def)
  with inv [OF assms(1)] inv [OF assms(2)] show ?thesis by metis
qed

subsection \<open>The parent of a canonical path\<close>

lemma dropWhile_rev_word:
  "c \<notin> set w \<Longrightarrow> rev (dropWhile (\<lambda>x. x \<noteq> c) (rev (s @ c # w))) = s @ [c]"
proof -
  assume "c \<notin> set w"
  then have "dropWhile (\<lambda>x. x \<noteq> c) (rev w @ (c # rev s)) = dropWhile (\<lambda>x. x \<noteq> c) (c # rev s)"
    by (intro dropWhile_append2) auto
  then show ?thesis by simp
qed

lemma path_dir_append: "slash \<notin> set w \<Longrightarrow> path_dir (s @ slash # w) = path_clean (s @ [slash])"
  unfolding path_dir_def by (subst dropWhile_rev_word) (assumption, rule refl)

lemma clean_comps_trailing:
  "\<forall>w\<in>set ws. comp_ok w \<Longrightarrow> clean_comps True out (ws @ ['''']) = rev out @ ws"
  by (induction ws arbitrary: out) (simp_all add: comp_ok_def)

lemma path_dir_render:
  assumes "\<forall>w\<in>set ws. comp_ok w" "comp_ok w"
  shows "path_dir (render (ws @ [w])) = render ws"
proof -
  have w: "slash \<notin> set w" using assms(2) by (rule comp_okD)
  show ?thesis
  proof (cases "ws = []")
    case True
    have "path_dir ([] @ slash # w) = path_clean ([] @ [slash])"
      using w by (rule path_dir_append)
    with True show ?thesis by (simp add: render_def clean_slash_Cons)
  next
    case False
    have "path_dir ((slash # join_with slash ws) @ slash # w)
        = path_clean ((slash # join_with slash ws) @ [slash])"
      using w by (rule path_dir_append)
    moreover have "split_on slash (join_with slash (ws @ [''''])) = ws @ ['''']"
      using assms(1) by (intro split_on_join) (auto dest: comp_okD)
    ultimately show ?thesis
      using False assms(1)
      by (simp add: render_def join_with_snoc clean_slash_Cons clean_comps_trailing)
  qed
qed

lemma render_neq_root: "\<forall>w\<in>set ws. comp_ok w \<Longrightarrow> ws \<noteq> [] \<Longrightarrow> render ws \<noteq> ''/''"
  using comp_okD(2) by (fastforce simp: render_def join_with_eq_Nil)

lemma render_neq_dot [simp]: "render ws \<noteq> ''.''"
  by (simp add: render_def)

lemma render_Nil [simp]: "render [] = ''/''"
  by (simp add: render_def)

lemma full_path_render:
  assumes "\<forall>w\<in>set ws. comp_ok w"
  shows "full_path (render ws) w = render (ws @ [w])"
proof (cases "ws = []")
  case False
  with assms show ?thesis
    by (simp add: full_path_def render_neq_root) (simp add: render_def join_with_snoc)
qed (simp add: full_path_def render_def)

lemma splitParentName_render:
  assumes "\<forall>w\<in>set ws. comp_ok w" "comp_ok w"
  shows "splitParentName (render (ws @ [w])) = (render ws, w)"
proof -
  have ok: "\<forall>v\<in>set (ws @ [w]). comp_ok v" using assms by auto
  have "trim_prefix (trim_prefix (render (ws @ [w])) (render ws)) ''/'' = w"
  proof (cases "ws = []")
    case True
    have "trim_prefix (slash # w) ''/'' = w"
      using trim_prefix_append [of "''/''" w] by simp
    moreover have "trim_prefix w ''/'' = w"
      using assms by (cases w) (auto simp: trim_prefix_def has_prefix_def comp_ok_def)
    ultimately show ?thesis using True by (simp add: render_def)
  next
    case False
    then have "render (ws @ [w]) = render ws @ slash # w"
      by (simp add: render_def join_with_snoc)
    then have "trim_prefix (render (ws @ [w])) (render ws) = ''/'' @ w"
      by simp
    then show ?thesis by (simp only: trim_prefix_append)
  qed
  moreover have "render (ws @ [w]) \<noteq> ''/''"
    using ok by (intro render_neq_root) auto
  moreover have "path_clean (render (ws @ [w])) = render (ws @ [w])"
    using ok by (rule path_clean_render)
  ultimately show ?thesis
    by (simp add: splitParentName_def Let_def path_dir_render [OF assms])
qed

lemma splitParentName_root [simp]: "splitParentName ''/'' = (''/'', '''')"
  by (simp add: splitParentName_def clean_slash_Cons Let_def)

text \<open>A canonical path other than the root is the full path of its parent and name.\<close>

lemma full_path_split:
  assumes "canonical p" "p \<noteq> ''/''"
  shows "full_path (fst (splitParentName p)) (snd (splitParentName p)) = p"
    and "snd (splitParentName p) \<noteq> ''''"
    and "canonical (fst (splitParentName p))"
    and "comp_ok (snd (splitParentName p))"
proof -
  from assms(1) obtain vs where vs: "p = render vs" "\<forall>w\<in>set vs. comp_ok w"
    by (rule canonicalE)
  with assms(2) have "vs \<noteq> []" by (auto simp only: render_Nil)
  then obtain ws w where snoc: "vs = ws @ [w]" by (cases vs rule: rev_cases) simp_all
  have ok: "p = render (ws @ [w])" "\<forall>w\<in>set ws. comp_ok w" "comp_ok w"
    using vs by (simp_all add: snoc)
  have split: "splitParentName p = (render ws, w)"
    unfolding ok(1) by (rule splitParentName_render [OF ok(2,3)])
  show "full_path (fst (splitParentName p)) (snd (splitParentName p)) = p"
    unfolding split by (simp add: full_path_render [OF ok(2)] ok(1))
  show "snd (splitParentName p) \<noteq> ''''"
    unfolding split using comp_okD(2) [OF ok(3)] by simp
  show "canonical (fst (splitParentName p))"
    unfolding split using canonical_render [OF ok(2)] by simp
  show "comp_ok (snd (splitParentName p))"
    unfolding split using ok(3) by simp
qed

lemma splitParentName_full_path:
  assumes "canonical q" "comp_ok w"
  shows "splitParentName (full_path q w) = (q, w)" and "canonical (full_path q w)"
    and "full_path q w \<noteq> ''/''"
proof -
  from assms(1) obtain ws where ws: "q = render ws" "\<forall>w\<in>set ws. comp_ok w"
    by (rule canonicalE)
  have fp: "full_path q w = render (ws @ [w])"
    by (simp add: ws(1) full_path_render [OF ws(2)])
  have ok: "\<forall>v\<in>set (ws @ [w]). comp_ok v"
    using ws(2) assms(2) by simp
  show "splitParentName (full_path q w) = (q, w)"
    unfolding fp by (simp add: splitParentName_render [OF ws(2) assms(2)] ws(1))
  show "canonical (full_path q w)"
    unfolding fp by (rule canonical_render [OF ok])
  show "full_path q w \<noteq> ''/''"
    unfolding fp by (rule render_neq_root [OF ok]) simp
qed


text \<open>\<^verbatim>\<open>filepath.Join\<close> of a canonical directory and clean components.\<close>

lemma path_clean_join:
  assumes "canonical root" "ws \<noteq> []" "\<forall>w\<in>set ws. comp_ok w"
  shows "\<exists>rs. root = render rs \<and> (\<forall>r\<in>set rs. comp_ok r) \<and> path_clean (root @ ''/'' @ join_with slash ws) = render (rs @ ws)"
proof -
  from assms(1) obtain rs where rs: "root = render rs" "\<forall>r\<in>set rs. comp_ok r" by (rule canonicalE)
  have ok: "\<forall>w\<in>set (rs @ ws). comp_ok w" using rs(2) assms(3) by auto
  show ?thesis
  proof (cases "rs = []")
    case True
    have "split_on slash (slash # join_with slash ws) = '''' # ws"
      using split_on_join [OF assms(2), of slash] assms(3) comp_okD(1) by (auto simp: split_on_append [of slash "[]", simplified])
    then have "path_clean (slash # slash # join_with slash ws) = render ws"
      using assms(3) by (simp add: clean_slash_Cons clean_comps_ok render_def)
    with True rs show ?thesis by (intro exI [of _ "[]"]) simp
  next
    case False
    have "join_with slash (rs @ ws) = join_with slash rs @ slash # join_with slash ws"
      using False assms(2) by (rule join_with_append)
    then have "root @ ''/'' @ join_with slash ws = render (rs @ ws)" using rs(1) by (simp add: render_def)
    with ok rs show ?thesis by auto
  qed
qed

end
