(* ===== verification/Sql_Text.thy ===== *)
theory Sql_Text
  imports Go_Paths
begin

text \<open>
  The text operators of SQLite that the tenant store's statements use: \<^verbatim>\<open>LIKE\<close> with and without
  \<^verbatim>\<open>ESCAPE\<close>, \<^verbatim>\<open>GLOB\<close>, and \<^verbatim>\<open>substr(x, k)\<close>. Strings are byte lists holding UTF-8.
  \<^verbatim>\<open>LIKE\<close> folds the case of ASCII letters; \<^verbatim>\<open>substr\<close> and the one-character wildcards count
  characters, not bytes.

  The lemmas describe the three subtree patterns of the sources: the escaped prefix pattern of
  changes.go and control_purge_agent.go, the unescaped one of \<^verbatim>\<open>reparentDescendantsTx\<close>, and the
  GLOB pattern of \<^verbatim>\<open>dirIsEmptyTx\<close>.
\<close>

section \<open>Characters\<close>

definition byte_of :: "char \<Rightarrow> nat" where
  "byte_of c = of_char c"

definition sql_fold :: "char \<Rightarrow> char" where
  "sql_fold c = (if 65 \<le> byte_of c \<and> byte_of c \<le> 90 then char_of (byte_of c + 32) else c)"

definition utf8_cont :: "char \<Rightarrow> bool" where
  "utf8_cont c \<longleftrightarrow> 128 \<le> byte_of c \<and> byte_of c < 192"

text \<open>The rest of the string after its first character.\<close>

fun sql_skip :: "string \<Rightarrow> string" where
  "sql_skip [] = []"
| "sql_skip (c # cs) = (if 192 \<le> byte_of c then dropWhile utf8_cont cs else cs)"

text \<open>The code point a string starts with; the replacement character for an ill-formed one.\<close>

definition utf8_lead :: "nat \<Rightarrow> nat" where
  "utf8_lead b = (if b < 192 then b else if b < 224 then b - 192 else if b < 240 then b - 224
     else if b < 248 then b - 240 else if b < 252 then b - 248 else if b = 253 then 1 else 0)"

fun utf8_read :: "string \<Rightarrow> nat" where
  "utf8_read [] = 0"
| "utf8_read (c # cs) =
     (if byte_of c < 192 then byte_of c
      else let p = fold (\<lambda>d v. v * 64 + (byte_of d - 128)) (takeWhile utf8_cont cs) (utf8_lead (byte_of c))
           in if p < 128 \<or> (55296 \<le> p \<and> p < 57344) \<or> p = 65534 \<or> p = 65535 then 65533 else p)"

section \<open>substr\<close>

text \<open>\<^verbatim>\<open>substr(s, k)\<close> for \<open>1 \<le> k\<close>.\<close>

definition sql_substr :: "string \<Rightarrow> nat \<Rightarrow> string" where
  "sql_substr s k = (sql_skip ^^ (k - 1)) s"

section \<open>LIKE\<close>

lemma length_dropWhile_less: "length (dropWhile P xs) \<le> length xs"
  by (induction xs) auto

lemma length_sql_skip: "length (sql_skip s) \<le> length s - 1"
  by (cases s) (auto simp: length_dropWhile_less)

lemma length_sql_skip_le: "length (sql_skip s) \<le> length s"
  using length_sql_skip [of s] by linarith

lemma length_sql_skip_less: "s \<noteq> [] \<Longrightarrow> length (sql_skip s) < length s"
  using length_sql_skip [of s] by (cases s) auto

text \<open>
  Both wildcards advance over the subject by characters: SQLite tries the rest of the pattern at
  the start of each character only.
\<close>

function sql_like :: "char option \<Rightarrow> string \<Rightarrow> string \<Rightarrow> bool" where
  "sql_like esc [] s = (s = [])"
| "sql_like esc (p # ps) s =
     (if esc = Some p then
        (case ps of [] \<Rightarrow> False
         | q # qs \<Rightarrow> (case s of [] \<Rightarrow> False | c # cs \<Rightarrow> sql_fold c = sql_fold q \<and> sql_like esc qs cs))
      else if p = CHR ''%'' then
        sql_like esc ps s \<or> (if s = [] then False else sql_like esc (p # ps) (sql_skip s))
      else if p = CHR ''_'' then s \<noteq> [] \<and> sql_like esc ps (sql_skip s)
      else (case s of [] \<Rightarrow> False | c # cs \<Rightarrow> sql_fold c = sql_fold p \<and> sql_like esc ps cs))"
  by pat_completeness auto
termination
  by (relation "measure (\<lambda>(esc, p, s). length p + length s)") (auto simp: less_Suc_eq_le length_sql_skip_le length_sql_skip_less [unfolded less_eq_Suc_le])

section \<open>GLOB\<close>

text \<open>
  A character class, read from the pattern after its opening bracket: whether \<open>c\<close> is a member
  and the pattern after the closing bracket, None when there is none. \<open>prior\<close> is the character
  a range may start from.
\<close>

fun glob_class :: "nat \<Rightarrow> nat option \<Rightarrow> bool \<Rightarrow> nat \<Rightarrow> string \<Rightarrow> (bool \<times> string) option" where
  "glob_class 0 prior seen c ps = None"
| "glob_class (Suc n) prior seen c [] = None"
| "glob_class (Suc n) prior seen c (p # ps) =
     (if p = CHR '']'' then Some (seen, ps)
      else if p = CHR ''-'' \<and> ps \<noteq> [] \<and> hd ps \<noteq> CHR '']'' \<and> prior \<noteq> None then
        glob_class n None (seen \<or> (the prior \<le> c \<and> c \<le> utf8_read ps)) c (sql_skip ps)
      else glob_class n (Some (utf8_read (p # ps))) (seen \<or> c = utf8_read (p # ps)) c (sql_skip (p # ps)))"

definition glob_set :: "nat \<Rightarrow> string \<Rightarrow> (bool \<times> string) option" where
  "glob_set c ps =
     (let (invert, ps1) = (case ps of p # qs \<Rightarrow> if p = CHR ''^'' then (True, qs) else (False, ps) | [] \<Rightarrow> (False, []));
          (seen, ps2) = (case ps1 of p # qs \<Rightarrow> if p = CHR '']'' then (c = 93, qs) else (False, ps1) | [] \<Rightarrow> (False, []))
      in map_option (\<lambda>(m, rest). (m \<noteq> invert, rest)) (glob_class (Suc (length ps2)) None seen c ps2))"

lemma glob_class_shorter: "glob_class n prior seen c ps = Some (m, rest) \<Longrightarrow> length rest < length ps"
proof (induction n prior seen c ps rule: glob_class.induct)
  case (3 n prior seen c p ps)
  have "length (sql_skip (p # ps)) \<le> length ps" "length (sql_skip ps) \<le> length ps"
    using length_sql_skip [of "p # ps"] length_sql_skip_le [of ps] by auto
  with 3 show ?case
    by (auto simp del: sql_skip.simps utf8_read.simps split: if_splits)
qed auto

lemma glob_set_shorter: "glob_set c ps = Some (m, rest) \<Longrightarrow> length rest < length ps"
  by (auto simp: glob_set_def Let_def simp del: glob_class.simps
      split: list.splits if_splits dest!: glob_class_shorter)

function sql_glob :: "string \<Rightarrow> string \<Rightarrow> bool" where
  "sql_glob [] s = (s = [])"
| "sql_glob (p # ps) s =
     (if p = CHR ''*'' then sql_glob ps s \<or> (if s = [] then False else sql_glob (p # ps) (sql_skip s))
      else if p = CHR ''?'' then s \<noteq> [] \<and> sql_glob ps (sql_skip s)
      else if p = CHR ''['' then
        s \<noteq> [] \<and> (case glob_set (utf8_read s) ps of None \<Rightarrow> False
                  | Some (m, rest) \<Rightarrow> m \<and> sql_glob rest (sql_skip s))
      else (case s of [] \<Rightarrow> False | c # cs \<Rightarrow> c = p \<and> sql_glob ps cs))"
  by pat_completeness auto
termination
  by (relation "measure (\<lambda>(p, s). length p + length s)")
    (auto simp: less_Suc_eq_le length_sql_skip_le length_sql_skip_less [unfolded less_eq_Suc_le] dest!: glob_set_shorter intro: add_mono less_imp_le)

section \<open>The patterns of the sources\<close>

text \<open>control_purge_agent.go: \<^verbatim>\<open>strings.NewReplacer\<close> over backslash, percent and underscore.\<close>

definition bslash :: char where
  "bslash = CHR 0x5C"

fun escapeLike :: "string \<Rightarrow> string" where
  "escapeLike [] = []"
| "escapeLike (c # cs) =
     (if c = bslash \<or> c = CHR ''%'' \<or> c = CHR ''_'' then bslash # c # escapeLike cs
      else c # escapeLike cs)"

definition like_esc :: "string \<Rightarrow> string \<Rightarrow> bool" where
  "like_esc pat s = sql_like (Some bslash) pat s"

definition like_raw :: "string \<Rightarrow> string \<Rightarrow> bool" where
  "like_raw pat s = sql_like None pat s"

text \<open>The rows below a directory, by the folding of ASCII case the LIKE patterns have.\<close>

definition below_fold :: "string \<Rightarrow> string \<Rightarrow> bool" where
  "below_fold p s = has_prefix (map sql_fold s) (map sql_fold (p @ ''/''))"

definition below :: "string \<Rightarrow> string \<Rightarrow> bool" where
  "below p s = has_prefix s (p @ ''/'')"

lemma sql_like_percent: "esc \<noteq> Some (CHR ''%'') \<Longrightarrow> sql_like esc ''%'' s"
  by (induction s rule: measure_induct_rule [where f = length])
    (subst sql_like.simps(2), simp add: length_sql_skip_less del: sql_skip.simps sql_like.simps(2))

lemma sql_like_literal:
  assumes "esc \<noteq> Some p" "p \<noteq> CHR ''%''" "p \<noteq> CHR ''_''"
  shows "sql_like esc (p # ps) s = (case s of [] \<Rightarrow> False | c # cs \<Rightarrow> sql_fold c = sql_fold p \<and> sql_like esc ps cs)"
  using assms by simp

lemma sql_like_escaped:
  "sql_like (Some e) (e # q # ps) s =
     (case s of [] \<Rightarrow> False | c # cs \<Rightarrow> sql_fold c = sql_fold q \<and> sql_like (Some e) ps cs)"
  by simp

lemma sql_glob_literal:
  assumes "p \<noteq> CHR ''*''" "p \<noteq> CHR ''?''" "p \<noteq> CHR ''[''"
  shows "sql_glob (p # ps) s = (case s of [] \<Rightarrow> False | c # cs \<Rightarrow> c = p \<and> sql_glob ps cs)"
  using assms by simp

lemma sql_glob_star: "sql_glob ''*'' s"
  by (induction s rule: measure_induct_rule [where f = length])
    (subst sql_glob.simps(2), simp add: length_sql_skip_less del: sql_skip.simps sql_glob.simps(2))

declare sql_like.simps(2) [simp del] sql_glob.simps(2) [simp del]

lemma below_fold_Cons [simp]:
  "below_fold (c # p) (d # s) \<longleftrightarrow> sql_fold d = sql_fold c \<and> below_fold p s"
  "below_fold (c # p) [] \<longleftrightarrow> False"
  by (auto simp: below_fold_def has_prefix_def)

lemma below_Cons [simp]:
  "below (c # p) (d # s) \<longleftrightarrow> d = c \<and> below p s"
  "below (c # p) [] \<longleftrightarrow> False"
  by (auto simp: below_def has_prefix_def)

lemma bslash_neq [simp]: "bslash \<noteq> CHR ''%''" "bslash \<noteq> CHR ''_''" "bslash \<noteq> CHR ''/''"
  "CHR ''%'' \<noteq> bslash" "CHR ''_'' \<noteq> bslash" "CHR ''/'' \<noteq> bslash"
  by (auto simp: bslash_def)

lemma below_fold_Nil: "below_fold [] s \<longleftrightarrow> s \<noteq> [] \<and> sql_fold (hd s) = sql_fold slash"
  by (cases s) (auto simp: below_fold_def has_prefix_def)

text \<open>The escaped pattern selects the subtree, up to the case of ASCII letters.\<close>

lemma like_esc_subtree: "like_esc (escapeLike p @ ''/%'') s \<longleftrightarrow> below_fold p s"
  unfolding like_esc_def
proof (induction p arbitrary: s)
  case Nil
  show ?case by (cases s) (simp_all add: below_fold_Nil sql_like_literal sql_like_percent)
next
  case (Cons c p)
  show ?case by (cases s) (auto simp: Cons.IH sql_like_literal sql_like_escaped)
qed

text \<open>
  The unescaped pattern does the same only when the directory's path holds no wildcard.
\<close>

definition like_plain :: "string \<Rightarrow> bool" where
  "like_plain p \<longleftrightarrow> (\<forall>c\<in>set p. c \<noteq> CHR ''%'' \<and> c \<noteq> CHR ''_'')"

lemma like_raw_subtree: "like_plain p \<Longrightarrow> like_raw (p @ ''/%'') s \<longleftrightarrow> below_fold p s"
  unfolding like_raw_def like_plain_def
proof (induction p arbitrary: s)
  case Nil
  show ?case by (cases s) (simp_all add: below_fold_Nil sql_like_literal sql_like_percent)
next
  case (Cons c p)
  then have c: "c \<noteq> CHR ''%''" "c \<noteq> CHR ''_''" and IH: "sql_like None (p @ ''/%'') t = below_fold p t" for t
    by simp_all
  show ?case by (cases s) (simp_all add: sql_like_literal [OF _ c] IH [simplified])
qed

definition glob_plain :: "string \<Rightarrow> bool" where
  "glob_plain p \<longleftrightarrow> (\<forall>c\<in>set p. c \<noteq> CHR ''*'' \<and> c \<noteq> CHR ''?'' \<and> c \<noteq> CHR ''['')"


lemma sql_glob_subtree: "glob_plain p \<Longrightarrow> sql_glob (p @ ''/*'') s \<longleftrightarrow> below p s"
  unfolding glob_plain_def
proof (induction p arbitrary: s)
  case Nil
  show ?case
    by (cases s) (simp_all add: below_def has_prefix_def sql_glob_literal sql_glob_star)
next
  case (Cons c p)
  then have c: "c \<noteq> CHR ''*''" "c \<noteq> CHR ''?''" "c \<noteq> CHR ''[''"
    and IH: "sql_glob (p @ ''/*'') t = below p t" for t
    by simp_all
  show ?case by (cases s) (simp_all add: sql_glob_literal [OF c] IH [simplified])
qed

lemma below_imp_below_fold: "below p s \<Longrightarrow> below_fold p s"
  by (auto simp: below_def below_fold_def has_prefix_iff)

lemma below_iff: "below p s \<longleftrightarrow> (\<exists>t. s = p @ ''/'' @ t)"
  by (auto simp: below_def has_prefix_iff)

lemma not_below_fold_self [simp]: "\<not> below_fold p p"
proof
  assume "below_fold p p"
  then have "length (map sql_fold (p @ ''/'')) \<le> length p"
    unfolding below_fold_def has_prefix_def by (metis length_map length_take min.cobounded1 min.commute)
  then show False by simp
qed

subsection \<open>substr on ASCII prefixes\<close>

definition ascii :: "string \<Rightarrow> bool" where
  "ascii s \<longleftrightarrow> (\<forall>c\<in>set s. byte_of c < 128)"

lemma sql_skip_ascii: "byte_of c < 128 \<Longrightarrow> sql_skip (c # cs) = cs"
  by simp

lemma sql_substr_ascii: "ascii p \<Longrightarrow> sql_substr (p @ s) (length p + 1) = s"
  unfolding sql_substr_def
proof (induction p)
  case (Cons c p)
  then have "(sql_skip ^^ length (c # p)) ((c # p) @ s) = (sql_skip ^^ length p) (p @ s)"
    by (simp add: funpow_swap1 ascii_def)
  with Cons show ?case by (simp add: ascii_def)
qed simp

end
