(* ===== verification/Chunk_Refs.thy ===== *)
theory Chunk_Refs
  imports Orlop_Prelude "HOL-Library.AList"
begin

text \<open>
  Chunk references of manifests.go: the \<^verbatim>\<open>ChunkRef\<close> struct, the packed form stored in the
  \<^verbatim>\<open>manifests.chunks\<close> column (\<open>packChunks\<close>, \<open>unpackChunks\<close>), and the bookkeeping of the
  \<^verbatim>\<open>chunks.refcount\<close> column (\<open>chunkRefDelta\<close>, \<open>applyChunkRefDelta\<close>, \<open>NoteChunkStored\<close>).

  A \<^verbatim>\<open>[32]byte\<close> hash is held as the 256-bit word its bytes spell in big-endian order, so equality
  and map keys are those of the array.

  Shown here: packing and unpacking are inverse to each other on every chunk list and on every
  blob of a legal length; applying a delta adds it to every refcount, and fails exactly when some
  refcount would go below zero, which the column's CHECK forbids.
\<close>

section \<open>Big-endian integers\<close>

type_synonym hash = "256 word"

fun be_put :: "nat \<Rightarrow> 'a::len word \<Rightarrow> byte list" where
  "be_put 0 v = []"
| "be_put (Suc n) v = ucast (drop_bit (8 * n) v) # be_put n v"

fun be_get :: "byte list \<Rightarrow> 'a::len word" where
  "be_get [] = 0"
| "be_get (b # bs) = or (push_bit (8 * length bs) (ucast b)) (be_get bs)"

text \<open>An equivalent of \<open>be_get\<close> with a single conversion, which evaluates faster.\<close>

fun be_int :: "int \<Rightarrow> byte list \<Rightarrow> int" where
  "be_int a [] = a"
| "be_int a (b # bs) = be_int (256 * a + uint b) bs"

lemma be_int_shift: "be_int a bs = a * 256 ^ length bs + be_int 0 bs"
proof (induction bs arbitrary: a)
  case (Cons b bs)
  show ?case using Cons [of "256 * a + uint b"] Cons [of "uint b"] by (simp add: algebra_simps)
qed simp

lemma bit_be_get_less: "bit (be_get bs :: 'a::len word) i \<Longrightarrow> i < 8 * length bs"
proof (induction bs)
  case (Cons b bs)
  then show ?case by (auto simp: bit_or_iff bit_push_bit_iff bit_ucast_iff dest: bit_imp_le_length)
qed simp

lemma be_get_code [code]: "be_get bs = (of_int (be_int 0 bs) :: 'a::len word)"
proof (induction bs)
  case (Cons b bs)
  have "be_get (b # bs) = push_bit (8 * length bs) (ucast b :: 'a word) + be_get bs"
    by (simp, rule disjunctive_add [symmetric]) (auto simp: bit_push_bit_iff dest: bit_be_get_less)
  also have "push_bit (8 * length bs) (ucast b :: 'a word) = of_int (uint b) * 2 ^ (8 * length bs)"
    by (simp only: push_bit_eq_mult ucast_eq)
  also have "(2 :: 'a word) ^ (8 * length bs) = of_int (256 ^ length bs)"
    by (simp only: power_mult of_int_power) simp
  finally show ?case using Cons be_int_shift [of "uint b" bs] by simp
qed simp

lemma length_be_put [simp]: "length (be_put n v) = n"
  by (induction n) auto

lemma bit_be_get_put:
  "i < LENGTH('a) \<Longrightarrow> bit (be_get (be_put n (v :: 'a::len word)) :: 'a word) i \<longleftrightarrow> i < 8 * n \<and> bit v i"
proof (induction n)
  case (Suc n)
  then show ?case
    by (auto simp: bit_or_iff bit_push_bit_iff bit_ucast_iff bit_drop_bit_eq intro: less_imp_diff_less)
qed simp

lemma be_get_put [simp]: "LENGTH('a) \<le> 8 * n \<Longrightarrow> be_get (be_put n v) = (v :: 'a::len word)"
  by (rule bit_word_eqI) (simp add: bit_be_get_put)

lemma bit_be_get_bound: "bit (be_get bs :: 'a::len word) i \<Longrightarrow> i < 8 * length bs"
proof (induction bs)
  case (Cons b bs)
  have "i - 8 * length bs < 8" if "bit b (i - 8 * length bs)"
    using bit_imp_le_length [OF that] by simp
  with Cons show ?case by (auto simp: bit_or_iff bit_push_bit_iff bit_ucast_iff)
qed simp

lemma be_put_cong:
  fixes v w :: "'a::len word"
  shows "(\<And>i. i < 8 * n \<Longrightarrow> bit v i = bit w i) \<Longrightarrow> be_put n v = be_put n w"
proof (induction n)
  case (Suc n)
  have "(ucast (drop_bit (8 * n) v) :: byte) = ucast (drop_bit (8 * n) w)"
    by (rule bit_word_eqI) (simp add: bit_ucast_iff bit_drop_bit_eq Suc.prems)
  then show ?case using Suc by simp
qed simp

lemma be_put_get:
  "8 * length bs \<le> LENGTH('a) \<Longrightarrow> be_put (length bs) (be_get bs :: 'a::len word) = bs"
proof (induction bs)
  case (Cons b bs)
  let ?x = "be_get bs :: 'a word" and ?y = "push_bit (8 * length bs) (ucast b) :: 'a word"
  have hd: "ucast (drop_bit (8 * length bs) (or ?y ?x)) = b"
  proof (rule bit_word_eqI)
    fix i assume "i < LENGTH(8)"
    then have i: "i < 8" by simp
    then have "8 * length bs + i < LENGTH('a)" using Cons.prems by simp
    moreover have "\<not> bit ?x (8 * length bs + i)"
      using bit_be_get_bound [of bs "8 * length bs + i", where 'a = 'a] by auto
    ultimately show "bit (ucast (drop_bit (8 * length bs) (or ?y ?x)) :: byte) i = bit b i"
      using i by (simp add: bit_ucast_iff bit_drop_bit_eq bit_or_iff bit_push_bit_iff)
  qed
  have "be_put (length bs) (or ?y ?x) = be_put (length bs) ?x"
    by (rule be_put_cong) (simp add: bit_or_iff bit_push_bit_iff)
  with Cons hd show ?case by simp
qed simp

section \<open>Packed chunk lists\<close>

record ChunkRef =
  cr_hash :: hash
  cr_offset :: "64 word"
  cr_len :: "32 word"

definition HashLen :: nat where
  "HashLen = 32"

definition chunkRefSize :: nat where
  "chunkRefSize = HashLen + 8 + 4"

definition pack_one :: "ChunkRef \<Rightarrow> byte list" where
  "pack_one c = be_put HashLen (cr_hash c) @ be_put 8 (cr_offset c) @ be_put 4 (cr_len c)"

definition packChunks :: "ChunkRef list \<Rightarrow> byte list" where
  "packChunks chunks = concat (map pack_one chunks)"

definition unpack_one :: "byte list \<Rightarrow> ChunkRef" where
  "unpack_one bs = \<lparr> cr_hash = be_get (take HashLen bs),
                     cr_offset = be_get (take 8 (drop HashLen bs)),
                     cr_len = be_get (take 4 (drop (HashLen + 8) bs)) \<rparr>"

text \<open>None is the error of a blob whose length is not a multiple of \<^verbatim>\<open>chunkRefSize\<close>.\<close>

definition unpackChunks :: "byte list \<Rightarrow> ChunkRef list option" where
  "unpackChunks blob =
     (if length blob mod chunkRefSize \<noteq> 0 then None
      else Some (map (\<lambda>i. unpack_one (take chunkRefSize (drop (i * chunkRefSize) blob)))
                   [0..<length blob div chunkRefSize]))"

lemma length_pack_one [simp]: "length (pack_one c) = chunkRefSize"
  by (simp add: pack_one_def chunkRefSize_def)

lemma length_packChunks [simp]: "length (packChunks cs) = length cs * chunkRefSize"
  by (induction cs) (auto simp: packChunks_def)

lemma chunkRefSize_pos [simp]: "0 < chunkRefSize"
  by (simp add: chunkRefSize_def HashLen_def)

lemma unpack_pack_one [simp]: "unpack_one (pack_one c @ rest) = c"
  by (cases c) (simp add: unpack_one_def pack_one_def HashLen_def)

lemma pack_one_inverse:
  assumes "length bs = chunkRefSize"
  shows "pack_one (unpack_one bs) = bs"
proof -
  have l: "length bs = 44" using assms by (simp add: chunkRefSize_def HashLen_def)
  have "be_put 32 (be_get (take 32 bs) :: hash) = take 32 bs"
    using be_put_get [where 'a = 256, of "take 32 bs"] l by simp
  moreover have "be_put 8 (be_get (take 8 (drop 32 bs)) :: 64 word) = take 8 (drop 32 bs)"
    using be_put_get [where 'a = 64, of "take 8 (drop 32 bs)"] l by simp
  moreover have "be_put 4 (be_get (take 4 (drop 40 bs)) :: 32 word) = take 4 (drop 40 bs)"
    using be_put_get [where 'a = 32, of "take 4 (drop 40 bs)"] l by simp
  moreover have "take 32 bs @ take 8 (drop 32 bs) @ take 4 (drop 40 bs) = bs"
  proof -
    have "take 4 (drop 40 bs) = drop 8 (drop 32 bs)" using l by simp
    then show ?thesis by (simp only: append_take_drop_id)
  qed
  ultimately show ?thesis by (simp add: pack_one_def unpack_one_def HashLen_def)
qed

lemma unpackChunks_Nil [simp]: "unpackChunks [] = Some []"
  by (simp add: unpackChunks_def)

lemma unpackChunks_append:
  assumes "length bs = chunkRefSize"
  shows "unpackChunks (bs @ blob) = map_option ((#) (unpack_one bs)) (unpackChunks blob)"
proof -
  have upt: "[0..<Suc n] = 0 # map Suc [0..<n]" for n
    by (simp add: map_Suc_upt upt_conv_Cons del: upt_Suc)
  have "length (bs @ blob) div chunkRefSize = Suc (length blob div chunkRefSize)"
    using assms by (simp add: div_add_self1)
  moreover have "length (bs @ blob) mod chunkRefSize = length blob mod chunkRefSize"
    using assms by simp
  ultimately show ?thesis
    using assms by (simp add: unpackChunks_def upt del: upt_Suc)
qed

lemma unpack_pack [simp]: "unpackChunks (packChunks cs) = Some cs"
  by (induction cs)
    (simp_all add: packChunks_def unpackChunks_append, metis append_Nil2 unpack_pack_one)

lemma pack_unpack: "unpackChunks blob = Some cs \<Longrightarrow> packChunks cs = blob"
proof (induction "length blob div chunkRefSize" arbitrary: blob cs)
  case 0
  then have "blob = []" by (auto simp: unpackChunks_def split: if_splits)
  with 0 show ?case by (simp add: packChunks_def)
next
  case (Suc n)
  let ?b = "take chunkRefSize blob" and ?r = "drop chunkRefSize blob"
  have len: "chunkRefSize \<le> length blob"
    using Suc.hyps(2) by (cases "length blob < chunkRefSize") auto
  then have b: "length ?b = chunkRefSize" and n: "n = length ?r div chunkRefSize"
    using Suc.hyps(2) by (auto simp: le_div_geq)
  from Suc.prems b obtain cs' where cs': "unpackChunks ?r = Some cs'" "cs = unpack_one ?b # cs'"
    using unpackChunks_append [OF b, of ?r] by (auto simp: map_option_eq_Some dest: sym)
  have "packChunks cs' = ?r" by (rule Suc.hyps(1) [OF n cs'(1)])
  with cs'(2) b show ?case by (simp add: packChunks_def pack_one_inverse)
qed

lemma unpack_defined_iff: "(\<exists>cs. unpackChunks blob = Some cs) \<longleftrightarrow> length blob mod chunkRefSize = 0"
  by (simp add: unpackChunks_def)

section \<open>Reference counts\<close>

record chunk_row =
  ck_hash :: hash
  ck_size :: int
  ck_refcount :: int
  ck_added_at :: int

text \<open>The delta is a Go map; its association list holds each hash once.\<close>

type_synonym ref_delta = "(hash \<times> int) list"

definition delta_at :: "ref_delta \<Rightarrow> hash \<Rightarrow> int" where
  "delta_at m h = (case map_of m h of None \<Rightarrow> 0 | Some v \<Rightarrow> v)"

definition delta_add :: "int \<Rightarrow> ChunkRef \<Rightarrow> ref_delta \<Rightarrow> ref_delta" where
  "delta_add d r m = AList.update (cr_hash r) (delta_at m (cr_hash r) + d) m"

definition chunkRefDelta :: "ChunkRef list \<Rightarrow> ChunkRef list \<Rightarrow> ref_delta" where
  "chunkRefDelta old new = fold (delta_add (-1)) old (fold (delta_add 1) new [])"

text \<open>\<^verbatim>\<open>update chunks set refcount = refcount + ? where hash = ?\<close> under \<^verbatim>\<open>check (refcount >= 0)\<close>.\<close>

definition refcount_update :: "hash \<Rightarrow> int \<Rightarrow> chunk_row list \<Rightarrow> chunk_row list option" where
  "refcount_update h d rows =
     (if list_ex (\<lambda>r. ck_hash r = h \<and> ck_refcount r + d < 0) rows then None
      else Some (tbl_update (\<lambda>r. ck_hash r = h) (\<lambda>r. r\<lparr>ck_refcount := ck_refcount r + d\<rparr>) rows))"

fun applyChunkRefDelta :: "ref_delta \<Rightarrow> chunk_row list \<Rightarrow> chunk_row list option" where
  "applyChunkRefDelta [] rows = Some rows"
| "applyChunkRefDelta ((h, d) # ds) rows =
     (if d = 0 then applyChunkRefDelta ds rows
      else let rows1 = tbl_insert ck_hash \<lparr>ck_hash = h, ck_size = 0, ck_refcount = 0, ck_added_at = 0\<rparr> rows
           in (case refcount_update h d rows1 of
                 None \<Rightarrow> None
               | Some rows2 \<Rightarrow> applyChunkRefDelta ds rows2))"

definition NoteChunkStored :: "hash \<Rightarrow> int \<Rightarrow> int \<Rightarrow> chunk_row list \<Rightarrow> chunk_row list" where
  "NoteChunkStored h sz addedAt rows =
     tbl_insert ck_hash \<lparr>ck_hash = h, ck_size = sz, ck_refcount = 0, ck_added_at = addedAt\<rparr> rows"

definition refcount_of :: "chunk_row list \<Rightarrow> hash \<Rightarrow> int" where
  "refcount_of rows h = (case tbl_get ck_hash rows h of None \<Rightarrow> 0 | Some r \<Rightarrow> ck_refcount r)"

text \<open>How often a chunk list names a hash.\<close>

definition refs :: "ChunkRef list \<Rightarrow> hash \<Rightarrow> nat" where
  "refs cs h = length (filter (\<lambda>c. cr_hash c = h) cs)"

lemma refs_simps [simp]:
  "refs [] h = 0"
  "refs (c # cs) h = (if cr_hash c = h then Suc (refs cs h) else refs cs h)"
  by (simp_all add: refs_def)

lemma delta_at_simps [simp]:
  "delta_at [] h = 0"
  "delta_at ((k, v) # m) h = (if k = h then v else delta_at m h)"
  by (simp_all add: delta_at_def)

lemma delta_at_add [simp]:
  "delta_at (delta_add d r m) h = delta_at m h + (if cr_hash r = h then d else 0)"
  by (simp add: delta_add_def delta_at_def update_conv')

lemma distinct_delta_add [simp]: "distinct (map fst m) \<Longrightarrow> distinct (map fst (delta_add d r m))"
  by (simp add: delta_add_def distinct_update)

lemma delta_at_fold [simp]:
  "delta_at (fold (delta_add d) rs m) h = delta_at m h + d * int (refs rs h)"
  by (induction rs arbitrary: m) (auto simp: algebra_simps)

lemma distinct_fold_delta [simp]:
  "distinct (map fst m) \<Longrightarrow> distinct (map fst (fold (delta_add d) rs m))"
  by (induction rs arbitrary: m) auto

lemma chunkRefDelta_at [simp]: "delta_at (chunkRefDelta old new) h = int (refs new h) - int (refs old h)"
  by (simp add: chunkRefDelta_def)

lemma distinct_chunkRefDelta [simp]: "distinct (map fst (chunkRefDelta old new))"
  by (simp add: chunkRefDelta_def)

lemma refcount_of_append:
  "refcount_of (rows @ rows') h = (if h \<in> tbl_keys ck_hash rows then refcount_of rows h else refcount_of rows' h)"
proof (cases "h \<in> tbl_keys ck_hash rows")
  case True
  then obtain r where "tbl_get ck_hash rows h = Some r" using tbl_get_Some_ex by metis
  with True show ?thesis by (simp add: refcount_of_def tbl_get_append)
next
  case False
  then have "tbl_get ck_hash rows h = None" by (simp add: tbl_get_None)
  with False show ?thesis by (simp add: refcount_of_def tbl_get_append)
qed

lemma delta_at_absent: "h \<notin> set (map fst ds) \<Longrightarrow> delta_at ds h = 0"
  using map_of_eq_None_iff [of ds h] by (simp add: delta_at_def)

lemma refcount_of_absent: "h \<notin> tbl_keys ck_hash rows \<Longrightarrow> refcount_of rows h = 0"
  by (simp add: refcount_of_def flip: tbl_get_None split: option.splits)

lemma refcount_of_insert0 [simp]:
  "refcount_of (tbl_insert ck_hash \<lparr>ck_hash = h, ck_size = s, ck_refcount = 0, ck_added_at = a\<rparr> rows) k
   = refcount_of rows k"
  by (auto simp: tbl_insert_def refcount_of_append refcount_of_absent)
    (simp add: refcount_of_def tbl_get_Cons)

lemma refcount_of_NoteChunkStored [simp]: "refcount_of (NoteChunkStored h s a rows) k = refcount_of rows k"
  by (simp add: NoteChunkStored_def)

lemma refcount_of_update:
  assumes "refcount_update h d rows = Some rows'" "h \<in> tbl_keys ck_hash rows"
  shows "refcount_of rows' k = refcount_of rows k + (if k = h then d else 0)"
proof -
  have rows': "rows' = tbl_update (\<lambda>r. ck_hash r = h) (\<lambda>r. r\<lparr>ck_refcount := ck_refcount r + d\<rparr>) rows"
    using assms(1) by (simp add: refcount_update_def split: if_splits)
  obtain r where "tbl_get ck_hash rows h = Some r" using assms(2) tbl_get_Some_ex by metis
  then show ?thesis
    unfolding rows' refcount_of_def
    by (subst tbl_get_update) (auto split: option.splits dest: tbl_get_SomeD)
qed

lemma refcount_update_keys:
  "refcount_update h d rows = Some rows' \<Longrightarrow> map ck_hash rows' = map ck_hash rows"
  by (auto simp: refcount_update_def split: if_splits)

lemma refcount_update_defined:
  assumes "distinct (map ck_hash rows)" "0 \<le> refcount_of rows h + d"
  shows "\<exists>rows'. refcount_update h d rows = Some rows'"
proof -
  have "0 \<le> ck_refcount r + d" if "r \<in> set rows" "ck_hash r = h" for r
    using assms that tbl_get_unique [OF assms(1) that(1)] by (simp add: refcount_of_def)
  then show ?thesis by (auto simp: refcount_update_def list_ex_iff not_less)
qed

lemma in_keys_insert [simp]: "key r \<in> tbl_keys key (tbl_insert key r rows)"
  by (auto simp: tbl_insert_def)

lemma applyChunkRefDelta_Some:
  assumes "applyChunkRefDelta ds rows = Some rows'" "distinct (map ck_hash rows)"
  shows "distinct (map ck_hash rows')"
    and "distinct (map fst ds) \<Longrightarrow> refcount_of rows' k = refcount_of rows k + delta_at ds k"
proof -
  have "distinct (map ck_hash rows') \<and>
        (distinct (map fst ds) \<longrightarrow> refcount_of rows' k = refcount_of rows k + delta_at ds k)"
    using assms
  proof (induction ds rows rule: applyChunkRefDelta.induct)
    case (2 h d ds rows)
    let ?r = "\<lparr>ck_hash = h, ck_size = 0, ck_refcount = 0, ck_added_at = 0\<rparr>"
    show ?case
    proof (cases "d = 0")
      case True
      with 2 delta_at_absent [of h ds] show ?thesis by auto
    next
      case False
      with 2(3) obtain rows2 where u: "refcount_update h d (tbl_insert ck_hash ?r rows) = Some rows2"
        and rest: "applyChunkRefDelta ds rows2 = Some rows'"
        by (auto simp: Let_def split: option.splits)
      have "h \<in> tbl_keys ck_hash (tbl_insert ck_hash ?r rows)"
        using in_keys_insert [of ck_hash ?r rows] by simp
      note cnt = refcount_of_update [OF u this, of k]
      have "distinct (map ck_hash rows2)"
        using refcount_update_keys [OF u] 2(4) by simp
      from 2(2) [OF False refl u rest this] have
        IH: "distinct (map ck_hash rows')" "distinct (map fst ds) \<Longrightarrow> refcount_of rows' k = refcount_of rows2 k + delta_at ds k"
        by auto
      with IH cnt delta_at_absent [of h ds] show ?thesis by auto
    qed
  qed simp
  then show "distinct (map ck_hash rows')"
    and "distinct (map fst ds) \<Longrightarrow> refcount_of rows' k = refcount_of rows k + delta_at ds k"
    by auto
qed

lemma applyChunkRefDelta_defined:
  assumes "distinct (map fst ds)" "distinct (map ck_hash rows)" "\<And>h. 0 \<le> refcount_of rows h + delta_at ds h"
  shows "\<exists>rows'. applyChunkRefDelta ds rows = Some rows'"
  using assms
proof (induction ds rows rule: applyChunkRefDelta.induct)
  case (2 h d ds rows)
  let ?r = "\<lparr>ck_hash = h, ck_size = 0, ck_refcount = 0, ck_added_at = 0\<rparr>"
  have h0: "delta_at ds h = 0"
    using 2(3) by (intro delta_at_absent) simp
  show ?case
  proof (cases "d = 0")
    case True
    have "0 \<le> refcount_of rows k + delta_at ds k" for k
      using 2(5) [of k] h0 True by (auto split: if_splits)
    with 2(1) [OF True] 2(3,4) True show ?thesis by simp
  next
    case False
    have "0 \<le> refcount_of (tbl_insert ck_hash ?r rows) h + d"
      using 2(5) [of h] by simp
    then obtain rows2 where u: "refcount_update h d (tbl_insert ck_hash ?r rows) = Some rows2"
      using refcount_update_defined [of "tbl_insert ck_hash ?r rows" h d] 2(4) by auto
    have "h \<in> tbl_keys ck_hash (tbl_insert ck_hash ?r rows)"
      using in_keys_insert [of ck_hash ?r rows] by simp
    note cnt = refcount_of_update [OF u this]
    have d2: "distinct (map ck_hash rows2)"
      using refcount_update_keys [OF u] 2(4) by simp
    have "0 \<le> refcount_of rows2 k + delta_at ds k" for k
      using 2(5) [of k] h0 cnt [of k] by (auto split: if_splits)
    with 2(2) [OF False refl u _ d2] 2(3) u False show ?thesis by (simp add: Let_def)
  qed
qed simp

end
