(* ===== verification/Tenant_Db.thy ===== *)
theory Tenant_Db
  imports Sql_Text Chunk_Refs
begin

text \<open>
  The per-tenant database of tenantdb.go: one record per table row, one list per table, and the
  two singleton counters. \<open>empty_db\<close> is what \<^verbatim>\<open>ensureTenantSchema\<close> leaves in a fresh file.

  A store operation is a transaction, a function from the database to an error or a result with
  the new database (\<open>tx\<close>). \<open>run_tx\<close> is \<^verbatim>\<open>Begin ... Commit\<close> with the deferred \<^verbatim>\<open>Rollback\<close>:
  an error, or a commit that fails, leaves the database as it was.

  Revisions, versions, inode numbers and sequence numbers are \<open>nat\<close>: they are counters the server
  increments by one. Sizes and device numbers arrive from clients as \<^verbatim>\<open>uint64\<close> and stay at that
  width, because \<^verbatim>\<open>database/sql\<close> refuses a value with the high bit set (\<open>bind_uint64\<close>).
\<close>

section \<open>Rows\<close>

record manifest_row =
  mf_path :: string
  mf_inode :: nat
  mf_size :: "64 word"
  mf_mode :: "32 word"
  mf_mtime :: int
  mf_version :: nat
  mf_chunks :: "byte list"
  mf_uid :: "32 word"
  mf_gid :: "32 word"
  mf_atime :: int
  mf_rev :: nat

record dir_row =
  de_parent :: string
  de_name :: string
  de_mode :: "32 word"
  de_mtime :: int
  de_uid :: "32 word"
  de_gid :: "32 word"
  de_atime :: int
  de_rev :: nat

record symlink_row =
  sl_path :: string
  sl_target :: string
  sl_mode :: "32 word"
  sl_mtime :: int
  sl_uid :: "32 word"
  sl_gid :: "32 word"
  sl_atime :: int
  sl_rev :: nat

record special_row =
  sn_path :: string
  sn_mode :: "32 word"
  sn_rdev :: "64 word"
  sn_mtime :: int
  sn_uid :: "32 word"
  sn_gid :: "32 word"
  sn_atime :: int
  sn_rev :: nat

record tombstone_row =
  tb_path :: string
  tb_rev :: nat
  tb_ts :: int

datatype SessionOp = SessionOpCreate | SessionOpUpdate | SessionOpDelete | SessionOpRename

record journal_row =
  j_rowid :: nat
  j_session :: string
  j_seq :: nat
  j_path :: string
  j_op :: SessionOp
  j_before_version :: "nat option"
  j_before_manifest :: "byte list option"
  j_rename_from :: "string option"
  j_ts :: int
  j_after_version :: "nat option"
  j_agent :: string
  j_alloc :: string

record tenant_db =
  db_chunks :: "chunk_row list"
  db_manifests :: "manifest_row list"
  db_dirs :: "dir_row list"
  db_symlinks :: "symlink_row list"
  db_specials :: "special_row list"
  db_tombs :: "tombstone_row list"
  db_journal :: "journal_row list"
  db_next_inode :: nat
  db_last_rev :: nat
  db_pruned_before :: nat

definition empty_db :: tenant_db where
  "empty_db = \<lparr> db_chunks = [], db_manifests = [], db_dirs = [], db_symlinks = [], db_specials = [],
     db_tombs = [], db_journal = [], db_next_inode = 0, db_last_rev = 0, db_pruned_before = 0 \<rparr>"

abbreviation de_key :: "dir_row \<Rightarrow> string \<times> string" where
  "de_key d \<equiv> (de_parent d, de_name d)"

abbreviation j_key :: "journal_row \<Rightarrow> string \<times> nat" where
  "j_key j \<equiv> (j_session j, j_seq j)"

definition UsedBytes :: "tenant_db \<Rightarrow> int \<times> int" where
  "UsedBytes db = (sum_list (map ck_size (db_chunks db)), int (length (db_chunks db)))"

section \<open>Errors\<close>

datatype store_error =
    ErrManifestNotFound
  | ErrVersionConflict "nat option"  \<comment> \<open>the existing version, when the error carries it\<close>
  | ErrParentNotFound
  | ErrAlreadyExists
  | ErrNotEmpty
  | ErrNotDir
  | ErrIsDir
  | ErrPathMismatch
  | ErrEmptyAllocation
  | ErrEmptySession
  | ErrNoActiveLease
  | ErrSessionMismatch
  | ErrMissingChunk hash
  | ErrChunkCheck
  | ErrUnpackChunks
  | ErrEncodeManifest
  | ErrDecodeManifest
  | ErrRefcountCheck
  | ErrUniqueKey
  | ErrBadArgument
  | ErrUint64HighBit
  | ErrCommit

section \<open>Transactions\<close>

type_synonym 'a tx = "tenant_db \<Rightarrow> store_error + ('a \<times> tenant_db)"

definition tx_return :: "'a \<Rightarrow> 'a tx" where
  "tx_return v db = Inr (v, db)"

definition tx_fail :: "store_error \<Rightarrow> 'a tx" where
  "tx_fail e db = Inl e"

definition tx_bind :: "'a tx \<Rightarrow> ('a \<Rightarrow> 'b tx) \<Rightarrow> 'b tx" where
  "tx_bind m f db = (case m db of Inl e \<Rightarrow> Inl e | Inr (v, db') \<Rightarrow> f v db')"

definition tx_seq :: "unit tx \<Rightarrow> 'b tx \<Rightarrow> 'b tx" where
  "tx_seq m k = tx_bind m (\<lambda>_. k)"

text \<open>Reading a query's result and running one statement.\<close>

definition tx_read :: "(tenant_db \<Rightarrow> 'a) \<Rightarrow> 'a tx" where
  "tx_read q db = Inr (q db, db)"

definition tx_exec :: "(tenant_db \<Rightarrow> tenant_db) \<Rightarrow> unit tx" where
  "tx_exec f db = Inr ((), f db)"

definition tx_try :: "(tenant_db \<Rightarrow> store_error + tenant_db) \<Rightarrow> unit tx" where
  "tx_try f db = (case f db of Inl e \<Rightarrow> Inl e | Inr db' \<Rightarrow> Inr ((), db'))"

definition tx_guard :: "bool \<Rightarrow> store_error \<Rightarrow> unit tx" where
  "tx_guard b e db = (if b then Inr ((), db) else Inl e)"

definition tx_lift :: "store_error \<Rightarrow> 'a option \<Rightarrow> 'a tx" where
  "tx_lift e v db = (case v of None \<Rightarrow> Inl e | Some x \<Rightarrow> Inr (x, db))"

definition tx_when :: "bool \<Rightarrow> unit tx \<Rightarrow> unit tx" where
  "tx_when b m = (if b then m else tx_return ())"

text \<open>\<^verbatim>\<open>db.Begin\<close>, the body, \<^verbatim>\<open>Commit\<close>; the deferred \<^verbatim>\<open>Rollback\<close> undoes everything else.\<close>

definition run_tx :: "bool \<Rightarrow> 'a tx \<Rightarrow> tenant_db \<Rightarrow> (store_error + 'a) \<times> tenant_db" where
  "run_tx commit_ok m db =
     (case m db of
        Inl e \<Rightarrow> (Inl e, db)
      | Inr (v, db') \<Rightarrow> if commit_ok then (Inr v, db') else (Inl ErrCommit, db))"

lemma tx_bind_Inr [simp]: "tx_bind m f db = Inr (v, db') \<longleftrightarrow> (\<exists>u db1. m db = Inr (u, db1) \<and> f u db1 = Inr (v, db'))"
  by (auto simp: tx_bind_def split: sum.splits)

lemma tx_bind_Inl: "tx_bind m f db = Inl e \<longleftrightarrow> m db = Inl e \<or> (\<exists>u db1. m db = Inr (u, db1) \<and> f u db1 = Inl e)"
  by (auto simp: tx_bind_def split: sum.splits)

lemma tx_seq_Inr [simp]: "tx_seq m k db = Inr (v, db') \<longleftrightarrow> (\<exists>db1. m db = Inr ((), db1) \<and> k db1 = Inr (v, db'))"
  by (auto simp: tx_seq_def)

lemma tx_return_Inr [simp]: "tx_return v db = Inr (w, db') \<longleftrightarrow> w = v \<and> db' = db"
  by (auto simp: tx_return_def)

lemma tx_fail_Inr [simp]: "tx_fail e db \<noteq> Inr x"
  by (simp add: tx_fail_def)

lemma tx_read_Inr [simp]: "tx_read q db = Inr (v, db') \<longleftrightarrow> v = q db \<and> db' = db"
  by (auto simp: tx_read_def)

lemma tx_exec_Inr [simp]: "tx_exec f db = Inr (u, db') \<longleftrightarrow> db' = f db"
  by (auto simp: tx_exec_def)

lemma tx_try_Inr [simp]: "tx_try f db = Inr (u, db') \<longleftrightarrow> f db = Inr db'"
  by (auto simp: tx_try_def split: sum.splits)

lemma tx_guard_Inr [simp]: "tx_guard b e db = Inr (u, db') \<longleftrightarrow> b \<and> db' = db"
  by (auto simp: tx_guard_def)

lemma tx_lift_Inr [simp]: "tx_lift e v db = Inr (x, db') \<longleftrightarrow> v = Some x \<and> db' = db"
  by (auto simp: tx_lift_def split: option.splits)

lemma tx_when_Inr [simp]:
  "tx_when b m db = Inr (u, db') \<longleftrightarrow> (if b then m db = Inr ((), db') else db' = db)"
  by (auto simp: tx_when_def)

lemma tx_if_Inr [simp]:
  "(if b then m else k) db = Inr x \<longleftrightarrow> (if b then m db = Inr x else k db = Inr x)"
  by simp

lemmas tx_eval = tx_bind_def tx_seq_def tx_return_def tx_fail_def tx_read_def tx_exec_def tx_try_def
  tx_guard_def tx_lift_def tx_when_def

lemma tx_bind_eval: "m db = Inr (v, db1) \<Longrightarrow> tx_bind m f db = f v db1"
  by (simp add: tx_bind_def)

lemma tx_seq_eval: "m db = Inr (v, db1) \<Longrightarrow> tx_seq m k db = k db1"
  by (simp add: tx_seq_def tx_bind_def)

lemma tx_steps:
  "tx_bind (tx_read f) k db = k (f db) db" "tx_bind (tx_lift e (Some v)) k db = k v db"
  "tx_seq (tx_guard True e) m db = m db" "tx_seq (tx_exec h) m db = m (h db)"
  by (simp_all add: tx_eval)

lemma run_tx_Inl: "run_tx c m db = (Inl e, db') \<Longrightarrow> db' = db"
  by (auto simp: run_tx_def split: sum.splits if_splits)

lemma run_tx_Inr: "run_tx c m db = (Inr v, db') \<longleftrightarrow> c \<and> m db = Inr (v, db')"
  by (auto simp: run_tx_def split: sum.splits if_splits)

section \<open>Counters and tombstones (changes.go)\<close>

text \<open>A \<^verbatim>\<open>uint64\<close> bound to a statement parameter.\<close>

definition bind_uint64 :: "64 word \<Rightarrow> bool" where
  "bind_uint64 w \<longleftrightarrow> \<not> bit w 63"

definition allocInodeTx :: "nat tx" where
  "allocInodeTx db = Inr (Suc (db_next_inode db), db\<lparr>db_next_inode := Suc (db_next_inode db)\<rparr>)"

definition allocChangeRevTx :: "nat tx" where
  "allocChangeRevTx db = Inr (Suc (db_last_rev db), db\<lparr>db_last_rev := Suc (db_last_rev db)\<rparr>)"

definition tomb_upsert :: "string \<Rightarrow> nat \<Rightarrow> int \<Rightarrow> tombstone_row list \<Rightarrow> tombstone_row list" where
  "tomb_upsert p rv now tombs =
     tbl_upsert tb_path \<lparr>tb_path = p, tb_rev = rv, tb_ts = now\<rparr>
       (\<lambda>t. t\<lparr>tb_rev := rv, tb_ts := now\<rparr>) tombs"

definition upsertTombstoneTx :: "int \<Rightarrow> string \<Rightarrow> nat \<Rightarrow> unit tx" where
  "upsertTombstoneTx now p rv = tx_exec (\<lambda>db. db\<lparr>db_tombs := tomb_upsert p rv now (db_tombs db)\<rparr>)"

definition clearTombstoneTx :: "string \<Rightarrow> unit tx" where
  "clearTombstoneTx p = tx_exec (\<lambda>db. db\<lparr>db_tombs := tbl_delete (\<lambda>t. tb_path t = p) (db_tombs db)\<rparr>)"

text \<open>\<^verbatim>\<open>path = ? or path like ? escape '\'\<close> with the subtree pattern.\<close>

definition in_subtree :: "string \<Rightarrow> string \<Rightarrow> bool" where
  "in_subtree p q \<longleftrightarrow> q = p \<or> like_esc (escapeLike p @ ''/%'') q"

definition clearTombstoneSubtreeTx :: "string \<Rightarrow> unit tx" where
  "clearTombstoneSubtreeTx p =
     tx_exec (\<lambda>db. db\<lparr>db_tombs := tbl_delete (\<lambda>t. in_subtree p (tb_path t)) (db_tombs db)\<rparr>)"

definition de_full :: "dir_row \<Rightarrow> string" where
  "de_full d = full_path (de_parent d) (de_name d)"

text \<open>One \<^verbatim>\<open>insert into change_tombstones ... select ... on conflict do update\<close>.\<close>

definition tomb_all :: "nat \<Rightarrow> int \<Rightarrow> string list \<Rightarrow> tombstone_row list \<Rightarrow> tombstone_row list" where
  "tomb_all rv now paths tombs = fold (\<lambda>q ts. tomb_upsert q rv now ts) paths tombs"

definition subtree_paths :: "string \<Rightarrow> tenant_db \<Rightarrow> string list" where
  "subtree_paths p db =
     filter (in_subtree p) (map mf_path (db_manifests db)) @
     filter (in_subtree p) (map sl_path (db_symlinks db)) @
     filter (in_subtree p) (map sn_path (db_specials db)) @
     filter (in_subtree p) (map de_full (db_dirs db))"

definition tombstoneSubtreeTx :: "int \<Rightarrow> string \<Rightarrow> nat \<Rightarrow> unit tx" where
  "tombstoneSubtreeTx now p rv =
     tx_exec (\<lambda>db. db\<lparr>db_tombs := tomb_all rv now (subtree_paths p db) (db_tombs db)\<rparr>)"

lemma allocInodeTx_Inr [simp]:
  "allocInodeTx db = Inr (i, db') \<longleftrightarrow> i = Suc (db_next_inode db) \<and> db' = db\<lparr>db_next_inode := i\<rparr>"
  by (auto simp: allocInodeTx_def)

lemma allocChangeRevTx_Inr [simp]:
  "allocChangeRevTx db = Inr (r, db') \<longleftrightarrow> r = Suc (db_last_rev db) \<and> db' = db\<lparr>db_last_rev := r\<rparr>"
  by (auto simp: allocChangeRevTx_def)

lemma in_subtree_iff: "in_subtree p q \<longleftrightarrow> q = p \<or> below_fold p q"
  by (simp add: in_subtree_def like_esc_subtree)

lemma in_subtree_self [simp]: "in_subtree p p"
  by (simp add: in_subtree_def)

lemma distinct_tomb_upsert [simp]:
  "distinct (map tb_path ts) \<Longrightarrow> distinct (map tb_path (tomb_upsert p rv now ts))"
  by (simp add: tomb_upsert_def)

lemma set_tomb_upsert:
  "set (tomb_upsert p rv now ts) = insert \<lparr>tb_path = p, tb_rev = rv, tb_ts = now\<rparr> {t \<in> set ts. tb_path t \<noteq> p}"
proof -
  have "t\<lparr>tb_rev := rv, tb_ts := now\<rparr> = \<lparr>tb_path = tb_path t, tb_rev = rv, tb_ts = now\<rparr>" for t :: tombstone_row
    by simp
  then show ?thesis
    by (auto simp: tomb_upsert_def tbl_upsert_def image_iff split: if_splits)
qed

lemma distinct_tomb_all [simp]:
  "distinct (map tb_path ts) \<Longrightarrow> distinct (map tb_path (tomb_all rv now ps ts))"
  unfolding tomb_all_def by (induction ps arbitrary: ts) auto

lemma set_tomb_all:
  "set (tomb_all rv now ps ts) =
     (\<lambda>p. \<lparr>tb_path = p, tb_rev = rv, tb_ts = now\<rparr>) ` set ps \<union> {t \<in> set ts. tb_path t \<notin> set ps}"
  unfolding tomb_all_def by (induction ps arbitrary: ts) (auto simp: set_tomb_upsert)

end
