(* ===== verification/Go_Strconv.thy ===== *)
theory Go_Strconv
  imports Go_Paths
begin

text \<open>
  The part of Go's \<^verbatim>\<open>strconv\<close> and \<^verbatim>\<open>encoding/hex\<close> the server's tokens are written with:
  \<^verbatim>\<open>FormatInt(v, 10)\<close>, \<^verbatim>\<open>ParseInt(s, 10, 64)\<close>, \<^verbatim>\<open>strings.Cut\<close> and hexadecimal digits, with
  their round trips.
\<close>

section \<open>Decimal numbers\<close>

definition digit_char :: "nat \<Rightarrow> char" where
  "digit_char d = char_of (48 + d)"

definition char_digit :: "char \<Rightarrow> nat option" where
  "char_digit c = (let v = (of_char c :: nat) in if 48 \<le> v \<and> v \<le> 57 then Some (v - 48) else None)"

fun format_nat :: "nat \<Rightarrow> string" where
  "format_nat n = (if n < 10 then [digit_char n] else format_nat (n div 10) @ [digit_char (n mod 10)])"

declare format_nat.simps [simp del]

definition FormatInt :: "int \<Rightarrow> string" where
  "FormatInt i = (if i < 0 then CHR ''-'' # format_nat (nat (- i)) else format_nat (nat i))"

definition digits_value :: "string \<Rightarrow> nat option" where
  "digits_value s =
     (if s = [] then None
      else fold (\<lambda>c acc. case acc of None \<Rightarrow> None
                         | Some v \<Rightarrow> map_option (\<lambda>d. v * 10 + d) (char_digit c)) s (Some 0))"

definition int64_range :: "int \<Rightarrow> bool" where
  "int64_range i \<longleftrightarrow> - (2 ^ 63) \<le> i \<and> i < 2 ^ 63"

text \<open>None is the error of a malformed or out-of-range number.\<close>

definition ParseInt :: "string \<Rightarrow> int option" where
  "ParseInt s =
     (let (neg, body) = (case s of c # cs \<Rightarrow> if c = CHR ''-'' then (True, cs)
                                            else if c = CHR ''+'' then (False, cs) else (False, s)
                         | [] \<Rightarrow> (False, []))
      in case digits_value body of
           None \<Rightarrow> None
         | Some v \<Rightarrow> let i = (if neg then - int v else int v)
                    in if int64_range i then Some i else None)"

text \<open>\<^verbatim>\<open>strings.Cut(s, sep)\<close> for a one-byte separator.\<close>

fun str_cut :: "char \<Rightarrow> string \<Rightarrow> (string \<times> string) option" where
  "str_cut c [] = None"
| "str_cut c (x # xs) =
     (if x = c then Some ([], xs) else map_option (\<lambda>(a, b). (x # a, b)) (str_cut c xs))"

subsection \<open>Round trips\<close>

lemma of_char_digit: "d < 10 \<Longrightarrow> (of_char (digit_char d) :: nat) = 48 + d"
  by (simp add: digit_char_def)

lemma char_digit_digit_char [simp]: "d < 10 \<Longrightarrow> char_digit (digit_char d) = Some d"
  by (simp add: char_digit_def of_char_digit)

lemma format_nat_digits: "c \<in> set (format_nat n) \<Longrightarrow> \<exists>d<10. c = digit_char d"
proof (induction n rule: format_nat.induct)
  case (1 n)
  show ?case
  proof (cases "n < 10")
    case True
    with 1(2) show ?thesis by (auto simp: format_nat.simps [of n])
  next
    case False
    with 1(2) consider "c \<in> set (format_nat (n div 10))" | "c = digit_char (n mod 10)"
      by (auto simp: format_nat.simps [of n])
    then show ?thesis
    proof cases
      case 2
      then show ?thesis by (intro exI [of _ "n mod 10"]) simp
    qed (use 1(1) [OF False] in blast)
  qed
qed

lemma format_nat_not_Nil [simp]: "format_nat n \<noteq> []"
  by (subst format_nat.simps) simp

lemma digits_fold_format:
  "fold (\<lambda>c acc. case acc of None \<Rightarrow> None
           | Some v \<Rightarrow> map_option (\<lambda>d. v * 10 + d) (char_digit c)) (format_nat n) (Some 0) = Some n"
proof (induction n rule: format_nat.induct)
  case (1 n)
  show ?case
  proof (cases "n < 10")
    case True
    then show ?thesis by (simp add: format_nat.simps [of n])
  next
    case False
    with 1 show ?thesis by (simp add: format_nat.simps [of n])
  qed
qed

lemma digits_value_format [simp]: "digits_value (format_nat n) = Some n"
  by (simp add: digits_value_def digits_fold_format)

lemma digit_char_neq: "d < 10 \<Longrightarrow> (of_char c :: nat) < 48 \<Longrightarrow> digit_char d \<noteq> c"
  using of_char_digit [of d] by auto

lemma format_nat_above: "(of_char c :: nat) < 48 \<Longrightarrow> c \<notin> set (format_nat n)"
  using format_nat_digits digit_char_neq by blast

lemma format_nat_no_sign:
  "CHR ''-'' \<notin> set (format_nat n)" "CHR ''+'' \<notin> set (format_nat n)" "CHR ''.'' \<notin> set (format_nat n)"
  by (rule format_nat_above, simp)+

lemma ParseInt_format_nat: "int n < 2 ^ 63 \<Longrightarrow> ParseInt (format_nat n) = Some (int n)"
proof -
  assume n: "int n < 2 ^ 63"
  obtain c cs where f: "format_nat n = c # cs" by (cases "format_nat n") auto
  then have "c \<noteq> CHR ''-''" "c \<noteq> CHR ''+''"
    using format_nat_no_sign(1,2) [of n] by auto
  moreover have "digits_value (c # cs) = Some n"
    by (metis f digits_value_format)
  ultimately show ?thesis using n by (simp add: ParseInt_def f int64_range_def)
qed

lemma ParseInt_FormatInt [simp]: "int64_range i \<Longrightarrow> ParseInt (FormatInt i) = Some i"
proof (cases "i < 0")
  case True
  assume "int64_range i"
  with True show ?thesis by (simp add: FormatInt_def ParseInt_def)
next
  case False
  assume "int64_range i"
  with False show ?thesis
    using ParseInt_format_nat [of "nat i"] by (simp add: FormatInt_def int64_range_def)
qed

lemma FormatInt_no_dot: "CHR ''.'' \<notin> set (FormatInt i)"
  using format_nat_no_sign(3) by (auto simp: FormatInt_def)

lemma str_cut_append: "c \<notin> set a \<Longrightarrow> str_cut c (a @ c # b) = Some (a, b)"
  by (induction a) auto

section \<open>Hexadecimal\<close>

definition hex_digit :: "nat \<Rightarrow> char" where
  "hex_digit d = (if d < 10 then char_of (48 + d) else char_of (87 + d))"

definition hex_value :: "char \<Rightarrow> nat option" where
  "hex_value c = (let v = (of_char c :: nat) in
     if 48 \<le> v \<and> v \<le> 57 then Some (v - 48)
     else if 97 \<le> v \<and> v \<le> 102 then Some (v - 87)
     else if 65 \<le> v \<and> v \<le> 70 then Some (v - 55) else None)"

text \<open>\<^verbatim>\<open>hex.EncodeToString\<close> and \<^verbatim>\<open>hex.DecodeString\<close>, which also accepts capitals.\<close>

definition hex_encode :: "byte list \<Rightarrow> string" where
  "hex_encode bs = concat (map (\<lambda>b. [hex_digit (unat b div 16), hex_digit (unat b mod 16)]) bs)"

fun hex_decode :: "string \<Rightarrow> byte list option" where
  "hex_decode [] = Some []"
| "hex_decode [c] = None"
| "hex_decode (c # d # cs) =
     (case (hex_value c, hex_value d) of
        (Some u, Some v) \<Rightarrow> map_option ((#) (of_nat (u * 16 + v))) (hex_decode cs)
      | _ \<Rightarrow> None)"

lemma hex_value_digit: "d < 16 \<Longrightarrow> hex_value (hex_digit d) = Some d"
  by (auto simp: hex_value_def hex_digit_def Let_def)

lemma hex_decode_encode [simp]: "hex_decode (hex_encode bs) = Some bs"
proof (induction bs)
  case (Cons b bs)
  have "unat b < 256" using unsigned_less [of b] by simp
  then have "hex_value (hex_digit (unat b div 16)) = Some (unat b div 16)"
    "hex_value (hex_digit (unat b mod 16)) = Some (unat b mod 16)"
    by (auto intro!: hex_value_digit)
  moreover have "(of_nat (unat b div 16 * 16 + unat b mod 16) :: byte) = b"
    by (simp only: div_mult_mod_eq) simp
  ultimately show ?case using Cons by (simp add: hex_encode_def)
qed (simp add: hex_encode_def)

lemma hex_encode_inj: "hex_encode a = hex_encode b \<longleftrightarrow> a = b"
  by (metis hex_decode_encode option.inject)


lemma length_hex_encode [simp]: "length (hex_encode bs) = 2 * length bs"
  by (induction bs) (simp_all add: hex_encode_def)

lemma take2_hex_encode: "bs \<noteq> [] \<Longrightarrow> take 2 (hex_encode bs) = hex_encode [hd bs]"
  by (cases bs) (simp_all add: hex_encode_def numeral_2_eq_2)

lemma hex_digit_plain: "d < 16 \<Longrightarrow> hex_digit d \<noteq> CHR ''/'' \<and> hex_digit d \<noteq> CHR ''.''"
proof -
  assume "d < 16"
  then have "hex_value (hex_digit d) = Some d" by (rule hex_value_digit)
  moreover have "hex_value (CHR ''/'') = None" "hex_value (CHR ''.'') = None" by (simp_all add: hex_value_def)
  ultimately show ?thesis by auto
qed

lemma hex_encode_plain: "c \<in> set (hex_encode bs) \<Longrightarrow> c \<noteq> CHR ''/'' \<and> c \<noteq> CHR ''.''"
proof (induction bs)
  case (Cons b bs)
  have "unat b < 256" using unsigned_less [of b] by simp
  then have "unat b div 16 < 16" "unat b mod 16 < 16" by auto
  with Cons hex_digit_plain show ?case by (auto simp: hex_encode_def)
qed (simp add: hex_encode_def)

end
