(* ===== verification/Keyset.thy ===== *)
theory Keyset
  imports Orlop_Prelude
begin

text \<open>
  Keyset pagination, the scheme of \<^verbatim>\<open>SessionJournal.Query\<close> and \<^verbatim>\<open>queryChanges\<close>: the rows are
  ordered by a unique key, a page is the first \<open>n\<close> rows strictly after the cursor, and the key of
  its last row is the cursor of the next page. The locale states what the scheme needs: the
  predicate \<^verbatim>\<open>WHERE\<close> compares keys by the same order \<^verbatim>\<open>ORDER BY\<close> sorts by. Both queries interpret
  it. \<open>walk\<close> is a reader that asks for page after page, and the lemmas show it sees every row
  exactly once, in order, when no two rows tie.
\<close>

definition page :: "('r \<Rightarrow> 'k \<Rightarrow> bool) \<Rightarrow> nat \<Rightarrow> 'k option \<Rightarrow> 'r list \<Rightarrow> 'r list" where
  "page after n cur xs =
     take n (filter (\<lambda>r. case cur of None \<Rightarrow> True | Some k \<Rightarrow> after r k) xs)"

fun walk :: "('r \<Rightarrow> 'k \<Rightarrow> bool) \<Rightarrow> ('r \<Rightarrow> 'k) \<Rightarrow> nat \<Rightarrow> nat \<Rightarrow> 'k option \<Rightarrow> 'r list \<Rightarrow> 'r list" where
  "walk after key n 0 cur xs = []"
| "walk after key n (Suc fuel) cur xs =
     (let p = page after n cur xs
      in if p = [] then [] else p @ walk after key n fuel (Some (key (last p))) xs)"

locale keyset =
  fixes after :: "'r \<Rightarrow> 'k \<Rightarrow> bool" and key :: "'r \<Rightarrow> 'k" and ord :: "'r \<Rightarrow> 'o::linorder"
  assumes after_iff: "after r (key s) \<longleftrightarrow> ord s < ord r"
begin

lemma filter_after_nth:
  assumes "sorted_wrt (<) (map ord rows)" "i < length rows"
  shows "filter (\<lambda>r. after r (key (rows ! i))) rows = drop (Suc i) rows"
proof -
  let ?P = "\<lambda>r. after r (key (rows ! i))"
  have less: "ord (rows ! a) < ord (rows ! b)" if "a < b" "b < length rows" for a b
    using assms(1) that by (simp add: sorted_wrt_iff_nth_less)
  have "rows = take i rows @ rows ! i # drop (Suc i) rows"
    using assms(2) by (rule id_take_nth_drop)
  moreover have "filter ?P (take i rows) = []"
  proof -
    have "\<not> ?P (rows ! j)" if "j < i" for j
      using less [OF that assms(2)] by (simp add: after_iff)
    then show ?thesis by (auto simp: filter_empty_conv in_set_conv_nth)
  qed
  moreover have "filter ?P (drop (Suc i) rows) = drop (Suc i) rows"
  proof -
    have "?P (rows ! j)" if "i < j" "j < length rows" for j
      using less [OF that] by (simp add: after_iff)
    then show ?thesis by (auto simp: filter_id_conv in_set_conv_nth)
  qed
  moreover have "\<not> ?P (rows ! i)" by (simp add: after_iff)
  ultimately show ?thesis by (metis append_Nil filter.simps(2) filter_append)
qed

lemma page_next:
  assumes "sorted_wrt (<) (map ord rows)" "0 < n" "k < length rows" "take n (drop k rows) \<noteq> []"
  shows "page after m (Some (key (last (take n (drop k rows))))) rows = take m (drop (k + n) rows)"
proof (cases "k + n \<le> length rows")
  case True
  then have "length (take n (drop k rows)) = n" by simp
  then have "last (take n (drop k rows)) = rows ! (k + n - 1)"
    using assms last_conv_nth [OF assms(4)] by simp
  with True assms show ?thesis by (simp add: page_def filter_after_nth [OF assms(1)])
next
  case False
  then have "last (take n (drop k rows)) = rows ! (length rows - 1)"
    using assms by (simp add: last_conv_nth min_def)
  with False assms show ?thesis by (simp add: page_def filter_after_nth [OF assms(1)])
qed

lemma walk_from:
  assumes "sorted_wrt (<) (map ord rows)" "0 < n" "length rows - k < fuel"
    and "page after n cur rows = take n (drop k rows)"
  shows "walk after key n fuel cur rows = drop k rows"
  using assms(3,4)
proof (induction fuel arbitrary: k cur)
  case (Suc fuel)
  show ?case
  proof (cases "k < length rows")
    case False
    with Suc.prems show ?thesis by simp
  next
    case True
    let ?p = "take n (drop k rows)"
    have p: "?p \<noteq> []" using True assms(2) by simp
    have "walk after key n fuel (Some (key (last ?p))) rows = drop (k + n) rows"
      using True assms(2) Suc.prems(1) by (intro Suc.IH page_next [OF assms(1,2) True p]) linarith
    with Suc.prems p show ?thesis
      by (simp add: Let_def) (metis add.commute append_take_drop_id drop_drop)
  qed
qed simp

lemma walk_all:
  "sorted_wrt (<) (map ord rows) \<Longrightarrow> 0 < n \<Longrightarrow> length rows < fuel \<Longrightarrow> walk after key n fuel None rows = rows"
  using walk_from [of rows n 0 fuel None] by (simp add: page_def)

end

lemma strictly_sorted_sort_key:
  assumes "inj_on f (set xs)" "distinct xs"
  shows "sorted_wrt (<) (map f (sort_key f xs))"
proof -
  have "distinct (map f (sort_key f xs))"
    using assms by (simp add: distinct_map)
  then show ?thesis
    using sorted_sort_key [of f xs] by (simp add: strict_sorted_iff)
qed

end
