(* ===== verification/Journal.thy ===== *)
theory Journal
  imports Tenant_Db Go_Strconv Keyset "HOL-Library.Product_Lexorder"
begin

text \<open>
  The session journal of journal.go. Every journalled mutation appends, inside its own
  transaction, a row that says how to undo it (\<open>appendJournal\<close>, \<open>journalBeforeWrite\<close>); the
  dashboard reads rows back page by page (\<open>Query\<close>), a stream catches up by sequence number
  (\<open>QueryAfterSeq\<close>), and conflict hints name the last writer of a path (\<open>LookupLastWriter\<close>).

  The prior manifest is stored as a msgpack blob. msgpack is a library outside the repository: its
  encoder and decoder are the fields \<open>e_marshal\<close> and \<open>e_unmarshal\<close> of the environment, and
  \<open>msgpack_ok\<close> is the round trip the library documents.

  Shown here: the sequence numbers of a session are unique and grow, the cursor token decodes to
  what it encodes, and reading page after page returns every row once.
\<close>

section \<open>Manifests and the environment of a call\<close>

record Manifest =
  m_path :: string
  m_inode :: nat
  m_nlink :: nat
  m_size :: "64 word"
  m_mode :: "32 word"
  m_mtime :: int
  m_version :: nat
  m_chunks :: "ChunkRef list"
  m_uid :: "32 word"
  m_gid :: "32 word"
  m_atime :: int

record journalChunkRef =
  jc_hash :: "byte list"
  jc_offset :: "64 word"
  jc_len :: "32 word"

record journalManifestBlob =
  jb_size :: "64 word"
  jb_mode :: "32 word"
  jb_mtime :: int
  jb_version :: nat
  jb_chunks :: "journalChunkRef list"

text \<open>
  What a call finds outside the database: the clock (one reading for the journal row, one for
  tombstones), whether the commit succeeds, the msgpack library, and the chunk store's
  \<^verbatim>\<open>HasMany\<close>; None where the store has no chunk store, None as its result where the check fails.
\<close>

record env =
  e_now :: int
  e_now_tomb :: int
  e_commit :: bool
  e_marshal :: "journalManifestBlob \<Rightarrow> byte list option"
  e_unmarshal :: "byte list \<Rightarrow> journalManifestBlob option"
  e_has_many :: "(hash list \<Rightarrow> bool list option) option"

definition msgpack_ok :: "env \<Rightarrow> bool" where
  "msgpack_ok E \<longleftrightarrow> (\<forall>b bs. e_marshal E b = Some bs \<longrightarrow> e_unmarshal E bs = Some b)"

definition encodeJournalManifest :: "env \<Rightarrow> Manifest \<Rightarrow> byte list option" where
  "encodeJournalManifest E mf =
     e_marshal E \<lparr> jb_size = m_size mf, jb_mode = m_mode mf, jb_mtime = m_mtime mf, jb_version = m_version mf,
       jb_chunks = map (\<lambda>c. \<lparr> jc_hash = be_put HashLen (cr_hash c), jc_offset = cr_offset c, jc_len = cr_len c \<rparr>)
                     (m_chunks mf) \<rparr>"

definition decode_ref :: "journalChunkRef \<Rightarrow> ChunkRef option" where
  "decode_ref c =
     (if length (jc_hash c) \<noteq> HashLen then None
      else Some \<lparr> cr_hash = be_get (jc_hash c), cr_offset = jc_offset c, cr_len = jc_len c \<rparr>)"

fun decode_refs :: "journalChunkRef list \<Rightarrow> ChunkRef list option" where
  "decode_refs [] = Some []"
| "decode_refs (c # cs) =
     (case decode_ref c of None \<Rightarrow> None | Some r \<Rightarrow> map_option ((#) r) (decode_refs cs))"

definition decodeJournalManifest :: "env \<Rightarrow> string \<Rightarrow> byte list \<Rightarrow> Manifest option" where
  "decodeJournalManifest E p blob =
     (case e_unmarshal E blob of
        None \<Rightarrow> None
      | Some raw \<Rightarrow>
          (case decode_refs (jb_chunks raw) of
             None \<Rightarrow> None
           | Some chunks \<Rightarrow> Some \<lparr> m_path = p, m_inode = 0, m_nlink = 0, m_size = jb_size raw, m_mode = jb_mode raw,
               m_mtime = jb_mtime raw, m_version = jb_version raw, m_chunks = chunks,
               m_uid = 0, m_gid = 0, m_atime = 0 \<rparr>))"

section \<open>Appending\<close>

record SessionJournalEntry =
  je_session :: string
  je_alloc :: string
  je_agent :: string
  je_seq :: nat
  je_path :: string
  je_op :: SessionOp
  je_before_version :: "nat option"
  je_after_version :: "nat option"
  je_before_manifest :: "byte list option"
  je_rename_from :: string
  je_ts :: int

definition max_nat :: "nat list \<Rightarrow> nat" where
  "max_nat xs = fold max xs 0"

text \<open>\<^verbatim>\<open>select coalesce(max(seq), 0) + 1 from session_journal where session_id = ?\<close>.\<close>

definition next_seq :: "string \<Rightarrow> journal_row list \<Rightarrow> nat" where
  "next_seq session rows = max_nat (map j_seq (filter (\<lambda>j. j_session j = session) rows)) + 1"

definition next_rowid :: "journal_row list \<Rightarrow> nat" where
  "next_rowid rows = max_nat (map j_rowid rows) + 1"

definition appendJournal ::
  "env \<Rightarrow> string \<Rightarrow> string \<Rightarrow> string \<Rightarrow> SessionOp \<Rightarrow> string \<Rightarrow> nat option \<Rightarrow> nat option \<Rightarrow>
   byte list option \<Rightarrow> string \<Rightarrow> unit tx" where
  "appendJournal E session alloc agent op p before_v after_v blob rename_from =
     tx_seq (tx_guard (session \<noteq> '''') ErrEmptySession)
    (tx_seq (tx_guard (alloc \<noteq> '''') ErrEmptyAllocation)
    (tx_exec (\<lambda>db. db\<lparr>db_journal := db_journal db @
       [\<lparr> j_rowid = next_rowid (db_journal db), j_session = session, j_seq = next_seq session (db_journal db),
          j_path = p, j_op = op, j_before_version = before_v, j_before_manifest = blob,
          j_rename_from = (if rename_from = '''' then None else Some rename_from),
          j_ts = e_now E, j_after_version = after_v, j_agent = agent, j_alloc = alloc \<rparr>]\<rparr>)))"

text \<open>\<^verbatim>\<open>select seq, ts_unix_ms ... where session_id = ? order by seq desc limit 1\<close>.\<close>

definition latest_in_session :: "string \<Rightarrow> journal_row list \<Rightarrow> journal_row option" where
  "latest_in_session session rows =
     (case sort_key (\<lambda>j. - int (j_seq j)) (filter (\<lambda>j. j_session j = session) rows) of
        [] \<Rightarrow> None | j # _ \<Rightarrow> Some j)"

definition journalBeforeWrite ::
  "env \<Rightarrow> string \<Rightarrow> string \<Rightarrow> string \<Rightarrow> SessionOp \<Rightarrow> string \<Rightarrow> Manifest option \<Rightarrow> nat option \<Rightarrow>
   string \<Rightarrow> SessionJournalEntry tx" where
  "journalBeforeWrite E session alloc agent op p prior after_v rename_from =
     tx_bind (case prior of
                None \<Rightarrow> tx_return (None, None)
              | Some mf \<Rightarrow> tx_bind (tx_lift ErrEncodeManifest (encodeJournalManifest E mf))
                             (\<lambda>blob. tx_return (Some (m_version mf), Some blob)))
       (\<lambda>(before_v, blob).
     tx_seq (appendJournal E session alloc agent op p before_v after_v blob rename_from)
    (tx_bind (tx_read (\<lambda>db. latest_in_session session (db_journal db)))
       (\<lambda>back. tx_bind (tx_lift ErrBadArgument back)
       (\<lambda>j. tx_return
          \<lparr> je_session = session, je_alloc = alloc, je_agent = agent, je_seq = j_seq j, je_path = p, je_op = op,
            je_before_version = before_v, je_after_version = after_v, je_before_manifest = blob,
            je_rename_from = rename_from, je_ts = j_ts j \<rparr>))))"

section \<open>Reading\<close>

record LastWriterRow =
  lw_agent :: string
  lw_session :: string
  lw_at :: int

definition LookupLastWriter :: "tenant_db \<Rightarrow> string \<Rightarrow> LastWriterRow option" where
  "LookupLastWriter db p =
     (case sort_key (\<lambda>j. (- j_ts j, - int (j_seq j), - int (j_rowid j)))
             (filter (\<lambda>j. j_path j = p) (db_journal db)) of
        [] \<Rightarrow> None
      | j # _ \<Rightarrow> Some \<lparr> lw_agent = j_agent j, lw_session = j_session j, lw_at = j_ts j \<rparr>)"

definition DeleteRow :: "string \<Rightarrow> nat \<Rightarrow> tenant_db \<Rightarrow> tenant_db" where
  "DeleteRow session sq db =
     db\<lparr>db_journal := tbl_delete (\<lambda>j. j_session j = session \<and> j_seq j = sq) (db_journal db)\<rparr>"

text \<open>\<^verbatim>\<open>select distinct\<close> leaves the order open; the model lists allocations as first seen.\<close>

definition ListAllocations :: "tenant_db \<Rightarrow> string list" where
  "ListAllocations db = remdups (filter (\<lambda>a. a \<noteq> '''') (map j_alloc (db_journal db)))"

definition SnapshotRowCounts :: "tenant_db \<Rightarrow> string \<Rightarrow> nat option" where
  "SnapshotRowCounts db a =
     (let n = tbl_count (\<lambda>j. j_alloc j = a) (db_journal db) in if n = 0 then None else Some n)"

record JournalQueryRow =
  q_session :: string
  q_alloc :: string
  q_seq :: nat
  q_ts :: int
  q_path :: string
  q_op :: SessionOp
  q_agent :: string
  q_before_version :: "nat option"
  q_after_version :: "nat option"
  q_rename_from :: string
  q_size_before :: "64 word option"
  q_size_after :: "64 word option"

definition scanJournalRow :: "env \<Rightarrow> tenant_db \<Rightarrow> journal_row \<Rightarrow> JournalQueryRow" where
  "scanJournalRow E db j =
     \<lparr> q_session = j_session j, q_alloc = j_alloc j, q_seq = j_seq j, q_ts = j_ts j, q_path = j_path j,
       q_op = j_op j, q_agent = j_agent j, q_before_version = j_before_version j,
       q_after_version = j_after_version j,
       q_rename_from = (case j_rename_from j of None \<Rightarrow> '''' | Some f \<Rightarrow> f),
       q_size_before =
         (case j_before_manifest j of
            None \<Rightarrow> None
          | Some blob \<Rightarrow> if blob = [] then None
                        else map_option m_size (decodeJournalManifest E (j_path j) blob)),
       q_size_after =
         (if j_op j = SessionOpDelete then None
          else map_option mf_size (tbl_get mf_path (db_manifests db) (j_path j))) \<rparr>"

definition QueryAfterSeq :: "env \<Rightarrow> tenant_db \<Rightarrow> string \<Rightarrow> nat \<Rightarrow> int \<Rightarrow> store_error + JournalQueryRow list" where
  "QueryAfterSeq E db alloc afterSeq lim =
     (if alloc = '''' then Inl ErrEmptyAllocation
      else let rows = sort_key j_seq (filter (\<lambda>j. j_alloc j = alloc \<and> afterSeq < j_seq j) (db_journal db))
           in Inr (map (scanJournalRow E db) (if lim \<le> 0 then rows else take (nat lim) rows)))"

subsection \<open>Cursors\<close>

definition encodeJournalCursor :: "int \<Rightarrow> int \<Rightarrow> string" where
  "encodeJournalCursor ts rowid = FormatInt ts @ ''.'' @ FormatInt rowid"

definition decodeJournalCursor :: "string \<Rightarrow> int \<times> int" where
  "decodeJournalCursor s =
     (case str_cut (CHR ''.'') s of
        None \<Rightarrow> (0, 0)
      | Some (tsStr, rowidStr) \<Rightarrow>
          (case (ParseInt tsStr, ParseInt rowidStr) of
             (Some ts, Some rid) \<Rightarrow> (ts, rid)
           | _ \<Rightarrow> (0, 0)))"

subsection \<open>Pages\<close>

definition journal_key :: "journal_row \<Rightarrow> int \<times> int" where
  "journal_key j = (j_ts j, int (j_rowid j))"

definition journal_after :: "journal_row \<Rightarrow> int \<times> int \<Rightarrow> bool" where
  "journal_after j cur \<longleftrightarrow> j_ts j < fst cur \<or> (j_ts j = fst cur \<and> int (j_rowid j) < snd cur)"

definition journal_ord :: "journal_row \<Rightarrow> int \<times> int" where
  "journal_ord j = (- j_ts j, - int (j_rowid j))"

text \<open>The rows of one allocation, or of all the user's allocations, newest first.\<close>

definition query_scope :: "string \<Rightarrow> string list \<Rightarrow> journal_row \<Rightarrow> bool" where
  "query_scope alloc userAllocations j =
     (if alloc \<noteq> '''' then j_alloc j = alloc else j_alloc j \<in> set userAllocations)"

definition query_rows :: "string \<Rightarrow> string list \<Rightarrow> tenant_db \<Rightarrow> journal_row list" where
  "query_rows alloc userAllocations db =
     sort_key journal_ord (filter (query_scope alloc userAllocations) (db_journal db))"

definition clamp_limit :: "nat \<Rightarrow> nat" where
  "clamp_limit n = (let m = (if n = 0 then 50 else n) in if 200 < m then 200 else m)"

definition Query ::
  "env \<Rightarrow> tenant_db \<Rightarrow> string \<Rightarrow> nat \<Rightarrow> string \<Rightarrow> string list \<Rightarrow> JournalQueryRow list \<times> string" where
  "Query E db alloc lim cursor userAllocations =
     (let n = clamp_limit lim;
          (curTs, curRowid) = decodeJournalCursor cursor
      in if alloc = '''' \<and> userAllocations = [] then ([], '''')
         else let sel = take n (filter (\<lambda>j. curTs = 0 \<or> journal_after j (curTs, curRowid))
                                  (query_rows alloc userAllocations db));
                  out = map (scanJournalRow E db) sel
              in if length out < n then (out, '''')
                 else (out, encodeJournalCursor (j_ts (last sel)) (int (j_rowid (last sel)))))"

text \<open>A reader that follows \<^verbatim>\<open>nextCursor\<close> until it is empty.\<close>

fun query_walk :: "env \<Rightarrow> tenant_db \<Rightarrow> string \<Rightarrow> nat \<Rightarrow> nat \<Rightarrow> string \<Rightarrow> string list \<Rightarrow> JournalQueryRow list" where
  "query_walk E db alloc lim 0 cursor us = []"
| "query_walk E db alloc lim (Suc fuel) cursor us =
     (let (rows, next) = Query E db alloc lim cursor us
      in rows @ (if next = '''' then [] else query_walk E db alloc lim fuel next us))"

section \<open>Appending: sequence numbers\<close>

lemma max_nat_ge: "x \<in> set xs \<Longrightarrow> x \<le> max_nat xs"
proof -
  have "y \<le> fold max xs y" for y :: nat and xs
    by (induction xs arbitrary: y) (auto intro: order_trans [OF max.cobounded2])
  then have "x \<in> set xs \<Longrightarrow> x \<le> fold max xs y" for y :: nat
    by (induction xs arbitrary: y) (auto intro: order_trans [OF max.cobounded1])
  then show "x \<in> set xs \<Longrightarrow> x \<le> max_nat xs" by (simp add: max_nat_def)
qed

lemma max_nat_le: "(\<And>x. x \<in> set xs \<Longrightarrow> x \<le> b) \<Longrightarrow> max_nat xs \<le> b"
proof -
  have "y \<le> b \<Longrightarrow> (\<And>x. x \<in> set xs \<Longrightarrow> x \<le> b) \<Longrightarrow> fold max xs y \<le> b" for y :: nat
    by (induction xs arbitrary: y) auto
  then show "(\<And>x. x \<in> set xs \<Longrightarrow> x \<le> b) \<Longrightarrow> max_nat xs \<le> b" by (simp add: max_nat_def)
qed

lemma seq_less_next: "j \<in> set rows \<Longrightarrow> j_session j = s \<Longrightarrow> j_seq j < next_seq s rows"
  using max_nat_ge [of "j_seq j" "map j_seq (filter (\<lambda>j. j_session j = s) rows)"]
  by (simp add: next_seq_def)

lemma rowid_less_next: "j \<in> set rows \<Longrightarrow> j_rowid j < next_rowid rows"
  using max_nat_ge [of "j_rowid j" "map j_rowid rows"] by (simp add: next_rowid_def)

lemma latest_in_session_append:
  assumes "j_session r = s" "j_seq r = next_seq s rows"
  shows "latest_in_session s (rows @ [r]) = Some r"
proof -
  let ?f = "\<lambda>j. - int (j_seq j)" and ?xs = "filter (\<lambda>j. j_session j = s) rows"
  have less: "?f r < ?f j" if "j \<in> set ?xs" for j
    using that seq_less_next [of j rows s] assms(2) by auto
  have "sort_key ?f (?xs @ [r]) = r # sort_key ?f ?xs" using less by (intro sort_key_new_min) blast
  with less assms(1) show ?thesis by (simp add: latest_in_session_def)
qed

definition journal_row_of ::
  "env \<Rightarrow> string \<Rightarrow> string \<Rightarrow> string \<Rightarrow> SessionOp \<Rightarrow> string \<Rightarrow> nat option \<Rightarrow> nat option \<Rightarrow>
   byte list option \<Rightarrow> string \<Rightarrow> journal_row list \<Rightarrow> journal_row" where
  "journal_row_of E session alloc agent op p before_v after_v blob rename_from rows =
     \<lparr> j_rowid = next_rowid rows, j_session = session, j_seq = next_seq session rows,
       j_path = p, j_op = op, j_before_version = before_v, j_before_manifest = blob,
       j_rename_from = (if rename_from = '''' then None else Some rename_from),
       j_ts = e_now E, j_after_version = after_v, j_agent = agent, j_alloc = alloc \<rparr>"

definition entry_of :: "string \<Rightarrow> journal_row \<Rightarrow> SessionJournalEntry" where
  "entry_of rename_from j =
     \<lparr> je_session = j_session j, je_alloc = j_alloc j, je_agent = j_agent j, je_seq = j_seq j,
       je_path = j_path j, je_op = j_op j, je_before_version = j_before_version j,
       je_after_version = j_after_version j, je_before_manifest = j_before_manifest j,
       je_rename_from = rename_from, je_ts = j_ts j \<rparr>"

text \<open>What a successful \<^verbatim>\<open>journalBeforeWrite\<close> did.\<close>

lemma journalBeforeWrite_Inr:
  assumes "journalBeforeWrite E s a g op p prior after_v from db = Inr (e, db')"
  obtains before_v blob j where
    "s \<noteq> ''''" "a \<noteq> ''''"
    "j = journal_row_of E s a g op p before_v after_v blob from (db_journal db)"
    "db' = db\<lparr>db_journal := db_journal db @ [j]\<rparr>"
    "e = entry_of from j"
    "prior = None \<Longrightarrow> before_v = None \<and> blob = None"
    "\<And>mf. prior = Some mf \<Longrightarrow> before_v = Some (m_version mf) \<and> blob = encodeJournalManifest E mf \<and> blob \<noteq> None"
proof -
  obtain before_v blob where
    bv: "prior = None \<longrightarrow> before_v = None \<and> blob = None"
      "\<forall>mf. prior = Some mf \<longrightarrow> before_v = Some (m_version mf) \<and> blob = encodeJournalManifest E mf \<and> blob \<noteq> None"
    and run: "tx_seq (appendJournal E s a g op p before_v after_v blob from)
      (tx_bind (tx_read (\<lambda>db. latest_in_session s (db_journal db)))
        (\<lambda>back. tx_bind (tx_lift ErrBadArgument back)
        (\<lambda>j. tx_return
          \<lparr> je_session = s, je_alloc = a, je_agent = g, je_seq = j_seq j, je_path = p, je_op = op,
            je_before_version = before_v, je_after_version = after_v, je_before_manifest = blob,
            je_rename_from = from, je_ts = j_ts j \<rparr>))) db = Inr (e, db')"
    using assms by (cases prior) (auto simp: journalBeforeWrite_def)
  let ?j = "journal_row_of E s a g op p before_v after_v blob from (db_journal db)"
  have latest: "latest_in_session s (db_journal db @ [?j]) = Some ?j"
    by (rule latest_in_session_append) (simp_all add: journal_row_of_def)
  from run have ne: "s \<noteq> ''''" "a \<noteq> ''''" by (auto simp: appendJournal_def)
  have app: "appendJournal E s a g op p before_v after_v blob from db
      = Inr ((), db\<lparr>db_journal := db_journal db @ [?j]\<rparr>)"
    using ne by (simp add: appendJournal_def journal_row_of_def)
  from run have "db' = db\<lparr>db_journal := db_journal db @ [?j]\<rparr>" "e = entry_of from ?j"
    using latest unfolding tx_seq_Inr app by (auto simp: entry_of_def journal_row_of_def)
  with ne bv show thesis by (intro that) auto
qed

lemma decode_refs_encode [simp]:
  "decode_refs (map (\<lambda>c. \<lparr> jc_hash = be_put HashLen (cr_hash c), jc_offset = cr_offset c, jc_len = cr_len c \<rparr>) cs)
   = Some cs"
  by (induction cs) (simp_all add: decode_ref_def HashLen_def)

lemma decode_encode_journal:
  assumes "msgpack_ok E" "encodeJournalManifest E mf = Some blob"
  shows "decodeJournalManifest E p blob =
    Some (mf\<lparr>m_path := p, m_inode := 0, m_nlink := 0, m_uid := 0, m_gid := 0, m_atime := 0\<rparr>)"
  using assms by (cases mf) (simp add: msgpack_ok_def encodeJournalManifest_def decodeJournalManifest_def)

section \<open>Paging\<close>

interpretation jq: keyset journal_after journal_key journal_ord
  by unfold_locales (auto simp: journal_after_def journal_key_def journal_ord_def)

lemma decode_encode_cursor:
  "int64_range ts \<Longrightarrow> int64_range rid \<Longrightarrow> decodeJournalCursor (encodeJournalCursor ts rid) = (ts, rid)"
  by (simp add: encodeJournalCursor_def decodeJournalCursor_def str_cut_append FormatInt_no_dot)

lemma encodeJournalCursor_not_Nil [simp]: "encodeJournalCursor ts rid \<noteq> ''''"
  by (simp add: encodeJournalCursor_def)

definition journal_stamps_ok :: "tenant_db \<Rightarrow> bool" where
  "journal_stamps_ok db \<longleftrightarrow> distinct (map j_rowid (db_journal db)) \<and>
     (\<forall>j\<in>set (db_journal db). 0 < j_ts j \<and> j_ts j < 2 ^ 63 \<and> int (j_rowid j) < 2 ^ 63)"

lemma query_rows_sorted:
  assumes "journal_stamps_ok db"
  shows "sorted_wrt (<) (map journal_ord (query_rows a us db))"
  unfolding query_rows_def
proof (rule strictly_sorted_sort_key)
  have d: "distinct (map j_rowid (db_journal db))" using assms by (simp add: journal_stamps_ok_def)
  then have "inj_on j_rowid (set (db_journal db))" by (simp add: distinct_map)
  then show "inj_on journal_ord (set (filter (query_scope a us) (db_journal db)))"
    by (auto simp: inj_on_def journal_ord_def)
  show "distinct (filter (query_scope a us) (db_journal db))"
    using d by (simp add: distinct_map)
qed

definition cursor_at :: "tenant_db \<Rightarrow> string \<Rightarrow> string list \<Rightarrow> nat \<Rightarrow> string \<Rightarrow> bool" where
  "cursor_at db a us k cursor \<longleftrightarrow>
     filter (\<lambda>j. fst (decodeJournalCursor cursor) = 0 \<or> journal_after j (decodeJournalCursor cursor))
       (query_rows a us db) = drop k (query_rows a us db)"

lemma cursor_at_start: "cursor_at db a us 0 ''''"
  by (simp add: cursor_at_def decodeJournalCursor_def)

lemma cursor_at_next:
  assumes "journal_stamps_ok db" "i < length (query_rows a us db)" "j = query_rows a us db ! i"
  shows "cursor_at db a us (Suc i) (encodeJournalCursor (j_ts j) (int (j_rowid j)))"
proof -
  have "j \<in> set (query_rows a us db)" using assms by auto
  then have "j \<in> set (db_journal db)" by (simp add: query_rows_def)
  with assms(1) have "0 < j_ts j" "int64_range (j_ts j)" "int64_range (int (j_rowid j))"
    by (auto simp: journal_stamps_ok_def int64_range_def)
  then have "decodeJournalCursor (encodeJournalCursor (j_ts j) (int (j_rowid j))) = journal_key j"
    and "j_ts j \<noteq> 0"
    by (simp_all add: decode_encode_cursor journal_key_def)
  then show ?thesis
    using jq.filter_after_nth [OF query_rows_sorted [OF assms(1)] assms(2)] assms(3)
    by (simp add: cursor_at_def journal_key_def)
qed

lemma clamp_limit_pos [simp]: "0 < clamp_limit n"
  by (simp add: clamp_limit_def Let_def)

lemma Query_at:
  assumes "cursor_at db a us k cursor" "a \<noteq> '''' \<or> us \<noteq> []"
  shows "Query E db a lim cursor us =
    (let sel = take (clamp_limit lim) (drop k (query_rows a us db))
     in (map (scanJournalRow E db) sel,
         if length sel < clamp_limit lim then ''''
         else encodeJournalCursor (j_ts (last sel)) (int (j_rowid (last sel)))))"
  using assms by (auto simp: Query_def cursor_at_def Let_def split: prod.splits)

lemma query_walk_from:
  assumes "journal_stamps_ok db" "a \<noteq> '''' \<or> us \<noteq> []"
  shows "cursor_at db a us k cursor \<Longrightarrow> length (query_rows a us db) - k < fuel \<Longrightarrow>
    query_walk E db a lim fuel cursor us = map (scanJournalRow E db) (drop k (query_rows a us db))"
proof (induction fuel arbitrary: k cursor)
  case (Suc fuel)
  let ?rows = "query_rows a us db" and ?n = "clamp_limit lim"
  note q = Query_at [OF Suc.prems(1) assms(2), of E lim]
  show ?case
  proof (cases "length ?rows - k < ?n")
    case True
    then show ?thesis by (simp add: q Let_def)
  next
    case False
    let ?sel = "take ?n (drop k ?rows)"
    have pos: "0 < ?n" by simp
    have i: "k + ?n - 1 < length ?rows" "last ?sel = ?rows ! (k + ?n - 1)"
    proof -
      have len: "length ?sel = ?n" using False by simp
      with pos have "?sel \<noteq> []" by (metis length_greater_0_conv)
      from last_conv_nth [OF this] len pos False show "last ?sel = ?rows ! (k + ?n - 1)" by simp
      show "k + ?n - 1 < length ?rows" using pos False by linarith
    qed
    have "Suc (k + ?n - 1) = k + ?n" using pos by simp
    with cursor_at_next [OF assms(1) i(1) i(2)]
    have "cursor_at db a us (k + ?n) (encodeJournalCursor (j_ts (last ?sel)) (int (j_rowid (last ?sel))))"
      by simp
    moreover have "length ?rows - (k + ?n) < fuel" using Suc.prems(2) False pos by linarith
    ultimately have "query_walk E db a lim fuel (encodeJournalCursor (j_ts (last ?sel)) (int (j_rowid (last ?sel)))) us
        = map (scanJournalRow E db) (drop (k + ?n) ?rows)"
      by (rule Suc.IH)
    moreover have "drop k ?rows = ?sel @ drop (k + ?n) ?rows"
      by (metis add.commute append_take_drop_id drop_drop)
    then have "map (scanJournalRow E db) (drop k ?rows)
        = map (scanJournalRow E db) ?sel @ map (scanJournalRow E db) (drop (k + ?n) ?rows)"
      by (metis map_append)
    ultimately show ?thesis using False by (simp add: q Let_def)
  qed
qed simp

end
