(* ===== verification/Manifest_Store.thy ===== *)
theory Manifest_Store
  imports Journal "HOL-Library.List_Lexorder" "HOL-Library.Char_ord"
begin

text \<open>
  The core of \<^verbatim>\<open>ManifestStore\<close> in manifests.go: reading a manifest (\<open>Get\<close>), the
  compare-and-swap write (\<open>Put\<close>), hard links (\<open>Link\<close>) and removal (\<open>Delete\<close>). Each mutation is
  one transaction over the tenant database (\<open>Put_tx\<close>, ...), run by \<open>run_store\<close>, which commits,
  broadcasts the journal entry and rings the change-feed doorbell, in that order.

  A transaction ends in an \<open>outcome\<close>: \<open>Commit\<close> with the journal entry to broadcast and the revision to
  announce, or \<open>NoCommit\<close> where the source returns a value before \<^verbatim>\<open>tx.Commit\<close>, so that the
  deferred rollback drops the transaction.
\<close>

section \<open>The store\<close>

record mstore =
  ms_db :: tenant_db
  ms_broadcasts :: "SessionJournalEntry list"
  ms_notified :: "nat list"

datatype 'a outcome = Commit 'a "SessionJournalEntry option" nat | NoCommit 'a

definition empty_store :: mstore where
  "empty_store = \<lparr> ms_db = empty_db, ms_broadcasts = [], ms_notified = [] \<rparr>"

text \<open>\<^verbatim>\<open>notifyChange\<close>: revision 0 is never announced.\<close>

definition notifyChange :: "nat \<Rightarrow> mstore \<Rightarrow> mstore" where
  "notifyChange rv st = (if rv = 0 then st else st\<lparr>ms_notified := ms_notified st @ [rv]\<rparr>)"

definition broadcast :: "SessionJournalEntry option \<Rightarrow> mstore \<Rightarrow> mstore" where
  "broadcast je st = (case je of None \<Rightarrow> st | Some e \<Rightarrow> st\<lparr>ms_broadcasts := ms_broadcasts st @ [e]\<rparr>)"

definition run_store :: "env \<Rightarrow> 'a outcome tx \<Rightarrow> mstore \<Rightarrow> (store_error + 'a) \<times> mstore" where
  "run_store E m st =
     (case m (ms_db st) of
        Inl e \<Rightarrow> (Inl e, st)
      | Inr (NoCommit v, db') \<Rightarrow> (Inr v, st)
      | Inr (Commit v je rv, db') \<Rightarrow>
          if e_commit E then (Inr v, notifyChange rv (broadcast je (st\<lparr>ms_db := db'\<rparr>)))
          else (Inl ErrCommit, st))"

section \<open>Get\<close>

definition nlink_of :: "tenant_db \<Rightarrow> nat \<Rightarrow> nat" where
  "nlink_of db i = tbl_count (\<lambda>r. mf_inode r = i) (db_manifests db)"

definition Get :: "tenant_db \<Rightarrow> string \<Rightarrow> store_error + Manifest" where
  "Get db p =
     (case tbl_get mf_path (db_manifests db) p of
        None \<Rightarrow> Inl ErrManifestNotFound
      | Some r \<Rightarrow>
          (case unpackChunks (mf_chunks r) of
             None \<Rightarrow> Inl ErrUnpackChunks
           | Some cs \<Rightarrow> Inr \<lparr> m_path = mf_path r, m_inode = mf_inode r, m_nlink = nlink_of db (mf_inode r),
               m_size = mf_size r, m_mode = mf_mode r, m_mtime = mf_mtime r, m_version = mf_version r,
               m_chunks = cs, m_uid = mf_uid r, m_gid = mf_gid r, m_atime = mf_atime r \<rparr>))"

section \<open>Shared transaction steps\<close>

definition checkParentExists :: "string \<Rightarrow> unit tx" where
  "checkParentExists p =
     (let parent = fst (splitParentName p)
      in if parent = ''/'' then tx_return ()
         else tx_bind (tx_read (\<lambda>db. tbl_has de_key (db_dirs db) (splitParentName parent)))
                (\<lambda>ok. tx_guard ok ErrParentNotFound))"

definition refs_tx :: "ref_delta \<Rightarrow> unit tx" where
  "refs_tx delta = tx_try (\<lambda>db. case applyChunkRefDelta delta (db_chunks db) of
                                  None \<Rightarrow> Inl ErrRefcountCheck
                                | Some rows \<Rightarrow> Inr (db\<lparr>db_chunks := rows\<rparr>))"

text \<open>A row of \<^verbatim>\<open>dir_entries\<close> inserted with the column defaults.\<close>

definition dir_default :: "string \<Rightarrow> string \<Rightarrow> dir_row" where
  "dir_default parent name = \<lparr> de_parent = parent, de_name = name, de_mode = 493, de_mtime = 0,
     de_uid = 0, de_gid = 0, de_atime = 0, de_rev = 0 \<rparr>"

definition insert_dir_entry :: "string \<Rightarrow> unit tx" where
  "insert_dir_entry p =
     (let (parent, name) = splitParentName p
      in tx_when (name \<noteq> '''')
           (tx_exec (\<lambda>db. db\<lparr>db_dirs := tbl_insert de_key (dir_default parent name) (db_dirs db)\<rparr>)))"

definition removeDirEntryTx :: "string \<Rightarrow> unit tx" where
  "removeDirEntryTx p =
     (let (parent, name) = splitParentName p
      in tx_when (name \<noteq> '''')
           (tx_exec (\<lambda>db. db\<lparr>db_dirs := tbl_delete (\<lambda>d. de_parent d = parent \<and> de_name d = name) (db_dirs db)\<rparr>)))"

text \<open>\<^verbatim>\<open>update manifests set rev = ? where inode_id = ?\<close>.\<close>

definition restamp_inode :: "nat \<Rightarrow> nat \<Rightarrow> tenant_db \<Rightarrow> tenant_db" where
  "restamp_inode rv i db =
     db\<lparr>db_manifests := tbl_update (\<lambda>r. mf_inode r = i) (\<lambda>r. r\<lparr>mf_rev := rv\<rparr>) (db_manifests db)\<rparr>"

text \<open>The optional journal row of a mutation: none without a session.\<close>

definition journal_if ::
  "env \<Rightarrow> string \<Rightarrow> string \<Rightarrow> string \<Rightarrow> SessionOp \<Rightarrow> string \<Rightarrow> Manifest option \<Rightarrow> nat option \<Rightarrow> string \<Rightarrow>
   SessionJournalEntry option tx" where
  "journal_if E s a g op p prior after_v from =
     (if s = '''' then tx_return None
      else tx_bind (journalBeforeWrite E s a g op p prior after_v from) (\<lambda>e. tx_return (Some e)))"

datatype nodeKind = nodeAbsent | nodeRegular | nodeSymlink | nodeSpecial | nodeDir

definition resolveKind :: "tenant_db \<Rightarrow> string \<Rightarrow> nodeKind" where
  "resolveKind db p =
     (if tbl_has mf_path (db_manifests db) p then nodeRegular
      else if tbl_has sl_path (db_symlinks db) p then nodeSymlink
      else if tbl_has sn_path (db_specials db) p then nodeSpecial
      else if tbl_has de_parent (db_dirs db) p then nodeDir
      else if snd (splitParentName p) = '''' then nodeDir
      else if tbl_has de_key (db_dirs db) (splitParentName p) then nodeDir
      else nodeAbsent)"

section \<open>Put\<close>

definition lockAndValidateChunks :: "env \<Rightarrow> ChunkRef list \<Rightarrow> store_error + unit" where
  "lockAndValidateChunks E chunks =
     (case e_has_many E of
        None \<Rightarrow> Inr ()
      | Some has \<Rightarrow>
          if chunks = [] then Inr ()
          else let hashes = map cr_hash chunks
               in (case has hashes of
                     None \<Rightarrow> Inl ErrChunkCheck
                   | Some present \<Rightarrow>
                       (case find (\<lambda>hp. \<not> snd hp) (zip hashes present) of
                          None \<Rightarrow> Inr ()
                        | Some hp \<Rightarrow> Inl (ErrMissingChunk (fst hp)))))"

definition prior_manifest :: "string \<Rightarrow> manifest_row option \<Rightarrow> ChunkRef list \<Rightarrow> Manifest" where
  "prior_manifest p old chunks =
     (case old of
        None \<Rightarrow> \<lparr> m_path = p, m_inode = 0, m_nlink = 0, m_size = 0, m_mode = 0, m_mtime = 0, m_version = 0,
                  m_chunks = chunks, m_uid = 0, m_gid = 0, m_atime = 0 \<rparr>
      | Some o' \<Rightarrow> \<lparr> m_path = p, m_inode = 0, m_nlink = 0, m_size = mf_size o', m_mode = mf_mode o',
                  m_mtime = mf_mtime o', m_version = mf_version o', m_chunks = chunks,
                  m_uid = 0, m_gid = 0, m_atime = 0 \<rparr>)"

definition existing_version :: "manifest_row option \<Rightarrow> nat" where
  "existing_version old = (case old of None \<Rightarrow> 0 | Some o' \<Rightarrow> mf_version o')"

definition new_manifest_row :: "string \<Rightarrow> nat \<Rightarrow> nat \<Rightarrow> nat \<Rightarrow> Manifest \<Rightarrow> manifest_row" where
  "new_manifest_row p inode version rv mf =
     \<lparr> mf_path = p, mf_inode = inode, mf_size = m_size mf, mf_mode = m_mode mf, mf_mtime = m_mtime mf,
       mf_version = version, mf_chunks = packChunks (m_chunks mf), mf_uid = m_uid mf, mf_gid = m_gid mf,
       mf_atime = (if m_atime mf = 0 then m_mtime mf else m_atime mf), mf_rev = rv \<rparr>"

definition put_insert :: "string \<Rightarrow> nat \<Rightarrow> nat \<Rightarrow> nat \<Rightarrow> Manifest \<Rightarrow> unit tx" where
  "put_insert p inode version rv mf =
     tx_seq (tx_guard (bind_uint64 (m_size mf)) ErrUint64HighBit)
    (tx_seq (tx_try (\<lambda>db.
       if tbl_has mf_path (db_manifests db) p then Inl (ErrVersionConflict None)
       else Inr (db\<lparr>db_manifests := db_manifests db @ [new_manifest_row p inode version rv mf]\<rparr>)))
    (clearTombstoneTx p))"

definition rewrite_manifest_row ::
  "32 word \<Rightarrow> 32 word \<Rightarrow> int \<Rightarrow> nat \<Rightarrow> nat \<Rightarrow> Manifest \<Rightarrow> manifest_row \<Rightarrow> manifest_row" where
  "rewrite_manifest_row keepUID keepGID keepAtime version rv mf r =
     r\<lparr>mf_size := m_size mf, mf_mode := m_mode mf, mf_mtime := m_mtime mf, mf_version := version,
       mf_chunks := packChunks (m_chunks mf), mf_uid := keepUID, mf_gid := keepGID, mf_atime := keepAtime,
       mf_rev := rv\<rparr>"

definition put_update :: "manifest_row option \<Rightarrow> nat \<Rightarrow> nat \<Rightarrow> Manifest \<Rightarrow> unit tx" where
  "put_update old version rv mf =
     (let (keepUID, keepGID, keepAtime, inode) =
        (case old of None \<Rightarrow> (m_uid mf, m_gid mf, m_atime mf, 0)
         | Some o' \<Rightarrow> (mf_uid o', mf_gid o', mf_atime o', mf_inode o'))
      in tx_seq (tx_guard (bind_uint64 (m_size mf)) ErrUint64HighBit)
           (tx_try (\<lambda>db.
              if tbl_count (\<lambda>r. mf_inode r = inode) (db_manifests db) = 0 then Inl (ErrVersionConflict None)
              else Inr (db\<lparr>db_manifests := tbl_update (\<lambda>r. mf_inode r = inode)
                     (rewrite_manifest_row keepUID keepGID keepAtime version rv mf) (db_manifests db)\<rparr>))))"

definition Put_tx :: "env \<Rightarrow> string \<Rightarrow> nat \<Rightarrow> Manifest \<Rightarrow> string \<Rightarrow> string \<Rightarrow> string \<Rightarrow> nat outcome tx" where
  "Put_tx E p expected mf s a g =
     tx_bind (if expected = 0 then allocInodeTx else tx_return 0) (\<lambda>inode.
     tx_seq (checkParentExists p)
    (tx_bind (tx_read (\<lambda>db. tbl_get mf_path (db_manifests db) p)) (\<lambda>old.
     tx_bind (case old of None \<Rightarrow> tx_return []
              | Some o' \<Rightarrow> tx_lift ErrUnpackChunks (unpackChunks (mf_chunks o'))) (\<lambda>oldChunks.
     tx_seq (tx_guard (existing_version old = expected) (ErrVersionConflict (Some (existing_version old))))
    (tx_bind allocChangeRevTx (\<lambda>rv.
     tx_bind (journal_if E s a g (if expected = 0 then SessionOpCreate else SessionOpUpdate) p
                (if expected = 0 then None else Some (prior_manifest p old oldChunks))
                (Some (Suc expected)) '''') (\<lambda>je.
     tx_seq (refs_tx (chunkRefDelta oldChunks (m_chunks mf)))
    (tx_seq (if expected = 0 then put_insert p inode (Suc expected) rv mf
             else put_update old (Suc expected) rv mf)
    (tx_seq (insert_dir_entry p)
    (tx_return (Commit (Suc expected) je rv)))))))))))"

definition Put ::
  "env \<Rightarrow> string \<Rightarrow> nat \<Rightarrow> Manifest \<Rightarrow> string \<Rightarrow> string \<Rightarrow> string \<Rightarrow> mstore \<Rightarrow> (store_error + nat) \<times> mstore" where
  "Put E p expected mf s a g st =
     (if p \<noteq> m_path mf then (Inl ErrPathMismatch, st)
      else if s \<noteq> '''' \<and> a = '''' then (Inl ErrEmptyAllocation, st)
      else case lockAndValidateChunks E (m_chunks mf) of
             Inl e \<Rightarrow> (Inl e, st)
           | Inr _ \<Rightarrow> run_store E (Put_tx E p expected mf s a g) st)"

section \<open>Link\<close>

definition insert_manifest_new :: "manifest_row \<Rightarrow> unit tx" where
  "insert_manifest_new r =
     tx_try (\<lambda>db. case tbl_insert_new ErrUniqueKey mf_path r (db_manifests db) of
                   Inl e \<Rightarrow> Inl e | Inr rows \<Rightarrow> Inr (db\<lparr>db_manifests := rows\<rparr>))"

definition insert_dir_new :: "dir_row \<Rightarrow> unit tx" where
  "insert_dir_new d =
     tx_try (\<lambda>db. case tbl_insert_new ErrUniqueKey de_key d (db_dirs db) of
                   Inl e \<Rightarrow> Inl e | Inr rows \<Rightarrow> Inr (db\<lparr>db_dirs := rows\<rparr>))"

definition Link_tx :: "env \<Rightarrow> string \<Rightarrow> string \<Rightarrow> string \<Rightarrow> string \<Rightarrow> string \<Rightarrow> nat outcome tx" where
  "Link_tx E from to s a g =
     tx_seq (checkParentExists to)
    (tx_bind (tx_read (\<lambda>db. resolveKind db to)) (\<lambda>kind.
     tx_seq (tx_guard (kind = nodeAbsent) ErrAlreadyExists)
    (tx_bind (tx_read (\<lambda>db. tbl_get mf_path (db_manifests db) from)) (\<lambda>src.
     tx_bind (tx_lift ErrManifestNotFound src) (\<lambda>r.
     tx_bind allocChangeRevTx (\<lambda>rv.
     tx_seq (insert_manifest_new (r\<lparr>mf_path := to, mf_rev := rv\<rparr>))
    (tx_seq (tx_exec (restamp_inode rv (mf_inode r)))
    (tx_seq (clearTombstoneTx to)
    (tx_seq (insert_dir_new (dir_default (fst (splitParentName to)) (snd (splitParentName to))))
    (tx_bind (journal_if E s a g SessionOpCreate to None (Some (mf_version r)) '''') (\<lambda>je.
     tx_bind (tx_read (\<lambda>db. nlink_of db (mf_inode r))) (\<lambda>nlink.
     tx_return (Commit nlink je rv)))))))))))))"

definition Link ::
  "env \<Rightarrow> string \<Rightarrow> string \<Rightarrow> string \<Rightarrow> string \<Rightarrow> string \<Rightarrow> mstore \<Rightarrow> (store_error + nat) \<times> mstore" where
  "Link E from to s a g st =
     (if s \<noteq> '''' \<and> a = '''' then (Inl ErrEmptyAllocation, st)
      else run_store E (Link_tx E from to s a g) st)"

section \<open>Delete\<close>

text \<open>\<^verbatim>\<open>deletePathRow\<close> for the two path-keyed tables without manifests.\<close>

definition deleteSpecialNode_tx :: "env \<Rightarrow> string \<Rightarrow> unit outcome tx" where
  "deleteSpecialNode_tx E p =
     tx_bind (tx_read (\<lambda>db. tbl_has sn_path (db_specials db) p)) (\<lambda>ok.
     tx_seq (tx_guard ok ErrManifestNotFound)
    (tx_seq (tx_exec (\<lambda>db. db\<lparr>db_specials := tbl_delete (\<lambda>r. sn_path r = p) (db_specials db)\<rparr>))
    (tx_seq (removeDirEntryTx p)
    (tx_bind allocChangeRevTx (\<lambda>rv.
     tx_seq (upsertTombstoneTx (e_now_tomb E) p rv)
    (tx_return (Commit () None rv)))))))"

definition deleteSymlink_tx :: "env \<Rightarrow> string \<Rightarrow> unit outcome tx" where
  "deleteSymlink_tx E p =
     tx_bind (tx_read (\<lambda>db. tbl_has sl_path (db_symlinks db) p)) (\<lambda>ok.
     tx_seq (tx_guard ok ErrManifestNotFound)
    (tx_seq (tx_exec (\<lambda>db. db\<lparr>db_symlinks := tbl_delete (\<lambda>r. sl_path r = p) (db_symlinks db)\<rparr>))
    (tx_seq (removeDirEntryTx p)
    (tx_bind allocChangeRevTx (\<lambda>rv.
     tx_seq (upsertTombstoneTx (e_now_tomb E) p rv)
    (tx_return (Commit () None rv)))))))"

text \<open>\<^verbatim>\<open>select path ... where inode_id = ? and path <> ? order by path limit 1\<close>.\<close>

definition surviving_alias :: "tenant_db \<Rightarrow> nat \<Rightarrow> string \<Rightarrow> string option" where
  "surviving_alias db i p =
     (case sort (map mf_path (filter (\<lambda>r. mf_inode r = i \<and> mf_path r \<noteq> p) (db_manifests db))) of
        [] \<Rightarrow> None | q # _ \<Rightarrow> Some q)"

definition delete_alias_tx :: "nat \<Rightarrow> nat \<Rightarrow> string \<Rightarrow> string tx" where
  "delete_alias_tx nlink i p =
     (if 1 < nlink then tx_bind (tx_read (\<lambda>db. surviving_alias db i p)) (tx_lift ErrBadArgument)
      else tx_return '''')"

definition Delete_tx :: "env \<Rightarrow> string \<Rightarrow> nat \<Rightarrow> string \<Rightarrow> string \<Rightarrow> string \<Rightarrow> unit outcome tx" where
  "Delete_tx E p expected s a g =
     tx_bind (tx_read (\<lambda>db. tbl_get mf_path (db_manifests db) p)) (\<lambda>row.
     tx_bind (tx_lift ErrManifestNotFound row) (\<lambda>r.
     tx_bind (tx_read (\<lambda>db. nlink_of db (mf_inode r))) (\<lambda>nlink.
     tx_seq (tx_guard (mf_version r = expected) (ErrVersionConflict (Some (mf_version r))))
    (tx_bind (tx_lift ErrUnpackChunks (unpackChunks (mf_chunks r))) (\<lambda>oldChunks.
     tx_bind (if s = '''' then tx_return None
              else tx_bind (delete_alias_tx nlink (mf_inode r) p) (\<lambda>alias.
                   journal_if E s a g SessionOpDelete p (Some (prior_manifest p (Some r) oldChunks)) None alias)) (\<lambda>je.
     tx_seq (tx_when (nlink = 1) (refs_tx (chunkRefDelta oldChunks [])))
    (tx_seq (tx_exec (\<lambda>db. db\<lparr>db_manifests := tbl_delete (\<lambda>r. mf_path r = p) (db_manifests db)\<rparr>))
    (tx_seq (removeDirEntryTx p)
    (tx_bind allocChangeRevTx (\<lambda>rv.
     tx_seq (upsertTombstoneTx (e_now_tomb E) p rv)
    (tx_seq (tx_when (1 < nlink) (tx_exec (restamp_inode rv (mf_inode r))))
    (tx_return (Commit () je rv)))))))))))))"

definition Delete ::
  "env \<Rightarrow> string \<Rightarrow> nat \<Rightarrow> string \<Rightarrow> string \<Rightarrow> string \<Rightarrow> mstore \<Rightarrow> (store_error + unit) \<times> mstore" where
  "Delete E p expected s a g st =
     (if s \<noteq> '''' \<and> a = '''' then (Inl ErrEmptyAllocation, st)
      else case run_store E (deleteSpecialNode_tx E p) st of
             (Inr u, st1) \<Rightarrow> (Inr u, st1)
           | (Inl e, st1) \<Rightarrow>
               if e \<noteq> ErrManifestNotFound then (Inl e, st1)
               else case run_store E (deleteSymlink_tx E p) st1 of
                      (Inr u, st2) \<Rightarrow> (Inr u, st2)
                    | (Inl e, st2) \<Rightarrow>
                        if e \<noteq> ErrManifestNotFound then (Inl e, st2)
                        else run_store E (Delete_tx E p expected s a g) st2)"

end
