(* ===== verification/Db_Invariant.thy ===== *)
theory Db_Invariant
  imports Manifest_Store
begin

text \<open>
  The invariant of the tenant database, and the contract every mutation keeps.

  \<open>db_inv\<close> says: primary keys are unique; the names of one inode agree on everything the inode
  owns; no row carries a revision the counter has not issued; inode numbers were issued by the
  counter; stored versions are positive; every chunk blob unpacks; and every reference count is the
  number of references the live inodes hold, hard links counted once.

  The locale \<open>store_op\<close> is what the rest of the development relies on: a transaction that keeps the
  invariant and, when it commits, allocates exactly one revision. Its lemmas lift that through
  \<open>run_store\<close>. The component theories interpret it for each mutation of the store.
\<close>

section \<open>The invariant\<close>

definition chunks_of :: "byte list \<Rightarrow> ChunkRef list" where
  "chunks_of blob = (case unpackChunks blob of None \<Rightarrow> [] | Some cs \<Rightarrow> cs)"

text \<open>The content each inode owns. A hard-linked inode appears once.\<close>

definition inode_blobs :: "manifest_row list \<Rightarrow> (nat \<times> byte list) set" where
  "inode_blobs rows = (\<lambda>r. (mf_inode r, mf_chunks r)) ` set rows"

definition live_refs :: "manifest_row list \<Rightarrow> hash \<Rightarrow> nat" where
  "live_refs rows h = (\<Sum>ib\<in>inode_blobs rows. refs (chunks_of (snd ib)) h)"

definition inode_data ::
  "manifest_row \<Rightarrow> 64 word \<times> 32 word \<times> int \<times> nat \<times> byte list \<times> 32 word \<times> 32 word \<times> int" where
  "inode_data r = (mf_size r, mf_mode r, mf_mtime r, mf_version r, mf_chunks r, mf_uid r, mf_gid r, mf_atime r)"

definition alias_ok :: "manifest_row list \<Rightarrow> bool" where
  "alias_ok rows \<longleftrightarrow> (\<forall>r\<in>set rows. \<forall>r'\<in>set rows. mf_inode r = mf_inode r' \<longrightarrow> inode_data r = inode_data r')"

definition keys_ok :: "tenant_db \<Rightarrow> bool" where
  "keys_ok db \<longleftrightarrow> distinct (map ck_hash (db_chunks db)) \<and> distinct (map mf_path (db_manifests db)) \<and>
     distinct (map de_key (db_dirs db)) \<and> distinct (map sl_path (db_symlinks db)) \<and>
     distinct (map sn_path (db_specials db)) \<and> distinct (map tb_path (db_tombs db)) \<and>
     distinct (map j_key (db_journal db)) \<and> distinct (map j_rowid (db_journal db))"

text \<open>The revisions the rows and tombstones carry.\<close>

definition rev_set :: "tenant_db \<Rightarrow> nat set" where
  "rev_set db = mf_rev ` set (db_manifests db) \<union> de_rev ` set (db_dirs db) \<union> sl_rev ` set (db_symlinks db) \<union>
     sn_rev ` set (db_specials db) \<union> tb_rev ` set (db_tombs db)"

definition revs_ok :: "tenant_db \<Rightarrow> bool" where
  "revs_ok db \<longleftrightarrow> (\<forall>x\<in>rev_set db. x \<le> db_last_rev db) \<and> db_pruned_before db \<le> Suc (db_last_rev db)"

definition row_ok :: "nat \<Rightarrow> manifest_row \<Rightarrow> bool" where
  "row_ok next_inode r \<longleftrightarrow> 0 < mf_inode r \<and> mf_inode r \<le> next_inode \<and> 0 < mf_version r \<and>
     unpackChunks (mf_chunks r) \<noteq> None"

definition rows_ok :: "manifest_row list \<Rightarrow> nat \<Rightarrow> bool" where
  "rows_ok rows next_inode \<longleftrightarrow> (\<forall>r\<in>set rows. row_ok next_inode r)"

definition refs_ok :: "tenant_db \<Rightarrow> bool" where
  "refs_ok db \<longleftrightarrow> (\<forall>h. refcount_of (db_chunks db) h = int (live_refs (db_manifests db) h))"

definition db_inv :: "tenant_db \<Rightarrow> bool" where
  "db_inv db \<longleftrightarrow> keys_ok db \<and> alias_ok (db_manifests db) \<and> revs_ok db \<and>
     rows_ok (db_manifests db) (db_next_inode db) \<and> refs_ok db"

lemmas db_inv_defs = db_inv_def keys_ok_def revs_ok_def rows_ok_def refs_ok_def

lemma db_inv_empty: "db_inv empty_db"
  by (simp add: db_inv_defs empty_db_def alias_ok_def refcount_of_def live_refs_def inode_blobs_def rev_set_def)

lemma db_invD:
  assumes "db_inv db"
  shows "distinct (map mf_path (db_manifests db))" "distinct (map ck_hash (db_chunks db))"
    "distinct (map de_key (db_dirs db))" "distinct (map j_key (db_journal db))"
    "alias_ok (db_manifests db)" "revs_ok db" "rows_ok (db_manifests db) (db_next_inode db)"
    "refcount_of (db_chunks db) h = int (live_refs (db_manifests db) h)"
  using assms by (auto simp: db_inv_def keys_ok_def refs_ok_def)

lemma rows_ok_append [simp]: "rows_ok (rows @ rows') n \<longleftrightarrow> rows_ok rows n \<and> rows_ok rows' n"
  by (auto simp: rows_ok_def)

lemma rows_ok_single [simp]: "rows_ok [r] n = row_ok n r"
  by (simp add: rows_ok_def)

lemma rows_ok_update: "rows_ok rows n \<Longrightarrow> (\<And>r. row_ok n r \<Longrightarrow> row_ok n (f r)) \<Longrightarrow> rows_ok (tbl_update P f rows) n"
  by (auto simp: rows_ok_def)

lemma rows_ok_delete: "rows_ok rows n \<Longrightarrow> rows_ok (tbl_delete P rows) n"
  by (simp add: rows_ok_def)

lemma rows_ok_mono: "rows_ok rows n \<Longrightarrow> n \<le> m \<Longrightarrow> rows_ok rows m"
  by (auto simp: rows_ok_def row_ok_def)

lemma rows_okD: "rows_ok rows n \<Longrightarrow> r \<in> set rows \<Longrightarrow> row_ok n r"
  by (simp add: rows_ok_def)

section \<open>References held by the live inodes\<close>

lemma finite_inode_blobs [simp]: "finite (inode_blobs rows)"
  by (simp add: inode_blobs_def)

lemma chunks_of_pack [simp]: "chunks_of (packChunks cs) = cs"
  by (simp add: chunks_of_def)

lemma path_unique:
  "distinct (map mf_path rows) \<Longrightarrow> x \<in> set rows \<Longrightarrow> y \<in> set rows \<Longrightarrow> mf_path x = mf_path y \<Longrightarrow> x = y"
  by (simp add: distinct_map inj_on_def)

lemma alias_data:
  "alias_ok rows \<Longrightarrow> r \<in> set rows \<Longrightarrow> r' \<in> set rows \<Longrightarrow> mf_inode r' = mf_inode r \<Longrightarrow> inode_data r' = inode_data r"
  unfolding alias_ok_def by blast

lemma alias_blob:
  assumes "alias_ok rows" "r \<in> set rows" "(mf_inode r, b) \<in> inode_blobs rows"
  shows "b = mf_chunks r"
proof -
  from assms(3) obtain r' where r': "r' \<in> set rows" "mf_inode r' = mf_inode r" "b = mf_chunks r'"
    by (auto simp: inode_blobs_def)
  with assms(1,2) have "inode_data r' = inode_data r" unfolding alias_ok_def by blast
  with r' show ?thesis by (simp add: inode_data_def)
qed

lemma live_refs_mono: "r \<in> set rows \<Longrightarrow> refs (chunks_of (mf_chunks r)) h \<le> live_refs rows h"
  unfolding live_refs_def
  by (rule member_le_sum [where f = "\<lambda>ib. refs (chunks_of (snd ib)) h" and i = "(mf_inode r, mf_chunks r)", simplified])
    (auto simp: inode_blobs_def)

lemma live_refs_cong: "inode_blobs rows = inode_blobs rows' \<Longrightarrow> live_refs rows h = live_refs rows' h"
  by (simp add: live_refs_def)

lemma live_refs_new_inode:
  assumes "\<forall>r\<in>set rows. mf_inode r \<noteq> mf_inode n"
  shows "live_refs (rows @ [n]) h = live_refs rows h + refs (chunks_of (mf_chunks n)) h"
proof -
  have "inode_blobs (rows @ [n]) = insert (mf_inode n, mf_chunks n) (inode_blobs rows)"
    by (simp add: inode_blobs_def)
  moreover have "(mf_inode n, mf_chunks n) \<notin> inode_blobs rows"
    using assms by (auto simp: inode_blobs_def)
  ultimately show ?thesis by (simp add: live_refs_def)
qed

text \<open>Replacing the content of every name of an inode.\<close>

lemma live_refs_replace:
  assumes "alias_ok rows" "r \<in> set rows"
    and "\<And>x. mf_inode (f x) = mf_inode x" "\<And>x. mf_chunks (f x) = b"
  shows "live_refs (tbl_update (\<lambda>x. mf_inode x = mf_inode r) f rows) h + refs (chunks_of (mf_chunks r)) h
       = live_refs rows h + refs (chunks_of b) h"
proof -
  let ?i = "mf_inode r" and ?g = "\<lambda>ib. refs (chunks_of (snd ib)) h"
  let ?rest = "inode_blobs rows - {(?i, mf_chunks r)}"

  have only: "(?i, c) \<notin> ?rest" for c
    using alias_blob [OF assms(1,2)] by auto
  have rest: "?rest = {ib \<in> inode_blobs rows. fst ib \<noteq> ?i}"
  proof (rule set_eqI)
    fix ib show "ib \<in> ?rest \<longleftrightarrow> ib \<in> {ib \<in> inode_blobs rows. fst ib \<noteq> ?i}"
      using alias_blob [OF assms(1,2)] by (cases ib) auto
  qed
  have "inode_blobs (tbl_update (\<lambda>x. mf_inode x = ?i) f rows) =
      (\<lambda>x. if mf_inode x = ?i then (?i, b) else (mf_inode x, mf_chunks x)) ` set rows"
    unfolding inode_blobs_def set_tbl_update image_image by (rule image_cong) (simp_all add: assms(3,4))
  also have "\<dots> = insert (?i, b) {ib \<in> inode_blobs rows. fst ib \<noteq> ?i}"
    using assms(2) by (auto simp: inode_blobs_def)
  finally have new: "inode_blobs (tbl_update (\<lambda>x. mf_inode x = ?i) f rows) = insert (?i, b) ?rest"
    by (simp only: rest)
  have "live_refs (tbl_update (\<lambda>x. mf_inode x = ?i) f rows) h = ?g (?i, b) + sum ?g ?rest"
    unfolding live_refs_def new using only [of b] by simp
  moreover have "live_refs rows h = ?g (?i, mf_chunks r) + sum ?g ?rest"
    unfolding live_refs_def by (rule sum.remove) (use assms(2) in \<open>auto simp: inode_blobs_def\<close>)
  ultimately show ?thesis by simp
qed

text \<open>Removing one name: the content goes with the last one.\<close>

lemma inode_blobs_delete_shared:
  assumes "alias_ok rows" "r \<in> set rows" "r' \<in> set rows" "mf_inode r' = mf_inode r" "mf_path r' \<noteq> mf_path r"
    and "distinct (map mf_path rows)"
  shows "inode_blobs (tbl_delete (\<lambda>x. mf_path x = mf_path r) rows) = inode_blobs rows"
proof -
  have r': "(mf_inode r', mf_chunks r') = (mf_inode r, mf_chunks r)"
    using alias_data [OF assms(1-4)] assms(4) by (simp add: inode_data_def)
  have "(mf_inode x, mf_chunks x) \<in> inode_blobs (tbl_delete (\<lambda>x. mf_path x = mf_path r) rows)"
    if x: "x \<in> set rows" for x
  proof (cases "mf_path x = mf_path r")
    case True
    then have "x = r" by (rule path_unique [OF assms(6) x assms(2)])
    moreover have "(mf_inode r', mf_chunks r') \<in> inode_blobs (tbl_delete (\<lambda>x. mf_path x = mf_path r) rows)"
      using assms(3,5) by (simp add: inode_blobs_def)
    ultimately show ?thesis by (simp only: r')
  qed (use x in \<open>simp add: inode_blobs_def\<close>)
  then show ?thesis by (auto simp: inode_blobs_def)
qed

lemma live_refs_delete_last:
  assumes "r \<in> set rows" "distinct (map mf_path rows)"
    and "\<forall>x\<in>set rows. mf_inode x = mf_inode r \<longrightarrow> mf_path x = mf_path r"
  shows "live_refs (tbl_delete (\<lambda>x. mf_path x = mf_path r) rows) h + refs (chunks_of (mf_chunks r)) h = live_refs rows h"
proof -
  let ?rows' = "tbl_delete (\<lambda>x. mf_path x = mf_path r) rows"
  note uniq = path_unique [OF assms(2) _ assms(1)]
  have "inode_blobs rows = insert (mf_inode r, mf_chunks r) (inode_blobs ?rows')"
    using assms(1) by (auto simp: inode_blobs_def dest: uniq)
  moreover have "(mf_inode r, mf_chunks r) \<notin> inode_blobs ?rows'"
    using assms(3) by (force simp: inode_blobs_def)
  ultimately show ?thesis by (simp add: live_refs_def)
qed

lemma nlink_one_only:
  assumes "distinct (map mf_path rows)" "tbl_count (\<lambda>x. mf_inode x = i) rows = 1"
    and "r \<in> set rows" "mf_inode r = i" "x \<in> set rows" "mf_inode x = i"
  shows "x = r"
proof -
  have "length (filter (\<lambda>x. mf_inode x = i) rows) = 1"
    using assms(2) by (simp add: tbl_count_def)
  then obtain y where y: "filter (\<lambda>x. mf_inode x = i) rows = [y]"
    by (cases "filter (\<lambda>x. mf_inode x = i) rows") auto
  have "z = y" if "z \<in> set rows" "mf_inode z = i" for z
  proof -
    have "z \<in> set (filter (\<lambda>x. mf_inode x = i) rows)" using that by simp
    then show ?thesis unfolding y by simp
  qed
  with assms(3-6) show ?thesis by metis
qed

lemma nlink_more_other:
  assumes "distinct (map mf_path rows)" "1 < tbl_count (\<lambda>x. mf_inode x = i) rows"
    and "r \<in> set rows" "mf_inode r = i"
  obtains x where "x \<in> set rows" "mf_inode x = i" "mf_path x \<noteq> mf_path r"
proof -
  let ?f = "filter (\<lambda>x. mf_inode x = i) rows"
  have len: "1 < length ?f" using assms(2) by (simp add: tbl_count_def)
  have "distinct (map mf_path ?f)" using assms(1) by (simp add: distinct_map_filter)
  then have card: "card (mf_path ` set ?f) = length ?f"
    by (metis distinct_card length_map set_map)
  have "\<not> mf_path ` set ?f \<subseteq> {mf_path r}"
    using card len card_mono [of "{mf_path r}" "mf_path ` set ?f"] by auto
  then show thesis using that by auto
qed

section \<open>What each transaction step does\<close>

definition parent_ok :: "tenant_db \<Rightarrow> string \<Rightarrow> bool" where
  "parent_ok db p \<longleftrightarrow> (let parent = fst (splitParentName p)
     in parent = ''/'' \<or> splitParentName parent \<in> tbl_keys de_key (db_dirs db))"

definition add_dir :: "string \<Rightarrow> dir_row list \<Rightarrow> dir_row list" where
  "add_dir p dirs = (if snd (splitParentName p) = '''' then dirs
     else tbl_insert de_key (dir_default (fst (splitParentName p)) (snd (splitParentName p))) dirs)"

definition drop_dir :: "string \<Rightarrow> dir_row list \<Rightarrow> dir_row list" where
  "drop_dir p dirs = (if snd (splitParentName p) = '''' then dirs
     else tbl_delete (\<lambda>d. de_key d = splitParentName p) dirs)"

definition journal_grows :: "journal_row list \<Rightarrow> journal_row list \<Rightarrow> bool" where
  "journal_grows rows rows' \<longleftrightarrow> rows' = rows \<or>
     (\<exists>j. rows' = rows @ [j] \<and> j_rowid j = next_rowid rows \<and> j_seq j = next_seq (j_session j) rows)"

lemma checkParentExists_Inr [simp]:
  "checkParentExists p db = Inr (u, db') \<longleftrightarrow> parent_ok db p \<and> db' = db"
  by (auto simp: checkParentExists_def parent_ok_def Let_def)

lemma refs_tx_Inr [simp]:
  "refs_tx d db = Inr (u, db') \<longleftrightarrow> (\<exists>rows. applyChunkRefDelta d (db_chunks db) = Some rows \<and> db' = db\<lparr>db_chunks := rows\<rparr>)"
  by (auto simp: refs_tx_def split: option.splits)

lemma insert_dir_entry_Inr [simp]:
  "insert_dir_entry p db = Inr (u, db') \<longleftrightarrow> db' = db\<lparr>db_dirs := add_dir p (db_dirs db)\<rparr>"
  by (auto simp: insert_dir_entry_def add_dir_def split: prod.splits)

lemma removeDirEntryTx_Inr [simp]:
  "removeDirEntryTx p db = Inr (u, db') \<longleftrightarrow> db' = db\<lparr>db_dirs := drop_dir p (db_dirs db)\<rparr>"
  by (auto simp: removeDirEntryTx_def drop_dir_def split: prod.splits)

lemma clearTombstoneTx_Inr [simp]:
  "clearTombstoneTx p db = Inr (u, db') \<longleftrightarrow> db' = db\<lparr>db_tombs := tbl_delete (\<lambda>t. tb_path t = p) (db_tombs db)\<rparr>"
  by (simp add: clearTombstoneTx_def)

lemma upsertTombstoneTx_Inr [simp]:
  "upsertTombstoneTx now p rv db = Inr (u, db') \<longleftrightarrow> db' = db\<lparr>db_tombs := tomb_upsert p rv now (db_tombs db)\<rparr>"
  by (simp add: upsertTombstoneTx_def)

lemma journal_if_Inr:
  assumes "journal_if E s a g op p prior after_v from db = Inr (je, db')"
  obtains js where "db' = db\<lparr>db_journal := js\<rparr>" "journal_grows (db_journal db) js"
    "s = '''' \<Longrightarrow> js = db_journal db \<and> je = None"
proof (cases "s = ''''")
  case True
  with assms show thesis by (intro that [of "db_journal db"]) (auto simp: journal_if_def journal_grows_def)
next
  case False
  with assms obtain e where "journalBeforeWrite E s a g op p prior after_v from db = Inr (e, db')"
    by (auto simp: journal_if_def)
  then obtain b bl j where "j = journal_row_of E s a g op p b after_v bl from (db_journal db)"
    "db' = db\<lparr>db_journal := db_journal db @ [j]\<rparr>"
    by (rule journalBeforeWrite_Inr)
  with False show thesis
    by (intro that [of "db_journal db @ [j]"]) (auto simp: journal_grows_def journal_row_of_def)
qed

lemma journal_grows_distinct:
  assumes "journal_grows rows rows'"
  shows "distinct (map j_key rows) \<Longrightarrow> distinct (map j_key rows')"
    and "distinct (map j_rowid rows) \<Longrightarrow> distinct (map j_rowid rows')"
proof -
  show "distinct (map j_key rows')" if d: "distinct (map j_key rows)"
  proof -
    have "j_key j \<notin> tbl_keys j_key rows" if "j_seq j = next_seq (j_session j) rows" for j
      using seq_less_next [of _ rows "j_session j"] that by fastforce
    with assms d show ?thesis by (auto simp: journal_grows_def)
  qed
  show "distinct (map j_rowid rows')" if d: "distinct (map j_rowid rows)"
  proof -
    have "next_rowid rows \<notin> tbl_keys j_rowid rows"
      using rowid_less_next [of _ rows] by fastforce
    with assms d show ?thesis by (auto simp: journal_grows_def)
  qed
qed

lemma revs_ok_step:
  assumes "revs_ok db" "db_last_rev db' = Suc (db_last_rev db)" "db_pruned_before db' = db_pruned_before db"
    and "rev_set db' \<subseteq> insert 0 (insert (Suc (db_last_rev db)) (rev_set db))"
  shows "revs_ok db'"
proof -
  have "x \<le> db_last_rev db'" if "x \<in> rev_set db'" for x
  proof -
    from assms(4) that have "x = 0 \<or> x = Suc (db_last_rev db) \<or> x \<in> rev_set db" by auto
    with assms(1,2) show ?thesis by (auto simp: revs_ok_def intro: le_SucI)
  qed
  with assms(1-3) show ?thesis by (simp add: revs_ok_def)
qed

lemma add_dir_ok [simp]:
  "distinct (map de_key dirs) \<Longrightarrow> distinct (map de_key (add_dir p dirs))"
  by (simp add: add_dir_def)

lemma drop_dir_ok [simp]:
  "distinct (map de_key dirs) \<Longrightarrow> distinct (map de_key (drop_dir p dirs))"
  by (simp add: drop_dir_def)

lemma de_rev_add_dir: "de_rev ` set (add_dir p dirs) \<subseteq> insert 0 (de_rev ` set dirs)"
  by (auto simp: add_dir_def tbl_insert_def dir_default_def)

lemma de_rev_drop_dir: "de_rev ` set (drop_dir p dirs) \<subseteq> de_rev ` set dirs"
  by (auto simp: drop_dir_def)

lemma tb_rev_delete: "tb_rev ` set (tbl_delete P ts) \<subseteq> tb_rev ` set ts"
  by auto

lemma tb_rev_upsert: "tb_rev ` set (tomb_upsert p rv now ts) \<subseteq> insert rv (tb_rev ` set ts)"
  by (auto simp: set_tomb_upsert)

text \<open>
  A step stamps rows with the new revision or leaves them alone: the sets of revisions of the
  five tables, one by one.
\<close>

lemma rev_set_step:
  assumes "mf_rev ` set (db_manifests db') \<subseteq> insert 0 (insert v (mf_rev ` set (db_manifests db)))"
    and "de_rev ` set (db_dirs db') \<subseteq> insert 0 (insert v (de_rev ` set (db_dirs db)))"
    and "sl_rev ` set (db_symlinks db') \<subseteq> insert 0 (insert v (sl_rev ` set (db_symlinks db)))"
    and "sn_rev ` set (db_specials db') \<subseteq> insert 0 (insert v (sn_rev ` set (db_specials db)))"
    and "tb_rev ` set (db_tombs db') \<subseteq> insert 0 (insert v (tb_rev ` set (db_tombs db)))"
  shows "rev_set db' \<subseteq> insert 0 (insert v (rev_set db))"
  unfolding rev_set_def
  by (intro Un_least order_trans [OF assms(1)] order_trans [OF assms(2)] order_trans [OF assms(3)]
      order_trans [OF assms(4)] order_trans [OF assms(5)] insert_mono Un_upper1 Un_upper2 le_supI1 le_supI2 order_refl)

lemma mf_rev_update: 
  "(\<And>r. mf_rev (f r) = v) \<Longrightarrow> mf_rev ` set (tbl_update P f rows) \<subseteq> insert 0 (insert v (mf_rev ` set rows))"
  by auto

lemma in_add_dir:
  "d \<in> set (add_dir p dirs) \<Longrightarrow> d \<in> set dirs \<or> d = dir_default (fst (splitParentName p)) (snd (splitParentName p))"
  by (auto simp: add_dir_def tbl_insert_def split: if_splits)

lemma in_drop_dir: "d \<in> set (drop_dir p dirs) \<Longrightarrow> d \<in> set dirs"
  by (auto simp: drop_dir_def split: if_splits)

lemma nlink_update:
  assumes "\<And>r. mf_inode (f r) = mf_inode r"
  shows "tbl_count (\<lambda>r. mf_inode r = i) (tbl_update P f rows) = tbl_count (\<lambda>r. mf_inode r = i) rows"
  using assms by (induction rows) (auto simp: tbl_update_def tbl_count_def)

lemma count_delete_row:
  assumes "distinct (map mf_path rows)" "x \<in> set rows" "mf_path x = p"
  shows "tbl_count (\<lambda>r. mf_inode r = i) (tbl_delete (\<lambda>r. mf_path r = p) rows) =
    tbl_count (\<lambda>r. mf_inode r = i) rows - (if i = mf_inode x then 1 else 0)"
  using assms
proof (induction rows)
  case (Cons r rows)
  show ?case
  proof (cases "mf_path r = p")
    case True
    then have "r = x" using Cons.prems by (metis image_eqI list.set_map set_ConsD distinct.simps(2) list.simps(9))
    moreover have "tbl_delete (\<lambda>r. mf_path r = p) rows = rows"
    proof -
      have "mf_path y \<noteq> p" if "y \<in> set rows" for y using Cons.prems(1) True that by (metis distinct.simps(2) image_eqI list.set_map list.simps(9))
      then show ?thesis by (simp add: tbl_delete_def filter_id_conv)
    qed
    ultimately show ?thesis using True by (simp add: tbl_count_def tbl_delete_def)
  next
    case False
    with Cons have "x \<in> set rows" by auto
    moreover from this have "i = mf_inode x \<Longrightarrow> 0 < tbl_count (\<lambda>r. mf_inode r = i) rows"
      by (auto simp: tbl_count_def filter_empty_conv)
    ultimately show ?thesis using False Cons by (auto simp: tbl_count_def tbl_delete_def)
  qed
qed simp

section \<open>The contract of a mutation\<close>

locale store_op =
  fixes op :: "'a outcome tx"
  assumes commit_inv: "db_inv db \<Longrightarrow> op db = Inr (Commit v je rv, db') \<Longrightarrow> db_inv db'"
    and commit_rev: "db_inv db \<Longrightarrow> op db = Inr (Commit v je rv, db') \<Longrightarrow> rv = Suc (db_last_rev db) \<and> db_last_rev db' = rv"
begin

lemma run_error: "run_store E op st = (Inl e, st') \<Longrightarrow> st' = st"
  by (auto simp: run_store_def split: sum.splits outcome.splits if_splits)

lemma run_inv:
  assumes "db_inv (ms_db st)" "run_store E op st = (res, st')"
  shows "db_inv (ms_db st')"
proof (cases "op (ms_db st)")
  case (Inl e)
  with assms show ?thesis by (simp add: run_store_def)
next
  case (Inr b)
  obtain out db' where b: "b = (out, db')" by (cases b) auto
  show ?thesis
  proof (cases out)
    case (Commit v je rv)
    then have "db_inv db'" using commit_inv [OF assms(1)] Inr b by simp
    with Commit Inr b assms show ?thesis
      by (auto simp: run_store_def notifyChange_def broadcast_def split: if_splits option.splits)
  next
    case (NoCommit v)
    with Inr b assms show ?thesis by (simp add: run_store_def)
  qed
qed

text \<open>A mutation announces the one revision it allocated, after the commit, or changes nothing.\<close>

lemma run_rev:
  assumes inv: "db_inv (ms_db st)" and run: "run_store E op st = (res, st')"
  shows "st' = st \<or> (db_last_rev (ms_db st') = Suc (db_last_rev (ms_db st)) \<and>
    ms_notified st' = ms_notified st @ [db_last_rev (ms_db st')])"
proof (cases "\<exists>v je rv db'. op (ms_db st) = Inr (Commit v je rv, db') \<and> e_commit E")
  case True
  then obtain v je rv db' where c: "op (ms_db st) = Inr (Commit v je rv, db')" "e_commit E" by blast
  from commit_rev [OF inv c(1)] have "rv = Suc (db_last_rev (ms_db st))" "db_last_rev db' = rv" by auto
  with c run show ?thesis
    by (auto simp: run_store_def notifyChange_def broadcast_def split: option.splits)
next
  case False
  with run show ?thesis
    by (auto simp: run_store_def split: sum.splits outcome.splits if_splits)
qed

end

end
