(* ===== verification/Manifest_Laws.thy ===== *)
theory Manifest_Laws
  imports Db_Invariant
begin

text \<open>
  What \<open>Put\<close>, \<open>Link\<close> and \<open>Delete\<close> do to the database, and that each keeps \<open>db_inv\<close>. The effect
  lemmas (\<open>..._Commit\<close>) turn a successful transaction into the conditions it checked and one
  explicit new database; the invariant and the properties are read off that.
\<close>

section \<open>Put\<close>

lemma parent_ok_upd [simp]:
  "parent_ok (db\<lparr>db_next_inode := n\<rparr>) p = parent_ok db p"
  "parent_ok (db\<lparr>db_last_rev := n\<rparr>) p = parent_ok db p"
  by (simp_all add: parent_ok_def)

lemma put_insert_Inr [simp]:
  "put_insert p i v rv mf db = Inr (u, db') \<longleftrightarrow>
     bind_uint64 (m_size mf) \<and> p \<notin> tbl_keys mf_path (db_manifests db) \<and>
     db' = db\<lparr>db_manifests := db_manifests db @ [new_manifest_row p i v rv mf],
              db_tombs := tbl_delete (\<lambda>t. tb_path t = p) (db_tombs db)\<rparr>"
  by (auto simp: put_insert_def)

lemma put_update_Inr [simp]:
  "put_update (Some x) v rv mf db = Inr (u, db') \<longleftrightarrow>
     bind_uint64 (m_size mf) \<and> (\<exists>r\<in>set (db_manifests db). mf_inode r = mf_inode x) \<and>
     db' = db\<lparr>db_manifests := tbl_update (\<lambda>r. mf_inode r = mf_inode x)
       (rewrite_manifest_row (mf_uid x) (mf_gid x) (mf_atime x) v rv mf) (db_manifests db)\<rparr>"
  by (auto simp: put_update_def)

lemma Put_insert_Commit:
  assumes "Put_tx E p 0 mf s a g db = Inr (out, db')"
  obtains je js cks rv where
    "rv = Suc (db_last_rev db)" "out = Commit 1 je rv" "parent_ok db p"
    "p \<notin> tbl_keys mf_path (db_manifests db)" "bind_uint64 (m_size mf)"
    "journal_grows (db_journal db) js"
    "applyChunkRefDelta (chunkRefDelta [] (m_chunks mf)) (db_chunks db) = Some cks"
    "db' = db\<lparr>db_next_inode := Suc (db_next_inode db), db_last_rev := rv, db_journal := js, db_chunks := cks,
       db_manifests := db_manifests db @ [new_manifest_row p (Suc (db_next_inode db)) 1 rv mf],
       db_tombs := tbl_delete (\<lambda>t. tb_path t = p) (db_tombs db), db_dirs := add_dir p (db_dirs db)\<rparr>"
proof (cases "tbl_get mf_path (db_manifests db) p")
  case None
  let ?db1 = "db\<lparr>db_next_inode := Suc (db_next_inode db), db_last_rev := Suc (db_last_rev db)\<rparr>"
  from assms None obtain je db2 cks where c:
    "parent_ok db p" "journal_if E s a g SessionOpCreate p None (Some 1) '''' ?db1 = Inr (je, db2)"
    "applyChunkRefDelta (chunkRefDelta [] (m_chunks mf)) (db_chunks db2) = Some cks"
    "bind_uint64 (m_size mf)" "p \<notin> tbl_keys mf_path (db_manifests db2)"
    "out = Commit 1 je (Suc (db_last_rev db))"
    "db' = db2\<lparr>db_chunks := cks,
       db_manifests := db_manifests db2 @ [new_manifest_row p (Suc (db_next_inode db)) 1 (Suc (db_last_rev db)) mf],
       db_tombs := tbl_delete (\<lambda>t. tb_path t = p) (db_tombs db2), db_dirs := add_dir p (db_dirs db2)\<rparr>"
    by (auto simp: Put_tx_def)
  from c(2) obtain js where "db2 = ?db1\<lparr>db_journal := js\<rparr>" "journal_grows (db_journal db) js"
    by (rule journal_if_Inr) auto
  with c show thesis by (intro that [of _ je js cks]) simp_all
next
  case (Some o')
  then have "p \<in> tbl_keys mf_path (db_manifests db)" by (auto dest!: tbl_get_SomeD)
  with assms Some show thesis by (auto simp: Put_tx_def elim!: journal_if_Inr)
qed

lemma Put_update_Commit:
  assumes "Put_tx E p n mf s a g db = Inr (out, db')" "0 < n"
  obtains je js cks rv x cs where
    "rv = Suc (db_last_rev db)" "out = Commit (Suc n) je rv" "parent_ok db p"
    "tbl_get mf_path (db_manifests db) p = Some x" "mf_version x = n" "unpackChunks (mf_chunks x) = Some cs"
    "bind_uint64 (m_size mf)" "journal_grows (db_journal db) js"
    "applyChunkRefDelta (chunkRefDelta cs (m_chunks mf)) (db_chunks db) = Some cks"
    "db' = db\<lparr>db_last_rev := rv, db_journal := js, db_chunks := cks,
       db_manifests := tbl_update (\<lambda>r. mf_inode r = mf_inode x)
         (rewrite_manifest_row (mf_uid x) (mf_gid x) (mf_atime x) (Suc n) rv mf) (db_manifests db),
       db_dirs := add_dir p (db_dirs db)\<rparr>"
proof (cases "tbl_get mf_path (db_manifests db) p")
  case None
  with assms show thesis by (auto simp: Put_tx_def existing_version_def)
next
  case (Some x)
  let ?db1 = "db\<lparr>db_last_rev := Suc (db_last_rev db)\<rparr>"
  from assms Some obtain je db2 cks cs where c:
    "parent_ok db p" "unpackChunks (mf_chunks x) = Some cs" "mf_version x = n"
    "journal_if E s a g SessionOpUpdate p (Some (prior_manifest p (Some x) cs)) (Some (Suc n)) '''' ?db1 = Inr (je, db2)"
    "applyChunkRefDelta (chunkRefDelta cs (m_chunks mf)) (db_chunks db2) = Some cks"
    "bind_uint64 (m_size mf)" "out = Commit (Suc n) je (Suc (db_last_rev db))"
    "db' = db2\<lparr>db_chunks := cks, db_manifests := tbl_update (\<lambda>r. mf_inode r = mf_inode x)
         (rewrite_manifest_row (mf_uid x) (mf_gid x) (mf_atime x) (Suc n) (Suc (db_last_rev db)) mf) (db_manifests db2),
       db_dirs := add_dir p (db_dirs db2)\<rparr>"
    by (auto simp: Put_tx_def existing_version_def)
  from c(4) obtain js where "db2 = ?db1\<lparr>db_journal := js\<rparr>" "journal_grows (db_journal db) js"
    by (rule journal_if_Inr) auto
  with c Some show thesis by (intro that [of _ je x cs js cks]) simp_all
qed

lemma new_manifest_row_simps [simp]:
  "mf_path (new_manifest_row p i v rv mf) = p"
  "mf_inode (new_manifest_row p i v rv mf) = i"
  "mf_version (new_manifest_row p i v rv mf) = v"
  "mf_chunks (new_manifest_row p i v rv mf) = packChunks (m_chunks mf)"
  "mf_rev (new_manifest_row p i v rv mf) = rv"
  by (simp_all add: new_manifest_row_def)

lemma rewrite_manifest_row_simps [simp]:
  "mf_path (rewrite_manifest_row u g t v rv mf r) = mf_path r"
  "mf_inode (rewrite_manifest_row u g t v rv mf r) = mf_inode r"
  "mf_version (rewrite_manifest_row u g t v rv mf r) = v"
  "mf_chunks (rewrite_manifest_row u g t v rv mf r) = packChunks (m_chunks mf)"
  "mf_rev (rewrite_manifest_row u g t v rv mf r) = rv"
  by (simp_all add: rewrite_manifest_row_def)

lemma inode_data_rewrite:
  "inode_data (rewrite_manifest_row u g t v rv mf r) =
     (m_size mf, m_mode mf, m_mtime mf, v, packChunks (m_chunks mf), u, g, t)"
  by (simp add: rewrite_manifest_row_def inode_data_def)

text \<open>Setting every name of one inode to the same data keeps the names in agreement.\<close>

lemma alias_ok_update:
  assumes "alias_ok rows" "\<And>r. mf_inode (f r) = mf_inode r"
    and "\<And>r r'. r \<in> set rows \<Longrightarrow> r' \<in> set rows \<Longrightarrow> mf_inode r = i \<Longrightarrow> mf_inode r' = i \<Longrightarrow> inode_data (f r) = inode_data (f r')"
  shows "alias_ok (tbl_update (\<lambda>r. mf_inode r = i) f rows)"
  unfolding alias_ok_def set_tbl_update
proof (intro ballI impI)
  fix y y'
  assume y: "y \<in> (\<lambda>r. if mf_inode r = i then f r else r) ` set rows"
    and y': "y' \<in> (\<lambda>r. if mf_inode r = i then f r else r) ` set rows" and same: "mf_inode y = mf_inode y'"
  from y obtain r where r: "r \<in> set rows" "y = (if mf_inode r = i then f r else r)" by auto
  from y' obtain r' where r': "r' \<in> set rows" "y' = (if mf_inode r' = i then f r' else r')" by auto
  have "mf_inode r = mf_inode r'" using same r(2) r'(2) assms(2) by (simp split: if_splits)
  then show "inode_data y = inode_data y'"
    using assms(3) [OF r(1) r'(1)] alias_data [OF assms(1) r'(1) r(1)] r(2) r'(2) by simp
qed

lemma alias_ok_append:
  assumes "alias_ok rows" "\<And>r. r \<in> set rows \<Longrightarrow> mf_inode r = mf_inode n \<Longrightarrow> inode_data r = inode_data n"
  shows "alias_ok (rows @ [n])"
  unfolding alias_ok_def
proof (intro ballI impI)
  fix r r' assume "r \<in> set (rows @ [n])" "r' \<in> set (rows @ [n])" and same: "mf_inode r = mf_inode r'"
  then have "r \<in> set rows \<or> r = n" "r' \<in> set rows \<or> r' = n" by auto
  then show "inode_data r = inode_data r'"
  proof (elim disjE)
    assume "r \<in> set rows" "r' \<in> set rows"
    then show ?thesis using alias_data [OF assms(1)] same by blast
  qed (use assms(2) same in simp_all)
qed

lemma refs_ok_apply:
  assumes "db_inv db" "applyChunkRefDelta (chunkRefDelta old new) (db_chunks db) = Some cks"
  shows "distinct (map ck_hash cks)"
    and "refcount_of cks h = int (live_refs (db_manifests db) h) + int (refs new h) - int (refs old h)"
  using applyChunkRefDelta_Some [OF assms(2) db_invD(2) [OF assms(1)]] db_invD(8) [OF assms(1), of h]
  by simp_all


lemma Put_insert_inv:
  assumes inv: "db_inv db" and run: "Put_tx E p 0 mf s a g db = Inr (out, db')"
  shows "db_inv db'"
  using run
proof (rule Put_insert_Commit)
  fix je js cks rv
  let ?n = "new_manifest_row p (Suc (db_next_inode db)) 1 rv mf" and ?rows = "db_manifests db"
  assume c: "rv = Suc (db_last_rev db)" "p \<notin> tbl_keys mf_path ?rows" "journal_grows (db_journal db) js"
    "applyChunkRefDelta (chunkRefDelta [] (m_chunks mf)) (db_chunks db) = Some cks"
    "db' = db\<lparr>db_next_inode := Suc (db_next_inode db), db_last_rev := rv, db_journal := js, db_chunks := cks,
       db_manifests := ?rows @ [?n],
       db_tombs := tbl_delete (\<lambda>t. tb_path t = p) (db_tombs db), db_dirs := add_dir p (db_dirs db)\<rparr>"
  have fresh: "\<forall>r\<in>set ?rows. mf_inode r \<noteq> Suc (db_next_inode db)"
    using rows_okD [OF db_invD(7) [OF inv]] by (fastforce simp: row_ok_def)
  have "keys_ok db'"
    using inv c journal_grows_distinct [OF c(3)] refs_ok_apply(1) [OF inv c(4)]
    by (auto simp: db_inv_def keys_ok_def)
  moreover have "alias_ok (db_manifests db')"
    unfolding c(5) using fresh by (auto intro!: alias_ok_append db_invD(5) [OF inv])
  moreover have "revs_ok db'"
    using db_invD(6) [OF inv]
  proof (rule revs_ok_step)
    show "rev_set db' \<subseteq> insert 0 (insert (Suc (db_last_rev db)) (rev_set db))"
      unfolding c(5) c(1) using de_rev_add_dir [of p "db_dirs db"]
      by (intro rev_set_step) auto
  qed (simp_all add: c(1,5))
  moreover have "rows_ok (db_manifests db') (db_next_inode db')"
    using rows_ok_mono [OF db_invD(7) [OF inv], of "Suc (db_next_inode db)"] c(5) by (simp add: row_ok_def)
  moreover have "refs_ok db'"
    using refs_ok_apply(2) [OF inv c(4)] fresh c(5)
    by (simp add: refs_ok_def live_refs_new_inode)
  ultimately show ?thesis by (simp add: db_inv_def)
qed

lemma Put_update_inv:
  assumes inv: "db_inv db" and run: "Put_tx E p n mf s a g db = Inr (out, db')" and n: "0 < n"
  shows "db_inv db'"
  using run n
proof (rule Put_update_Commit)
  fix je js cks rv cs
  fix x :: manifest_row
  let ?f = "rewrite_manifest_row (mf_uid x) (mf_gid x) (mf_atime x) (Suc n) rv mf" and ?rows = "db_manifests db"
  assume c: "rv = Suc (db_last_rev db)" "tbl_get mf_path ?rows p = Some x" "unpackChunks (mf_chunks x) = Some cs"
    "journal_grows (db_journal db) js" "applyChunkRefDelta (chunkRefDelta cs (m_chunks mf)) (db_chunks db) = Some cks"
    "db' = db\<lparr>db_last_rev := rv, db_journal := js, db_chunks := cks,
       db_manifests := tbl_update (\<lambda>r. mf_inode r = mf_inode x) ?f ?rows, db_dirs := add_dir p (db_dirs db)\<rparr>"
  have x: "x \<in> set ?rows" using c(2) by (auto dest: tbl_get_SomeD)
  have "keys_ok db'"
    using inv c(6) journal_grows_distinct [OF c(4)] refs_ok_apply(1) [OF inv c(5)]
    by (auto simp: db_inv_def keys_ok_def)
  moreover have "alias_ok (db_manifests db')"
    unfolding c(6) by (auto intro!: alias_ok_update db_invD(5) [OF inv] simp: inode_data_rewrite)
  moreover have "revs_ok db'"
    using db_invD(6) [OF inv]
  proof (rule revs_ok_step)
    show "rev_set db' \<subseteq> insert 0 (insert (Suc (db_last_rev db)) (rev_set db))"
      unfolding c(6) c(1) using de_rev_add_dir [of p "db_dirs db"]
      by (intro rev_set_step) auto
  qed (simp_all add: c(1,6))
  moreover have "rows_ok (db_manifests db') (db_next_inode db')"
    using db_invD(7) [OF inv] c(6) by (auto simp: row_ok_def intro!: rows_ok_update)
  moreover have "refs_ok db'"
    unfolding refs_ok_def
  proof
    fix h
    have "live_refs (db_manifests db') h + refs cs h = live_refs ?rows h + refs (m_chunks mf) h"
      using live_refs_replace [OF db_invD(5) [OF inv] x, of ?f "packChunks (m_chunks mf)" h] c(3,6)
      by (simp add: chunks_of_def)
    with refs_ok_apply(2) [OF inv c(5), of h] c(6)
    show "refcount_of (db_chunks db') h = int (live_refs (db_manifests db') h)" by simp
  qed
  ultimately show ?thesis by (simp add: db_inv_def)
qed

interpretation put: store_op "Put_tx E p n mf s a g" for E p n mf s a g
proof
  fix db v je rv db'
  assume run: "Put_tx E p n mf s a g db = Inr (Commit v je rv, db')"
  show "db_inv db'" if "db_inv db"
    using Put_insert_inv [OF that] Put_update_inv [OF that] run by (cases "n = 0") auto
  show "rv = Suc (db_last_rev db) \<and> db_last_rev db' = rv"
  proof (cases "n = 0")
    case True
    with run show ?thesis by (auto elim!: Put_insert_Commit)
  next
    case False
    with run show ?thesis by (auto elim!: Put_update_Commit)
  qed
qed

section \<open>Link\<close>

abbreviation stamp_inode :: "nat \<Rightarrow> nat \<Rightarrow> manifest_row list \<Rightarrow> manifest_row list" where
  "stamp_inode rv i rows \<equiv> tbl_update (\<lambda>r. mf_inode r = i) (\<lambda>r. r\<lparr>mf_rev := rv\<rparr>) rows"

lemma insert_manifest_new_Inr [simp]:
  "insert_manifest_new r db = Inr (u, db') \<longleftrightarrow>
     mf_path r \<notin> tbl_keys mf_path (db_manifests db) \<and> db' = db\<lparr>db_manifests := db_manifests db @ [r]\<rparr>"
  by (auto simp: insert_manifest_new_def tbl_insert_new_def)

lemma insert_dir_new_Inr [simp]:
  "insert_dir_new d db = Inr (u, db') \<longleftrightarrow>
     de_key d \<notin> tbl_keys de_key (db_dirs db) \<and> db' = db\<lparr>db_dirs := db_dirs db @ [d]\<rparr>"
  by (auto simp: insert_dir_new_def tbl_insert_new_def)

lemma resolveKind_upd [simp]:
  "resolveKind (db\<lparr>db_last_rev := n\<rparr>) p = resolveKind db p"
  "resolveKind (db\<lparr>db_journal := js\<rparr>) p = resolveKind db p"
  by (simp_all add: resolveKind_def)

lemma nlink_of_upd [simp]:
  "nlink_of (db\<lparr>db_journal := js\<rparr>) i = nlink_of db i"
  "nlink_of (db\<lparr>db_dirs := ds\<rparr>) i = nlink_of db i"
  "nlink_of (db\<lparr>db_tombs := ts\<rparr>) i = nlink_of db i"
  "nlink_of (db\<lparr>db_last_rev := n\<rparr>) i = nlink_of db i"
  by (simp_all add: nlink_of_def)

lemma Link_Commit:
  assumes "Link_tx E from to s a g db = Inr (out, db')"
  obtains je js rv x d where
    "rv = Suc (db_last_rev db)" "out = Commit (Suc (nlink_of db (mf_inode x))) je rv"
    "parent_ok db to" "resolveKind db to = nodeAbsent" "tbl_get mf_path (db_manifests db) from = Some x"
    "to \<notin> tbl_keys mf_path (db_manifests db)"
    "d = dir_default (fst (splitParentName to)) (snd (splitParentName to))" "de_key d \<notin> tbl_keys de_key (db_dirs db)"
    "journal_grows (db_journal db) js"
    "db' = db\<lparr>db_last_rev := rv, db_manifests := stamp_inode rv (mf_inode x) (db_manifests db @ [x\<lparr>mf_path := to, mf_rev := rv\<rparr>]),
       db_tombs := tbl_delete (\<lambda>t. tb_path t = to) (db_tombs db), db_dirs := db_dirs db @ [d], db_journal := js\<rparr>"
proof -
  let ?rv = "Suc (db_last_rev db)" and ?d = "dir_default (fst (splitParentName to)) (snd (splitParentName to))"
  from assms obtain x where x: "tbl_get mf_path (db_manifests db) from = Some x"
    by (auto simp: Link_tx_def)
  let ?rows = "stamp_inode ?rv (mf_inode x) (db_manifests db @ [x\<lparr>mf_path := to, mf_rev := ?rv\<rparr>])"
  let ?db1 = "db\<lparr>db_last_rev := ?rv, db_manifests := ?rows,
      db_tombs := tbl_delete (\<lambda>t. tb_path t = to) (db_tombs db), db_dirs := db_dirs db @ [?d]\<rparr>"
  from assms x obtain je where c: "parent_ok db to" "resolveKind db to = nodeAbsent"
    "to \<notin> tbl_keys mf_path (db_manifests db)" "de_key ?d \<notin> tbl_keys de_key (db_dirs db)"
    "journal_if E s a g SessionOpCreate to None (Some (mf_version x)) '''' ?db1 = Inr (je, db')"
    "out = Commit (nlink_of db' (mf_inode x)) je ?rv"
    by (auto simp: Link_tx_def restamp_inode_def)
  from c(5) obtain js where js: "db' = ?db1\<lparr>db_journal := js\<rparr>" "journal_grows (db_journal db) js"
    by (rule journal_if_Inr) auto
  have "nlink_of db' (mf_inode x) = Suc (nlink_of db (mf_inode x))"
    unfolding js(1) nlink_of_def tbl_count_def
    by (simp add: tbl_update_def filter_map o_def if_distrib cong: if_cong)
  with c js x show thesis by (intro that [of ?rv x je ?d js]) simp_all
qed

lemma inode_data_stamp [simp]: "inode_data (r\<lparr>mf_rev := rv\<rparr>) = inode_data r"
  by (simp add: inode_data_def)

lemma alias_ok_stamp [simp]:
  assumes "alias_ok rows"
  shows "alias_ok (stamp_inode rv i rows)"
  using assms
proof (rule alias_ok_update)
  fix r r' assume "r \<in> set rows" "r' \<in> set rows" "mf_inode r = i" "mf_inode r' = i"
  then show "inode_data (r\<lparr>mf_rev := rv\<rparr>) = inode_data (r'\<lparr>mf_rev := rv\<rparr>)"
    using alias_data [OF assms, of r' r] by simp
qed simp

lemma inode_blobs_stamp [simp]: "inode_blobs (stamp_inode rv i rows) = inode_blobs rows"
  unfolding inode_blobs_def set_tbl_update image_image by (rule image_cong) auto

lemma live_refs_stamp [simp]: "live_refs (stamp_inode rv i rows) h = live_refs rows h"
  by (rule live_refs_cong) simp

lemma rows_ok_stamp [simp]: "rows_ok rows n \<Longrightarrow> rows_ok (stamp_inode rv i rows) n"
  by (rule rows_ok_update) (simp_all add: row_ok_def)

lemma mf_rev_stamp: "mf_rev ` set (stamp_inode rv i rows) \<subseteq> insert rv (mf_rev ` set rows)"
  by auto

lemma Link_inv:
  assumes inv: "db_inv db" and run: "Link_tx E from to s a g db = Inr (out, db')"
  shows "db_inv db'"
  using run
proof (rule Link_Commit)
  fix je js rv d and x :: manifest_row
  let ?n = "x\<lparr>mf_path := to, mf_rev := rv\<rparr>" and ?rows = "db_manifests db"
  assume c: "rv = Suc (db_last_rev db)" "tbl_get mf_path ?rows from = Some x" "to \<notin> tbl_keys mf_path ?rows"
    "d = dir_default (fst (splitParentName to)) (snd (splitParentName to))" "de_key d \<notin> tbl_keys de_key (db_dirs db)"
    "journal_grows (db_journal db) js"
    "db' = db\<lparr>db_last_rev := rv, db_manifests := stamp_inode rv (mf_inode x) (?rows @ [?n]),
       db_tombs := tbl_delete (\<lambda>t. tb_path t = to) (db_tombs db), db_dirs := db_dirs db @ [d], db_journal := js\<rparr>"
  have x: "x \<in> set ?rows" using c(2) by (auto dest: tbl_get_SomeD)
  have n: "inode_data ?n = inode_data x" "mf_inode ?n = mf_inode x" "mf_chunks ?n = mf_chunks x"
    by (simp_all add: inode_data_def)
  have "keys_ok db'"
    using inv c(3,5,7) journal_grows_distinct [OF c(6)] by (auto simp: db_inv_def keys_ok_def)
  moreover have "alias_ok (?rows @ [?n])"
    using alias_data [OF db_invD(5) [OF inv] x] n by (intro alias_ok_append db_invD(5) [OF inv]) auto
  then have "alias_ok (db_manifests db')" by (simp add: c(7))
  moreover have "revs_ok db'"
    using db_invD(6) [OF inv]
  proof (rule revs_ok_step)
    show "rev_set db' \<subseteq> insert 0 (insert (Suc (db_last_rev db)) (rev_set db))"
      unfolding c(7) using c(1,4) by (intro rev_set_step) (auto simp: dir_default_def)
  qed (simp_all add: c(1,7))
  moreover have "rows_ok (db_manifests db') (db_next_inode db')"
    using db_invD(7) [OF inv] rows_okD [OF db_invD(7) [OF inv] x] c(7) by (simp add: row_ok_def)
  moreover have "inode_blobs (?rows @ [?n]) = inode_blobs ?rows"
    using x n by (auto simp: inode_blobs_def)
  then have "live_refs (?rows @ [?n]) h = live_refs ?rows h" for h by (rule live_refs_cong)
  then have "refs_ok db'"
    using db_invD(8) [OF inv] c(7) by (simp add: refs_ok_def)
  ultimately show ?thesis by (simp add: db_inv_def)
qed

interpretation link: store_op "Link_tx E src dst s a g" for E src dst s a g
proof
  fix db v je rv db'
  assume run: "Link_tx E src dst s a g db = Inr (Commit v je rv, db')"
  show "db_inv db'" if "db_inv db" using Link_inv [OF that run] .
  show "rv = Suc (db_last_rev db) \<and> db_last_rev db' = rv"
    using run by (auto elim!: Link_Commit)
qed

section \<open>Delete\<close>

lemma deleteSpecialNode_Commit:
  "deleteSpecialNode_tx E p db = Inr (out, db') \<longleftrightarrow>
     p \<in> tbl_keys sn_path (db_specials db) \<and> out = Commit () None (Suc (db_last_rev db)) \<and>
     db' = db\<lparr>db_specials := tbl_delete (\<lambda>r. sn_path r = p) (db_specials db), db_dirs := drop_dir p (db_dirs db),
       db_last_rev := Suc (db_last_rev db),
       db_tombs := tomb_upsert p (Suc (db_last_rev db)) (e_now_tomb E) (db_tombs db)\<rparr>"
  by (auto simp: deleteSpecialNode_tx_def)

lemma deleteSymlink_Commit:
  "deleteSymlink_tx E p db = Inr (out, db') \<longleftrightarrow>
     p \<in> tbl_keys sl_path (db_symlinks db) \<and> out = Commit () None (Suc (db_last_rev db)) \<and>
     db' = db\<lparr>db_symlinks := tbl_delete (\<lambda>r. sl_path r = p) (db_symlinks db), db_dirs := drop_dir p (db_dirs db),
       db_last_rev := Suc (db_last_rev db),
       db_tombs := tomb_upsert p (Suc (db_last_rev db)) (e_now_tomb E) (db_tombs db)\<rparr>"
  by (auto simp: deleteSymlink_tx_def)

lemma delete_alias_tx_Inr:
  "delete_alias_tx n i p db = Inr (q, db') \<Longrightarrow> db' = db"
  by (auto simp: delete_alias_tx_def split: if_splits)

lemma Delete_Commit:
  assumes "Delete_tx E p n s a g db = Inr (out, db')"
  obtains je js cks rv x cs where
    "rv = Suc (db_last_rev db)" "out = Commit () je rv"
    "tbl_get mf_path (db_manifests db) p = Some x" "mf_version x = n" "unpackChunks (mf_chunks x) = Some cs"
    "journal_grows (db_journal db) js"
    "nlink_of db (mf_inode x) = 1 \<Longrightarrow> applyChunkRefDelta (chunkRefDelta cs []) (db_chunks db) = Some cks"
    "nlink_of db (mf_inode x) \<noteq> 1 \<Longrightarrow> cks = db_chunks db"
    "db' = db\<lparr>db_journal := js, db_chunks := cks,
       db_manifests := (if 1 < nlink_of db (mf_inode x) then stamp_inode rv (mf_inode x) else id)
          (tbl_delete (\<lambda>r. mf_path r = p) (db_manifests db)),
       db_dirs := drop_dir p (db_dirs db), db_last_rev := rv, db_tombs := tomb_upsert p rv (e_now_tomb E) (db_tombs db)\<rparr>"
proof -
  from assms obtain x cs where x: "tbl_get mf_path (db_manifests db) p = Some x" "mf_version x = n"
      "unpackChunks (mf_chunks x) = Some cs"
    by (auto simp: Delete_tx_def)
  let ?nl = "nlink_of db (mf_inode x)" and ?rv = "Suc (db_last_rev db)"
  from assms x obtain je db1 db2 where j:
    "(if s = '''' then tx_return None
      else tx_bind (delete_alias_tx ?nl (mf_inode x) p) (\<lambda>ali.
           journal_if E s a g SessionOpDelete p (Some (prior_manifest p (Some x) cs)) None ali)) db = Inr (je, db1)"
    and w1: "tx_when (?nl = 1) (refs_tx (chunkRefDelta cs [])) db1 = Inr ((), db2)"
    and w2: "tx_when (1 < ?nl) (tx_exec (restamp_inode (Suc (db_last_rev db2)) (mf_inode x)))
      (db2\<lparr>db_manifests := tbl_delete (\<lambda>r. mf_path r = p) (db_manifests db2), db_dirs := drop_dir p (db_dirs db2),
        db_last_rev := Suc (db_last_rev db2), db_tombs := tomb_upsert p (Suc (db_last_rev db2)) (e_now_tomb E) (db_tombs db2)\<rparr>)
      = Inr ((), db')"
    and out2: "out = Commit () je (Suc (db_last_rev db2))"
    by (auto simp: Delete_tx_def simp del: tx_when_Inr tx_if_Inr)
  from w1 obtain cks where ck: "?nl = 1 \<longrightarrow> applyChunkRefDelta (chunkRefDelta cs []) (db_chunks db1) = Some cks"
      "?nl \<noteq> 1 \<longrightarrow> cks = db_chunks db1" and db2: "db2 = db1\<lparr>db_chunks := cks\<rparr>"
    by (cases "?nl = 1") auto
  have out: "out = Commit () je (Suc (db_last_rev db1))" using out2 db2 by simp
  have db': "db' = db1\<lparr>db_chunks := cks,
       db_manifests := (if 1 < ?nl then stamp_inode (Suc (db_last_rev db1)) (mf_inode x) else id)
          (tbl_delete (\<lambda>r. mf_path r = p) (db_manifests db1)),
       db_dirs := drop_dir p (db_dirs db1), db_last_rev := Suc (db_last_rev db1),
       db_tombs := tomb_upsert p (Suc (db_last_rev db1)) (e_now_tomb E) (db_tombs db1)\<rparr>"
    using w2 db2 by (cases "1 < ?nl") (simp_all add: restamp_inode_def)
  obtain js where js: "db1 = db\<lparr>db_journal := js\<rparr>" "journal_grows (db_journal db) js"
  proof (cases "s = ''''")
    case True
    with j show thesis by (intro that [of "db_journal db"]) (auto simp: journal_grows_def)
  next
    case False
    with j obtain ali where "journal_if E s a g SessionOpDelete p (Some (prior_manifest p (Some x) cs)) None ali db = Inr (je, db1)"
      by (auto dest: delete_alias_tx_Inr)
    then show thesis by (rule journal_if_Inr) (use that in auto)
  qed
  show thesis
    using ck out db' js x by (intro that [of ?rv je x cs js cks]) simp_all
qed

lemma alias_ok_delete [simp]: "alias_ok rows \<Longrightarrow> alias_ok (tbl_delete P rows)"
  unfolding alias_ok_def by simp

text \<open>Removing the row of a path, giving up the content with the last name of an inode.\<close>

lemma live_refs_delete_row:
  assumes "alias_ok rows" "distinct (map mf_path rows)" "x \<in> set rows" "mf_path x = p"
  shows "live_refs (tbl_delete (\<lambda>r. mf_path r = p) rows) h =
    live_refs rows h - (if tbl_count (\<lambda>r. mf_inode r = mf_inode x) rows = 1 then refs (chunks_of (mf_chunks x)) h else 0)"
proof (cases "tbl_count (\<lambda>r. mf_inode r = mf_inode x) rows = 1")
  case True
  have "\<forall>y\<in>set rows. mf_inode y = mf_inode x \<longrightarrow> mf_path y = mf_path x"
    using nlink_one_only [OF assms(2) True assms(3) refl] by auto
  from live_refs_delete_last [OF assms(3,2) this, of h] True assms(4) show ?thesis by simp
next
  case False
  have "tbl_count (\<lambda>r. mf_inode r = mf_inode x) rows \<noteq> 0" using assms(3) by auto
  with False have "1 < tbl_count (\<lambda>r. mf_inode r = mf_inode x) rows" by linarith
  then obtain y where "y \<in> set rows" "mf_inode y = mf_inode x" "mf_path y \<noteq> mf_path x"
    using nlink_more_other [OF assms(2) _ assms(3) refl] by metis
  then have "inode_blobs (tbl_delete (\<lambda>r. mf_path r = p) rows) = inode_blobs rows"
    using inode_blobs_delete_shared [OF assms(1,3) _ _ _ assms(2)] assms(4) by simp
  from live_refs_cong [OF this] False show ?thesis by simp
qed

text \<open>The reference counts after the row of \<open>x\<close> is gone and its content given up as \<^verbatim>\<open>Delete\<close> does.\<close>

lemma refs_after_row_delete:
  assumes inv: "db_inv db" and x: "x \<in> set (db_manifests db)" "mf_path x = p" "unpackChunks (mf_chunks x) = Some cs"
    and one: "nlink_of db (mf_inode x) = 1 \<Longrightarrow> applyChunkRefDelta (chunkRefDelta cs []) (db_chunks db) = Some cks"
    and more: "nlink_of db (mf_inode x) \<noteq> 1 \<Longrightarrow> cks = db_chunks db"
  shows "distinct (map ck_hash cks)"
    and "refcount_of cks h = int (live_refs (tbl_delete (\<lambda>r. mf_path r = p) (db_manifests db)) h)"
proof -
  let ?rows = "db_manifests db"
  note del = live_refs_delete_row [OF db_invD(5) [OF inv] db_invD(1) [OF inv] x(1,2), of h]
  have "distinct (map ck_hash cks) \<and> refcount_of cks h = int (live_refs (tbl_delete (\<lambda>r. mf_path r = p) ?rows) h)"
  proof (cases "nlink_of db (mf_inode x) = 1")
    case True
    have "chunks_of (mf_chunks x) = cs" by (simp add: chunks_of_def x(3))
    moreover have "refs cs h \<le> live_refs ?rows h"
      using live_refs_mono [OF x(1), of h] calculation by simp
    ultimately show ?thesis
      using refs_ok_apply(1) [OF inv one [OF True]] refs_ok_apply(2) [OF inv one [OF True], of h] del True
      by (simp add: nlink_of_def)
  next
    case False
    then show ?thesis
      using more db_invD(2,8) [OF inv] del by (simp add: nlink_of_def)
  qed
  then show "distinct (map ck_hash cks)"
    and "refcount_of cks h = int (live_refs (tbl_delete (\<lambda>r. mf_path r = p) (db_manifests db)) h)"
    by auto
qed

lemma Delete_inv:
  assumes inv: "db_inv db" and run: "Delete_tx E p n s a g db = Inr (out, db')"
  shows "db_inv db'"
  using run
proof (rule Delete_Commit)
  fix je js cks rv cs and x :: manifest_row
  let ?del = "tbl_delete (\<lambda>r. mf_path r = p) (db_manifests db)"
  let ?rows' = "(if 1 < nlink_of db (mf_inode x) then stamp_inode rv (mf_inode x) else id) ?del"
  assume c: "rv = Suc (db_last_rev db)" "tbl_get mf_path (db_manifests db) p = Some x" "unpackChunks (mf_chunks x) = Some cs"
    "journal_grows (db_journal db) js"
    "nlink_of db (mf_inode x) = 1 \<Longrightarrow> applyChunkRefDelta (chunkRefDelta cs []) (db_chunks db) = Some cks"
    "nlink_of db (mf_inode x) \<noteq> 1 \<Longrightarrow> cks = db_chunks db"
    "db' = db\<lparr>db_journal := js, db_chunks := cks, db_manifests := ?rows', db_dirs := drop_dir p (db_dirs db),
       db_last_rev := rv, db_tombs := tomb_upsert p rv (e_now_tomb E) (db_tombs db)\<rparr>"
  have x: "x \<in> set (db_manifests db)" "mf_path x = p" using c(2) by (auto dest: tbl_get_SomeD)
  note refs = refs_after_row_delete [OF inv x c(3) c(5,6)]
  have "keys_ok db'"
    using inv c(7) journal_grows_distinct [OF c(4)] refs(1) by (simp add: db_inv_def keys_ok_def)
  moreover have "alias_ok (db_manifests db')"
    using db_invD(5) [OF inv] c(7) by simp
  moreover have "revs_ok db'"
    using db_invD(6) [OF inv]
  proof (rule revs_ok_step)
    show "rev_set db' \<subseteq> insert 0 (insert (Suc (db_last_rev db)) (rev_set db))"
      unfolding c(7) using c(1) de_rev_drop_dir [of p "db_dirs db"] tb_rev_upsert [of p rv "e_now_tomb E" "db_tombs db"]
      by (intro rev_set_step) (auto split: if_splits)
  qed (simp_all add: c(1,7))
  moreover have "rows_ok (db_manifests db') (db_next_inode db')"
    using rows_ok_delete [OF db_invD(7) [OF inv]] c(7) by simp
  moreover have "refs_ok db'"
    using refs(2) c(7) by (simp add: refs_ok_def)
  ultimately show ?thesis by (simp add: db_inv_def)
qed

lemma deleteSpecialNode_inv:
  assumes "db_inv db" "deleteSpecialNode_tx E p db = Inr (out, db')"
  shows "db_inv db'"
proof -
  from assms(2) have db': "db' = db\<lparr>db_specials := tbl_delete (\<lambda>r. sn_path r = p) (db_specials db),
      db_dirs := drop_dir p (db_dirs db), db_last_rev := Suc (db_last_rev db),
      db_tombs := tomb_upsert p (Suc (db_last_rev db)) (e_now_tomb E) (db_tombs db)\<rparr>"
    by (simp add: deleteSpecialNode_Commit)
  have "rev_set db' \<subseteq> insert 0 (insert (Suc (db_last_rev db)) (rev_set db))"
    unfolding db' using de_rev_drop_dir [of p "db_dirs db"] tb_rev_upsert [of p "Suc (db_last_rev db)" "e_now_tomb E" "db_tombs db"]
    by (intro rev_set_step) auto
  then have "revs_ok db'" using revs_ok_step [OF db_invD(6) [OF assms(1)]] db' by simp
  with assms(1) db' show ?thesis by (simp add: db_inv_def keys_ok_def refs_ok_def)
qed

lemma deleteSymlink_inv:
  assumes "db_inv db" "deleteSymlink_tx E p db = Inr (out, db')"
  shows "db_inv db'"
proof -
  from assms(2) have db': "db' = db\<lparr>db_symlinks := tbl_delete (\<lambda>r. sl_path r = p) (db_symlinks db),
      db_dirs := drop_dir p (db_dirs db), db_last_rev := Suc (db_last_rev db),
      db_tombs := tomb_upsert p (Suc (db_last_rev db)) (e_now_tomb E) (db_tombs db)\<rparr>"
    by (simp add: deleteSymlink_Commit)
  have "rev_set db' \<subseteq> insert 0 (insert (Suc (db_last_rev db)) (rev_set db))"
    unfolding db' using de_rev_drop_dir [of p "db_dirs db"] tb_rev_upsert [of p "Suc (db_last_rev db)" "e_now_tomb E" "db_tombs db"]
    by (intro rev_set_step) auto
  then have "revs_ok db'" using revs_ok_step [OF db_invD(6) [OF assms(1)]] db' by simp
  with assms(1) db' show ?thesis by (simp add: db_inv_def keys_ok_def refs_ok_def)
qed

interpretation del_special: store_op "deleteSpecialNode_tx E p" for E p
  by unfold_locales (blast intro: deleteSpecialNode_inv, simp add: deleteSpecialNode_Commit)

interpretation del_symlink: store_op "deleteSymlink_tx E p" for E p
  by unfold_locales (blast intro: deleteSymlink_inv, simp add: deleteSymlink_Commit)

interpretation del_manifest: store_op "Delete_tx E p n s a g" for E p n s a g
proof
  fix db v je rv db'
  assume run: "Delete_tx E p n s a g db = Inr (Commit v je rv, db')"
  show "db_inv db'" if "db_inv db" using Delete_inv [OF that run] .
  show "rv = Suc (db_last_rev db) \<and> db_last_rev db' = rv"
    using run by (auto elim!: Delete_Commit)
qed

end
