(* ===== verification/Manifest_Meta.thy ===== *)
theory Manifest_Meta
  imports Manifest_Laws
begin

text \<open>
  Directories, symlinks, special nodes and metadata updates of manifests.go: \<open>DirCreate\<close>,
  \<open>DirRemove\<close>, \<open>Symlink\<close>, \<open>Mknod\<close>, \<open>SetMode\<close>, \<open>SetOwner\<close>, \<open>SetAtime\<close>, \<open>RegisterDir\<close>, the queries
  \<open>ListChildren\<close>, \<open>IsDir\<close>, \<open>DirInfo\<close>, \<open>Readlink\<close>, \<open>SymlinkInfo\<close>, \<open>SpecialNodeInfo\<close>, and the
  \<^verbatim>\<open>WithLeaseCheck\<close> wrappers around the journalled mutations. Every mutation is shown to keep
  \<open>db_inv\<close> and to allocate one revision (the interpretations of \<open>store_op\<close>).
\<close>

unbundle bit_operations_syntax

section \<open>Lease check\<close>

definition sessionMountPrefix :: string where
  "sessionMountPrefix = ''mount:''"

definition validateSessionIDForLease :: "string \<Rightarrow> string \<Rightarrow> store_error + unit" where
  "validateSessionIDForLease session activeLeaseHex =
     (if session = '''' then Inr ()
      else if activeLeaseHex = '''' then Inl ErrNoActiveLease
      else if session \<noteq> sessionMountPrefix @ activeLeaseHex then Inl ErrSessionMismatch
      else Inr ())"

definition PutWithLeaseCheck ::
  "env \<Rightarrow> string \<Rightarrow> nat \<Rightarrow> Manifest \<Rightarrow> string \<Rightarrow> string \<Rightarrow> string \<Rightarrow> string \<Rightarrow> mstore \<Rightarrow> (store_error + nat) \<times> mstore" where
  "PutWithLeaseCheck E p expected mf s a g lease st =
     (case validateSessionIDForLease s lease of
        Inl e \<Rightarrow> (Inl e, st) | Inr _ \<Rightarrow> Put E p expected mf s a g st)"

definition LinkWithLeaseCheck ::
  "env \<Rightarrow> string \<Rightarrow> string \<Rightarrow> string \<Rightarrow> string \<Rightarrow> string \<Rightarrow> string \<Rightarrow> mstore \<Rightarrow> (store_error + nat) \<times> mstore" where
  "LinkWithLeaseCheck E from to s a g lease st =
     (case validateSessionIDForLease s lease of
        Inl e \<Rightarrow> (Inl e, st) | Inr _ \<Rightarrow> Link E from to s a g st)"

definition DeleteWithLeaseCheck ::
  "env \<Rightarrow> string \<Rightarrow> nat \<Rightarrow> string \<Rightarrow> string \<Rightarrow> string \<Rightarrow> string \<Rightarrow> mstore \<Rightarrow> (store_error + unit) \<times> mstore" where
  "DeleteWithLeaseCheck E p expected s a g lease st =
     (case validateSessionIDForLease s lease of
        Inl e \<Rightarrow> (Inl e, st) | Inr _ \<Rightarrow> Delete E p expected s a g st)"

section \<open>Special node kinds\<close>

definition sIFMT :: "32 word" where "sIFMT = 0xF000"
definition sIFIFO :: "32 word" where "sIFIFO = 0x1000"
definition sIFCHR :: "32 word" where "sIFCHR = 0x2000"
definition sIFBLK :: "32 word" where "sIFBLK = 0x6000"
definition sIFSOCK :: "32 word" where "sIFSOCK = 0xC000"

text \<open>The permission bits, \<^verbatim>\<open>0o7777\<close>.\<close>

definition perm_mask :: "32 word" where "perm_mask = 0xFFF"

definition specialNodeKind :: "32 word \<Rightarrow> string" where
  "specialNodeKind mode =
     (let t = mode AND sIFMT
      in if t = sIFIFO then ''fifo'' else if t = sIFSOCK then ''socket''
         else if t = sIFCHR then ''chardev'' else if t = sIFBLK then ''blockdev'' else '''')"

section \<open>Directories\<close>

definition RegisterDir :: "string \<Rightarrow> string \<Rightarrow> tenant_db \<Rightarrow> tenant_db" where
  "RegisterDir parent name db = db\<lparr>db_dirs := tbl_insert de_key (dir_default parent name) (db_dirs db)\<rparr>"

text \<open>SQLite's \<^verbatim>\<open>LENGTH\<close> of a text counts characters.\<close>

function sql_length :: "string \<Rightarrow> nat" where
  "sql_length [] = 0"
| "sql_length (c # cs) = Suc (sql_length (sql_skip (c # cs)))"
  by pat_completeness auto
termination
  by (relation "measure length")
    (use length_sql_skip [of "c # cs" for c cs] in \<open>auto simp: less_Suc_eq_le length_dropWhile_less\<close>)

record DirChild =
  dc_name :: string
  dc_isDir :: bool
  dc_kind :: string
  dc_mode :: "32 word"
  dc_size :: "64 word"
  dc_uid :: "32 word"
  dc_gid :: "32 word"
  dc_atime :: int
  dc_inode :: nat
  dc_nlink :: nat
  dc_mtime :: int
  dc_version :: nat
  dc_target :: string

definition list_child :: "tenant_db \<Rightarrow> dir_row \<Rightarrow> DirChild" where
  "list_child db d =
     (let mf = tbl_get mf_path (db_manifests db) (de_full d);
          sl = tbl_get sl_path (db_symlinks db) (de_full d);
          kind = (if mf \<noteq> None then ''file'' else if sl \<noteq> None then ''symlink'' else ''dir'')
      in \<lparr> dc_name = de_name d, dc_isDir = (kind = ''dir''), dc_kind = kind,
           dc_mode = (case mf of Some r \<Rightarrow> mf_mode r | None \<Rightarrow> case sl of Some r \<Rightarrow> sl_mode r | None \<Rightarrow> de_mode d),
           dc_size = (case mf of Some r \<Rightarrow> mf_size r
                      | None \<Rightarrow> case sl of Some r \<Rightarrow> of_nat (sql_length (sl_target r)) | None \<Rightarrow> 0),
           dc_uid = (case mf of Some r \<Rightarrow> mf_uid r | None \<Rightarrow> case sl of Some r \<Rightarrow> sl_uid r | None \<Rightarrow> de_uid d),
           dc_gid = (case mf of Some r \<Rightarrow> mf_gid r | None \<Rightarrow> case sl of Some r \<Rightarrow> sl_gid r | None \<Rightarrow> de_gid d),
           dc_atime = (case mf of Some r \<Rightarrow> mf_atime r | None \<Rightarrow> case sl of Some r \<Rightarrow> sl_atime r | None \<Rightarrow> de_atime d),
           dc_inode = (case mf of Some r \<Rightarrow> mf_inode r | None \<Rightarrow> 0),
           dc_nlink = (case mf of Some r \<Rightarrow> nlink_of db (mf_inode r) | None \<Rightarrow> 1),
           dc_mtime = (case mf of Some r \<Rightarrow> mf_mtime r | None \<Rightarrow> case sl of Some r \<Rightarrow> sl_mtime r | None \<Rightarrow> de_mtime d),
           dc_version = (case mf of Some r \<Rightarrow> mf_version r | None \<Rightarrow> 0),
           dc_target = (case sl of Some r \<Rightarrow> sl_target r | None \<Rightarrow> '''') \<rparr>)"

definition ListChildren :: "tenant_db \<Rightarrow> string \<Rightarrow> DirChild list" where
  "ListChildren db parent =
     map (list_child db) (sort_key de_name (filter (\<lambda>d. de_parent d = parent) (db_dirs db)))"

definition IsDir :: "tenant_db \<Rightarrow> string \<Rightarrow> bool" where
  "IsDir db p \<longleftrightarrow> tbl_has de_parent (db_dirs db) p \<or> snd (splitParentName p) = '''' \<or>
     tbl_has de_key (db_dirs db) (splitParentName p)"

definition DirInfo :: "tenant_db \<Rightarrow> string \<Rightarrow> (32 word \<times> 32 word \<times> 32 word \<times> int) option" where
  "DirInfo db p =
     (if snd (splitParentName p) = '''' then Some (493, 0, 0, 0)
      else case tbl_get de_key (db_dirs db) (splitParentName p) of
             None \<Rightarrow> if IsDir db p then Some (493, 0, 0, 0) else None
           | Some d \<Rightarrow> Some (if de_mode d = 0 then 493 else de_mode d, de_uid d, de_gid d, de_atime d))"

definition DirCreate_tx :: "string \<Rightarrow> 32 word \<Rightarrow> unit outcome tx" where
  "DirCreate_tx p mode =
     tx_seq (checkParentExists p)
    (tx_bind (tx_read (\<lambda>db. tbl_has de_key (db_dirs db) (splitParentName p))) (\<lambda>existing.
     tx_seq (tx_guard (\<not> existing) ErrAlreadyExists)
    (tx_bind allocChangeRevTx (\<lambda>rv.
     tx_seq (insert_dir_new ((dir_default (fst (splitParentName p)) (snd (splitParentName p)))
               \<lparr>de_mode := (if mode = 0 then 493 else mode) AND perm_mask, de_rev := rv\<rparr>))
    (tx_seq (clearTombstoneTx p)
    (tx_return (Commit () None rv)))))))"

definition DirCreate :: "env \<Rightarrow> string \<Rightarrow> 32 word \<Rightarrow> mstore \<Rightarrow> (store_error + unit) \<times> mstore" where
  "DirCreate E p mode st = run_store E (DirCreate_tx p mode) st"

definition DirRemove_tx :: "env \<Rightarrow> string \<Rightarrow> unit outcome tx" where
  "DirRemove_tx E p =
     tx_bind (tx_read (\<lambda>db. tbl_has de_key (db_dirs db) (splitParentName p))) (\<lambda>ok.
     tx_seq (tx_guard ok ErrManifestNotFound)
    (tx_bind (tx_read (\<lambda>db. tbl_count (\<lambda>d. de_parent d = p) (db_dirs db))) (\<lambda>children.
     tx_seq (tx_guard (children = 0) ErrNotEmpty)
    (tx_bind (tx_read (\<lambda>db. tbl_count (\<lambda>r. sql_glob (p @ ''/*'') (mf_path r)) (db_manifests db))) (\<lambda>files.
     tx_seq (tx_guard (files = 0) ErrNotEmpty)
    (tx_seq (tx_exec (\<lambda>db. db\<lparr>db_dirs := tbl_delete (\<lambda>d. de_key d = splitParentName p) (db_dirs db)\<rparr>))
    (tx_bind allocChangeRevTx (\<lambda>rv.
     tx_seq (upsertTombstoneTx (e_now_tomb E) p rv)
    (tx_return (Commit () None rv))))))))))"

definition DirRemove :: "env \<Rightarrow> string \<Rightarrow> mstore \<Rightarrow> (store_error + unit) \<times> mstore" where
  "DirRemove E p st = run_store E (DirRemove_tx E p) st"

section \<open>Symlinks and special nodes\<close>

definition insert_symlink_new :: "symlink_row \<Rightarrow> unit tx" where
  "insert_symlink_new r =
     tx_try (\<lambda>db. case tbl_insert_new ErrUniqueKey sl_path r (db_symlinks db) of
                   Inl e \<Rightarrow> Inl e | Inr rows \<Rightarrow> Inr (db\<lparr>db_symlinks := rows\<rparr>))"

definition insert_special_new :: "special_row \<Rightarrow> unit tx" where
  "insert_special_new r =
     tx_try (\<lambda>db. case tbl_insert_new ErrUniqueKey sn_path r (db_specials db) of
                   Inl e \<Rightarrow> Inl e | Inr rows \<Rightarrow> Inr (db\<lparr>db_specials := rows\<rparr>))"

definition Symlink_tx :: "string \<Rightarrow> string \<Rightarrow> 32 word \<Rightarrow> unit outcome tx" where
  "Symlink_tx p target mode0 =
     (let mode = (if mode0 = 0 then 511 else mode0) AND perm_mask; (parent, name) = splitParentName p
      in tx_seq (tx_guard (name \<noteq> '''') ErrBadArgument)
    (tx_seq (checkParentExists p)
    (tx_bind (tx_read (\<lambda>db. tbl_has de_key (db_dirs db) (parent, name))) (\<lambda>existing.
     tx_seq (tx_guard (\<not> existing) ErrAlreadyExists)
    (tx_bind allocChangeRevTx (\<lambda>rv.
     tx_seq (insert_symlink_new \<lparr> sl_path = p, sl_target = target, sl_mode = mode, sl_mtime = 0,
               sl_uid = 0, sl_gid = 0, sl_atime = 0, sl_rev = rv \<rparr>)
    (tx_seq (insert_dir_new ((dir_default parent name)\<lparr>de_mode := mode\<rparr>))
    (tx_seq (clearTombstoneTx p)
    (tx_return (Commit () None rv))))))))))"

definition Symlink :: "env \<Rightarrow> string \<Rightarrow> string \<Rightarrow> 32 word \<Rightarrow> mstore \<Rightarrow> (store_error + unit) \<times> mstore" where
  "Symlink E p target mode st = run_store E (Symlink_tx p target mode) st"

definition Readlink :: "tenant_db \<Rightarrow> string \<Rightarrow> store_error + string" where
  "Readlink db p = (case tbl_get sl_path (db_symlinks db) p of
      None \<Rightarrow> Inl ErrManifestNotFound | Some r \<Rightarrow> Inr (sl_target r))"

definition SymlinkInfo :: "tenant_db \<Rightarrow> string \<Rightarrow> (string \<times> 32 word \<times> 32 word \<times> 32 word \<times> int) option" where
  "SymlinkInfo db p = map_option (\<lambda>r. (sl_target r, if sl_mode r = 0 then 511 else sl_mode r, sl_uid r, sl_gid r, sl_atime r))
     (tbl_get sl_path (db_symlinks db) p)"

definition Mknod_tx :: "string \<Rightarrow> 32 word \<Rightarrow> 64 word \<Rightarrow> unit outcome tx" where
  "Mknod_tx p mode rdev =
     (let (parent, name) = splitParentName p
      in tx_seq (tx_guard (name \<noteq> '''') ErrBadArgument)
    (tx_seq (checkParentExists p)
    (tx_bind (tx_read (\<lambda>db. tbl_has de_key (db_dirs db) (parent, name))) (\<lambda>existing.
     tx_seq (tx_guard (\<not> existing) ErrAlreadyExists)
    (tx_bind allocChangeRevTx (\<lambda>rv.
     tx_seq (tx_guard (bind_uint64 rdev) ErrUint64HighBit)
    (tx_seq (insert_special_new \<lparr> sn_path = p, sn_mode = mode, sn_rdev = rdev, sn_mtime = 0,
               sn_uid = 0, sn_gid = 0, sn_atime = 0, sn_rev = rv \<rparr>)
    (tx_seq (insert_dir_new ((dir_default parent name)\<lparr>de_mode := mode AND perm_mask\<rparr>))
    (tx_seq (clearTombstoneTx p)
    (tx_return (Commit () None rv)))))))))))"

definition Mknod :: "env \<Rightarrow> string \<Rightarrow> 32 word \<Rightarrow> 64 word \<Rightarrow> mstore \<Rightarrow> (store_error + unit) \<times> mstore" where
  "Mknod E p mode rdev st = run_store E (Mknod_tx p mode rdev) st"

definition SpecialNodeInfo ::
  "tenant_db \<Rightarrow> string \<Rightarrow> (32 word \<times> 64 word \<times> 32 word \<times> 32 word \<times> int \<times> string) option" where
  "SpecialNodeInfo db p = map_option (\<lambda>r. (sn_mode r, sn_rdev r, sn_uid r, sn_gid r, sn_atime r, specialNodeKind (sn_mode r)))
     (tbl_get sn_path (db_specials db) p)"

section \<open>chmod, chown, utimensat\<close>

text \<open>
  The fan-out the three setters share: a symlink, else a special node, else a registered
  directory; the root succeeds without a change.
\<close>

definition set_meta_rest ::
  "(symlink_row \<Rightarrow> symlink_row) \<Rightarrow> (special_row \<Rightarrow> special_row) \<Rightarrow> (dir_row \<Rightarrow> dir_row) \<Rightarrow> string \<Rightarrow> nat \<Rightarrow> unit outcome tx" where
  "set_meta_rest fs fn fd p rv =
     tx_bind (tx_read (\<lambda>db. tbl_has sl_path (db_symlinks db) p)) (\<lambda>is_sl.
     if is_sl then
       tx_seq (tx_exec (\<lambda>db. db\<lparr>db_symlinks := tbl_update (\<lambda>r. sl_path r = p) (\<lambda>r. (fs r)\<lparr>sl_rev := rv\<rparr>) (db_symlinks db)\<rparr>))
         (tx_return (Commit () None rv))
     else tx_bind (tx_read (\<lambda>db. tbl_has sn_path (db_specials db) p)) (\<lambda>is_sn.
     if is_sn then
       tx_seq (tx_exec (\<lambda>db. db\<lparr>db_specials := tbl_update (\<lambda>r. sn_path r = p) (\<lambda>r. (fn r)\<lparr>sn_rev := rv\<rparr>) (db_specials db)\<rparr>))
         (tx_return (Commit () None rv))
     else if snd (splitParentName p) = '''' then tx_return (NoCommit ())
     else tx_bind (tx_read (\<lambda>db. tbl_has de_key (db_dirs db) (splitParentName p))) (\<lambda>is_dir.
       tx_seq (tx_exec (\<lambda>db. db\<lparr>db_dirs := tbl_update (\<lambda>d. de_key d = splitParentName p) (\<lambda>d. (fd d)\<lparr>de_rev := rv\<rparr>) (db_dirs db)\<rparr>))
      (tx_seq (tx_guard is_dir ErrManifestNotFound)
       (tx_return (Commit () None rv))))))"

definition SetMode_tx :: "string \<Rightarrow> 32 word \<Rightarrow> unit outcome tx" where
  "SetMode_tx p mode =
     tx_bind allocChangeRevTx
       (set_meta_rest (\<lambda>r. r\<lparr>sl_mode := mode\<rparr>)
          (\<lambda>r. r\<lparr>sn_mode := (sn_mode r AND sIFMT) OR (mode AND perm_mask)\<rparr>) (\<lambda>d. d\<lparr>de_mode := mode\<rparr>) p)"

definition SetMode ::
  "env \<Rightarrow> string \<Rightarrow> 32 word \<Rightarrow> string \<Rightarrow> string \<Rightarrow> string \<Rightarrow> string \<Rightarrow> mstore \<Rightarrow> (store_error + unit) \<times> mstore" where
  "SetMode E p mode0 s a g lease st =
     (let mode = mode0 AND perm_mask
      in case Get (ms_db st) p of
           Inr mf \<Rightarrow> (case PutWithLeaseCheck E p (m_version mf) (mf\<lparr>m_mode := mode\<rparr>) s a g lease st of
                       (Inl e, st') \<Rightarrow> (Inl e, st') | (Inr _, st') \<Rightarrow> (Inr (), st'))
         | Inl e \<Rightarrow> if e \<noteq> ErrManifestNotFound then (Inl e, st)
                    else run_store E (SetMode_tx p mode) st)"

text \<open>
  \<^verbatim>\<open>SetOwner\<close> and \<^verbatim>\<open>SetAtime\<close> first try the names of the file's inode.
\<close>

definition set_meta_tx ::
  "(manifest_row \<Rightarrow> manifest_row) \<Rightarrow> (symlink_row \<Rightarrow> symlink_row) \<Rightarrow> (special_row \<Rightarrow> special_row) \<Rightarrow> (dir_row \<Rightarrow> dir_row) \<Rightarrow>
   string \<Rightarrow> unit outcome tx" where
  "set_meta_tx ff fs fn fd p =
     tx_bind allocChangeRevTx (\<lambda>rv.
     tx_bind (tx_read (\<lambda>db. tbl_get mf_path (db_manifests db) p)) (\<lambda>file.
     case file of
       Some x \<Rightarrow> tx_seq (tx_exec (\<lambda>db. db\<lparr>db_manifests := tbl_update (\<lambda>r. mf_inode r = mf_inode x) (\<lambda>r. (ff r)\<lparr>mf_rev := rv\<rparr>) (db_manifests db)\<rparr>))
                   (tx_return (Commit () None rv))
     | None \<Rightarrow> set_meta_rest fs fn fd p rv))"

definition SetOwner_tx :: "string \<Rightarrow> 32 word \<Rightarrow> 32 word \<Rightarrow> unit outcome tx" where
  "SetOwner_tx p u g = set_meta_tx (\<lambda>r. r\<lparr>mf_uid := u, mf_gid := g\<rparr>) (\<lambda>r. r\<lparr>sl_uid := u, sl_gid := g\<rparr>)
     (\<lambda>r. r\<lparr>sn_uid := u, sn_gid := g\<rparr>) (\<lambda>d. d\<lparr>de_uid := u, de_gid := g\<rparr>) p"

definition SetOwner :: "env \<Rightarrow> string \<Rightarrow> 32 word \<Rightarrow> 32 word \<Rightarrow> mstore \<Rightarrow> (store_error + unit) \<times> mstore" where
  "SetOwner E p u g st = run_store E (SetOwner_tx p u g) st"

definition SetAtime_tx :: "string \<Rightarrow> int \<Rightarrow> unit outcome tx" where
  "SetAtime_tx p t = set_meta_tx (\<lambda>r. r\<lparr>mf_atime := t\<rparr>) (\<lambda>r. r\<lparr>sl_atime := t\<rparr>)
     (\<lambda>r. r\<lparr>sn_atime := t\<rparr>) (\<lambda>d. d\<lparr>de_atime := t\<rparr>) p"

definition SetAtime :: "env \<Rightarrow> string \<Rightarrow> int \<Rightarrow> mstore \<Rightarrow> (store_error + unit) \<times> mstore" where
  "SetAtime E p t st = run_store E (SetAtime_tx p t) st"

section \<open>The invariant\<close>

lemma insert_symlink_new_Inr [simp]:
  "insert_symlink_new r db = Inr (u, db') \<longleftrightarrow>
     sl_path r \<notin> tbl_keys sl_path (db_symlinks db) \<and> db' = db\<lparr>db_symlinks := db_symlinks db @ [r]\<rparr>"
  by (auto simp: insert_symlink_new_def tbl_insert_new_def)

lemma insert_special_new_Inr [simp]:
  "insert_special_new r db = Inr (u, db') \<longleftrightarrow>
     sn_path r \<notin> tbl_keys sn_path (db_specials db) \<and> db' = db\<lparr>db_specials := db_specials db @ [r]\<rparr>"
  by (auto simp: insert_special_new_def tbl_insert_new_def)

text \<open>A step that leaves files, chunks and the journal alone.\<close>

lemma db_inv_meta:
  assumes "db_inv db"
    and "db_chunks db' = db_chunks db" "db_manifests db' = db_manifests db" "db_journal db' = db_journal db"
      "db_next_inode db' = db_next_inode db" "db_pruned_before db' = db_pruned_before db"
      "db_last_rev db' = Suc (db_last_rev db)"
    and "distinct (map de_key (db_dirs db'))" "distinct (map sl_path (db_symlinks db'))"
      "distinct (map sn_path (db_specials db'))" "distinct (map tb_path (db_tombs db'))"
    and "rev_set db' \<subseteq> insert 0 (insert (Suc (db_last_rev db)) (rev_set db))"
  shows "db_inv db'"
  using assms revs_ok_step [OF db_invD(6) [OF assms(1)] assms(7,6,12)]
  by (simp add: db_inv_def keys_ok_def refs_ok_def)

lemma DirCreate_Commit:
  "DirCreate_tx p mode db = Inr (out, db') \<longleftrightarrow>
     parent_ok db p \<and> splitParentName p \<notin> tbl_keys de_key (db_dirs db) \<and>
     out = Commit () None (Suc (db_last_rev db)) \<and>
     db' = db\<lparr>db_last_rev := Suc (db_last_rev db),
       db_dirs := db_dirs db @ [(dir_default (fst (splitParentName p)) (snd (splitParentName p)))
         \<lparr>de_mode := (if mode = 0 then 493 else mode) AND perm_mask, de_rev := Suc (db_last_rev db)\<rparr>],
       db_tombs := tbl_delete (\<lambda>t. tb_path t = p) (db_tombs db)\<rparr>"
  by (auto simp: DirCreate_tx_def dir_default_def)

lemma DirRemove_Commit:
  "DirRemove_tx E p db = Inr (out, db') \<longleftrightarrow>
     splitParentName p \<in> tbl_keys de_key (db_dirs db) \<and> p \<notin> tbl_keys de_parent (db_dirs db) \<and>
     (\<forall>r\<in>set (db_manifests db). \<not> sql_glob (p @ ''/*'') (mf_path r)) \<and>
     out = Commit () None (Suc (db_last_rev db)) \<and>
     db' = db\<lparr>db_dirs := tbl_delete (\<lambda>d. de_key d = splitParentName p) (db_dirs db), db_last_rev := Suc (db_last_rev db),
       db_tombs := tomb_upsert p (Suc (db_last_rev db)) (e_now_tomb E) (db_tombs db)\<rparr>"
  by (auto simp: DirRemove_tx_def image_iff)

lemma Symlink_Commit:
  assumes "Symlink_tx p target mode db = Inr (out, db')"
  obtains m rv where "rv = Suc (db_last_rev db)" "m = (if mode = 0 then 511 else mode) AND perm_mask"
    "snd (splitParentName p) \<noteq> ''''" "parent_ok db p" "splitParentName p \<notin> tbl_keys de_key (db_dirs db)"
    "p \<notin> tbl_keys sl_path (db_symlinks db)" "out = Commit () None rv"
    "db' = db\<lparr>db_last_rev := rv,
       db_symlinks := db_symlinks db @ [\<lparr> sl_path = p, sl_target = target, sl_mode = m, sl_mtime = 0,
               sl_uid = 0, sl_gid = 0, sl_atime = 0, sl_rev = rv \<rparr>],
       db_dirs := db_dirs db @ [(dir_default (fst (splitParentName p)) (snd (splitParentName p)))\<lparr>de_mode := m\<rparr>],
       db_tombs := tbl_delete (\<lambda>t. tb_path t = p) (db_tombs db)\<rparr>"
  using assms by (auto simp: Symlink_tx_def Let_def split: prod.splits)

lemma Mknod_Commit:
  assumes "Mknod_tx p mode rdev db = Inr (out, db')"
  obtains rv where "rv = Suc (db_last_rev db)" "bind_uint64 rdev"
    "snd (splitParentName p) \<noteq> ''''" "parent_ok db p" "splitParentName p \<notin> tbl_keys de_key (db_dirs db)"
    "p \<notin> tbl_keys sn_path (db_specials db)" "out = Commit () None rv"
    "db' = db\<lparr>db_last_rev := rv,
       db_specials := db_specials db @ [\<lparr> sn_path = p, sn_mode = mode, sn_rdev = rdev, sn_mtime = 0,
               sn_uid = 0, sn_gid = 0, sn_atime = 0, sn_rev = rv \<rparr>],
       db_dirs := db_dirs db @ [(dir_default (fst (splitParentName p)) (snd (splitParentName p)))\<lparr>de_mode := mode AND perm_mask\<rparr>],
       db_tombs := tbl_delete (\<lambda>t. tb_path t = p) (db_tombs db)\<rparr>"
  using assms by (auto simp: Mknod_tx_def Let_def split: prod.splits)

lemma keys_okD:
  assumes "db_inv db"
  shows "distinct (map de_key (db_dirs db))" "distinct (map sl_path (db_symlinks db))"
    "distinct (map sn_path (db_specials db))" "distinct (map tb_path (db_tombs db))"
  using assms by (auto simp: db_inv_def keys_ok_def)

interpretation dir_create: store_op "DirCreate_tx p mode" for p mode
proof
  fix db v je rv db'
  assume run: "DirCreate_tx p mode db = Inr (Commit v je rv, db')"
  then show "rv = Suc (db_last_rev db) \<and> db_last_rev db' = rv" by (simp add: DirCreate_Commit)
  show "db_inv db'" if inv: "db_inv db"
  proof (rule db_inv_meta [OF inv])
    show "rev_set db' \<subseteq> insert 0 (insert (Suc (db_last_rev db)) (rev_set db))"
      using run by (intro rev_set_step) (auto simp: DirCreate_Commit)
  qed (use run keys_okD [OF inv] in \<open>auto simp: DirCreate_Commit dir_default_def\<close>)
qed

interpretation dir_remove: store_op "DirRemove_tx E p" for E p
proof
  fix db v je rv db'
  assume run: "DirRemove_tx E p db = Inr (Commit v je rv, db')"
  then show "rv = Suc (db_last_rev db) \<and> db_last_rev db' = rv" by (simp add: DirRemove_Commit)
  show "db_inv db'" if inv: "db_inv db"
  proof (rule db_inv_meta [OF inv])
    show "rev_set db' \<subseteq> insert 0 (insert (Suc (db_last_rev db)) (rev_set db))"
      using run tb_rev_upsert [of p "Suc (db_last_rev db)" "e_now_tomb E" "db_tombs db"]
      by (intro rev_set_step) (auto simp: DirRemove_Commit)
  qed (use run keys_okD [OF inv] in \<open>simp_all add: DirRemove_Commit\<close>)
qed

lemma splitParentName_key [simp]:
  "de_key ((dir_default (fst (splitParentName p)) (snd (splitParentName p)))\<lparr>de_mode := m\<rparr>) = splitParentName p"
  by (simp add: dir_default_def)

interpretation symlink: store_op "Symlink_tx p target mode" for p target mode
proof
  fix db v je rv db'
  assume run: "Symlink_tx p target mode db = Inr (Commit v je rv, db')"
  then show "rv = Suc (db_last_rev db) \<and> db_last_rev db' = rv" by (auto elim!: Symlink_Commit)
  show "db_inv db'" if inv: "db_inv db"
    using run
  proof (rule Symlink_Commit)
    fix m rv
    assume c: "rv = Suc (db_last_rev db)" "splitParentName p \<notin> tbl_keys de_key (db_dirs db)"
      "p \<notin> tbl_keys sl_path (db_symlinks db)"
      and db': "db' = db\<lparr>db_last_rev := rv,
       db_symlinks := db_symlinks db @ [\<lparr> sl_path = p, sl_target = target, sl_mode = m, sl_mtime = 0,
               sl_uid = 0, sl_gid = 0, sl_atime = 0, sl_rev = rv \<rparr>],
       db_dirs := db_dirs db @ [(dir_default (fst (splitParentName p)) (snd (splitParentName p)))\<lparr>de_mode := m\<rparr>],
       db_tombs := tbl_delete (\<lambda>t. tb_path t = p) (db_tombs db)\<rparr>"
    have "rev_set db' \<subseteq> insert 0 (insert (Suc (db_last_rev db)) (rev_set db))"
      unfolding db' c(1) by (intro rev_set_step) (auto simp: dir_default_def)
    then show ?thesis
      by (intro db_inv_meta [OF inv]) (use c keys_okD [OF inv] in \<open>simp_all add: db' dir_default_def\<close>)
  qed
qed

interpretation mknod: store_op "Mknod_tx p mode rdev" for p mode rdev
proof
  fix db v je rv db'
  assume run: "Mknod_tx p mode rdev db = Inr (Commit v je rv, db')"
  then show "rv = Suc (db_last_rev db) \<and> db_last_rev db' = rv" by (auto elim!: Mknod_Commit)
  show "db_inv db'" if inv: "db_inv db"
    using run
  proof (rule Mknod_Commit)
    fix rv
    assume c: "rv = Suc (db_last_rev db)" "splitParentName p \<notin> tbl_keys de_key (db_dirs db)"
      "p \<notin> tbl_keys sn_path (db_specials db)"
      and db': "db' = db\<lparr>db_last_rev := rv,
       db_specials := db_specials db @ [\<lparr> sn_path = p, sn_mode = mode, sn_rdev = rdev, sn_mtime = 0,
               sn_uid = 0, sn_gid = 0, sn_atime = 0, sn_rev = rv \<rparr>],
       db_dirs := db_dirs db @ [(dir_default (fst (splitParentName p)) (snd (splitParentName p)))\<lparr>de_mode := mode AND perm_mask\<rparr>],
       db_tombs := tbl_delete (\<lambda>t. tb_path t = p) (db_tombs db)\<rparr>"
    have "rev_set db' \<subseteq> insert 0 (insert (Suc (db_last_rev db)) (rev_set db))"
      unfolding db' c(1) by (intro rev_set_step) (auto simp: dir_default_def)
    then show ?thesis
      by (intro db_inv_meta [OF inv]) (use c keys_okD [OF inv] in \<open>simp_all add: db' dir_default_def\<close>)
  qed
qed

lemma set_meta_rest_Commit:
  assumes "set_meta_rest fs fn fd p rv db = Inr (out, db')"
  shows "out = NoCommit () \<and> db' = db \<and> snd (splitParentName p) = '''' \<or>
    out = Commit () None rv \<and>
    (p \<in> tbl_keys sl_path (db_symlinks db) \<and>
       db' = db\<lparr>db_symlinks := tbl_update (\<lambda>r. sl_path r = p) (\<lambda>r. (fs r)\<lparr>sl_rev := rv\<rparr>) (db_symlinks db)\<rparr> \<or>
     p \<in> tbl_keys sn_path (db_specials db) \<and>
       db' = db\<lparr>db_specials := tbl_update (\<lambda>r. sn_path r = p) (\<lambda>r. (fn r)\<lparr>sn_rev := rv\<rparr>) (db_specials db)\<rparr> \<or>
     splitParentName p \<in> tbl_keys de_key (db_dirs db) \<and>
       db' = db\<lparr>db_dirs := tbl_update (\<lambda>d. de_key d = splitParentName p) (\<lambda>d. (fd d)\<lparr>de_rev := rv\<rparr>) (db_dirs db)\<rparr>)"
  using assms unfolding set_meta_rest_def by (simp del: tx_bind_Inr add: tx_bind_def tx_read_def split: if_splits)

lemma set_meta_rest_inv:
  assumes "set_meta_rest fs fn fd p (Suc (db_last_rev db)) (db\<lparr>db_last_rev := Suc (db_last_rev db)\<rparr>) = Inr (Commit v je rv, db')"
    and inv: "db_inv db" and keep: "\<And>r. sl_path (fs r) = sl_path r" "\<And>r. sn_path (fn r) = sn_path r" "\<And>d. de_key (fd d) = de_key d"
  shows "db_inv db'"
proof -
  let ?n = "Suc (db_last_rev db)"
  from set_meta_rest_Commit [OF assms(1)] consider
    (sl) "db' = db\<lparr>db_last_rev := ?n, db_symlinks := tbl_update (\<lambda>r. sl_path r = p) (\<lambda>r. (fs r)\<lparr>sl_rev := ?n\<rparr>) (db_symlinks db)\<rparr>"
  | (sn) "db' = db\<lparr>db_last_rev := ?n, db_specials := tbl_update (\<lambda>r. sn_path r = p) (\<lambda>r. (fn r)\<lparr>sn_rev := ?n\<rparr>) (db_specials db)\<rparr>"
  | (de) "db' = db\<lparr>db_last_rev := ?n, db_dirs := tbl_update (\<lambda>d. de_key d = splitParentName p) (\<lambda>d. (fd d)\<lparr>de_rev := ?n\<rparr>) (db_dirs db)\<rparr>"
    by auto
  then show ?thesis
  proof cases
    case sl
    have "rev_set db' \<subseteq> insert 0 (insert ?n (rev_set db))"
      unfolding sl by (intro rev_set_step) auto
    then show ?thesis by (intro db_inv_meta [OF inv]) (use keys_okD [OF inv] keep in \<open>simp_all add: sl\<close>)
  next
    case sn
    have "rev_set db' \<subseteq> insert 0 (insert ?n (rev_set db))"
      unfolding sn by (intro rev_set_step) auto
    then show ?thesis by (intro db_inv_meta [OF inv]) (use keys_okD [OF inv] keep in \<open>simp_all add: sn\<close>)
  next
    case de
    have "rev_set db' \<subseteq> insert 0 (insert ?n (rev_set db))"
      unfolding de by (intro rev_set_step) auto
    then show ?thesis by (intro db_inv_meta [OF inv]) (use keys_okD [OF inv] keep in \<open>simp_all add: de\<close>)
  qed
qed

lemma set_meta_rest_rev:
  assumes "set_meta_rest fs fn fd p n (db\<lparr>db_last_rev := n\<rparr>) = Inr (Commit v je rv, db')"
  shows "rv = n \<and> db_last_rev db' = n"
  using set_meta_rest_Commit [OF assms] by auto

lemma set_meta_tx_Commit:
  assumes "set_meta_tx ff fs fn fd p db = Inr (out, db')"
  obtains (manifest) x where "tbl_get mf_path (db_manifests db) p = Some x" "out = Commit () None (Suc (db_last_rev db))"
    "db' = db\<lparr>db_last_rev := Suc (db_last_rev db), db_manifests := tbl_update (\<lambda>r. mf_inode r = mf_inode x)
       (\<lambda>r. (ff r)\<lparr>mf_rev := Suc (db_last_rev db)\<rparr>) (db_manifests db)\<rparr>"
  | (rest) "set_meta_rest fs fn fd p (Suc (db_last_rev db)) (db\<lparr>db_last_rev := Suc (db_last_rev db)\<rparr>) = Inr (out, db')"
  using assms by (cases "tbl_get mf_path (db_manifests db) p") (auto simp: set_meta_tx_def)

text \<open>Updating metadata of every name of an inode, content and version untouched.\<close>

lemma set_inode_inv:
  assumes inv: "db_inv db"
    and f: "\<And>r. mf_path (f r) = mf_path r" "\<And>r. mf_inode (f r) = mf_inode r" "\<And>r. mf_chunks (f r) = mf_chunks r"
      "\<And>r. mf_version (f r) = mf_version r" "\<And>r. mf_rev (f r) = Suc (db_last_rev db)"
      "\<And>r r'. inode_data r = inode_data r' \<Longrightarrow> inode_data (f r) = inode_data (f r')"
    and db': "db' = db\<lparr>db_last_rev := Suc (db_last_rev db), db_manifests := tbl_update (\<lambda>r. mf_inode r = i) f (db_manifests db)\<rparr>"
  shows "db_inv db'"
proof -
  let ?rows = "db_manifests db"
  have "keys_ok db'" using inv f(1) by (simp add: db' db_inv_def keys_ok_def)
  moreover have "alias_ok (db_manifests db')"
  proof -
    have "alias_ok (tbl_update (\<lambda>r. mf_inode r = i) f ?rows)"
      by (rule alias_ok_update [OF db_invD(5) [OF inv] f(2)])
        (rule f(6), rule alias_data [OF db_invD(5) [OF inv]], simp_all)
    then show ?thesis by (simp add: db')
  qed
  moreover have "rev_set db' \<subseteq> insert 0 (insert (Suc (db_last_rev db)) (rev_set db))"
    unfolding db' using f(5) by (intro rev_set_step) auto
  then have "revs_ok db'" by (intro revs_ok_step [OF db_invD(6) [OF inv]]) (simp_all add: db')
  moreover have "rows_ok (db_manifests db') (db_next_inode db')"
    unfolding db' using f by (auto intro!: rows_ok_update db_invD(7) [OF inv] simp: row_ok_def)
  moreover have rows': "db_manifests db' = tbl_update (\<lambda>r. mf_inode r = i) f ?rows" by (simp add: db')
  have "inode_blobs (db_manifests db') = inode_blobs ?rows"
    unfolding rows' inode_blobs_def set_tbl_update image_image by (rule image_cong) (simp_all add: f)
  then have "live_refs (db_manifests db') h = live_refs ?rows h" for h by (rule live_refs_cong)
  then have "refs_ok db'" using db_invD(8) [OF inv] by (simp add: refs_ok_def db')
  ultimately show ?thesis by (simp add: db_inv_def)
qed

interpretation set_mode: store_op "SetMode_tx p mode" for p mode
proof
  fix db v je rv db'
  assume "SetMode_tx p mode db = Inr (Commit v je rv, db')"
  then have run: "set_meta_rest (\<lambda>r. r\<lparr>sl_mode := mode\<rparr>)
      (\<lambda>r. r\<lparr>sn_mode := (sn_mode r AND sIFMT) OR (mode AND perm_mask)\<rparr>) (\<lambda>d. d\<lparr>de_mode := mode\<rparr>) p
      (Suc (db_last_rev db)) (db\<lparr>db_last_rev := Suc (db_last_rev db)\<rparr>) = Inr (Commit v je rv, db')"
    by (simp add: SetMode_tx_def)
  show "db_inv db'" if "db_inv db" by (rule set_meta_rest_inv [OF run that]) simp_all
  show "rv = Suc (db_last_rev db) \<and> db_last_rev db' = rv" using set_meta_rest_rev [OF run] by simp
qed

interpretation set_owner: store_op "SetOwner_tx p u g" for p u g
proof
  fix db v je rv db'
  assume "SetOwner_tx p u g db = Inr (Commit v je rv, db')"
  then have run: "set_meta_tx (\<lambda>r. r\<lparr>mf_uid := u, mf_gid := g\<rparr>) (\<lambda>r. r\<lparr>sl_uid := u, sl_gid := g\<rparr>)
     (\<lambda>r. r\<lparr>sn_uid := u, sn_gid := g\<rparr>) (\<lambda>d. d\<lparr>de_uid := u, de_gid := g\<rparr>) p db = Inr (Commit v je rv, db')"
    by (simp add: SetOwner_tx_def)
  show "db_inv db'" if inv: "db_inv db"
    using run
  proof (cases rule: set_meta_tx_Commit)
    case (manifest x)
    show ?thesis by (rule set_inode_inv [OF inv _ _ _ _ _ _ manifest(3)]) (simp_all add: inode_data_def)
  next
    case rest
    then show ?thesis by (rule set_meta_rest_inv [OF _ inv]) simp_all
  qed
  show "rv = Suc (db_last_rev db) \<and> db_last_rev db' = rv"
    using run by (cases rule: set_meta_tx_Commit) (auto dest: set_meta_rest_rev)
qed

interpretation set_atime: store_op "SetAtime_tx p t" for p t
proof
  fix db v je rv db'
  assume "SetAtime_tx p t db = Inr (Commit v je rv, db')"
  then have run: "set_meta_tx (\<lambda>r. r\<lparr>mf_atime := t\<rparr>) (\<lambda>r. r\<lparr>sl_atime := t\<rparr>)
     (\<lambda>r. r\<lparr>sn_atime := t\<rparr>) (\<lambda>d. d\<lparr>de_atime := t\<rparr>) p db = Inr (Commit v je rv, db')"
    by (simp add: SetAtime_tx_def)
  show "db_inv db'" if inv: "db_inv db"
    using run
  proof (cases rule: set_meta_tx_Commit)
    case (manifest x)
    show ?thesis by (rule set_inode_inv [OF inv _ _ _ _ _ _ manifest(3)]) (simp_all add: inode_data_def)
  next
    case rest
    then show ?thesis by (rule set_meta_rest_inv [OF _ inv]) simp_all
  qed
  show "rv = Suc (db_last_rev db) \<and> db_last_rev db' = rv"
    using run by (cases rule: set_meta_tx_Commit) (auto dest: set_meta_rest_rev)
qed

end
