(* ===== verification/Manifest_Rename.thy ===== *)
theory Manifest_Rename
  imports Manifest_Meta
begin

text \<open>
  \<^verbatim>\<open>renameOpt\<close> of manifests.go, over every kind of node, with the helpers it is composed of:
  \<open>resolveRenameDestTx\<close> (the overwrite matrix), \<open>deleteDestTx\<close>, \<open>journalRenameTx\<close>,
  \<open>moveRenameSourceTx\<close>, \<open>reparentDescendantsTx\<close> and \<open>rewriteRenameDirEntriesTx\<close>.

  The prefix rewrite of a directory's descendants is modelled as the statements are written: an
  unescaped, case-folding \<^verbatim>\<open>LIKE\<close> selects the rows, \<^verbatim>\<open>substr\<close> cuts them by character position,
  and the table aborts on a duplicate key. The theory shows that a rename keeps \<open>db_inv\<close>.
\<close>

section \<open>Destination\<close>

definition dirIsEmpty :: "tenant_db \<Rightarrow> string \<Rightarrow> bool" where
  "dirIsEmpty db p \<longleftrightarrow>
     tbl_count (\<lambda>d. de_parent d = p) (db_dirs db) = 0 \<and>
     tbl_count (\<lambda>r. sql_glob (p @ ''/*'') (mf_path r)) (db_manifests db) = 0 \<and>
     tbl_count (\<lambda>r. sql_glob (p @ ''/*'') (sl_path r)) (db_symlinks db) = 0 \<and>
     tbl_count (\<lambda>r. sql_glob (p @ ''/*'') (sn_path r)) (db_specials db) = 0"

definition resolveRenameDestTx :: "string \<Rightarrow> nodeKind \<Rightarrow> bool \<Rightarrow> nat \<Rightarrow> (nodeKind \<times> nat) tx" where
  "resolveRenameDestTx to srcKind noReplace expectedTo =
     tx_bind (tx_read (\<lambda>db. resolveKind db to)) (\<lambda>dstKind.
     if dstKind = nodeAbsent then tx_return (dstKind, 0)
     else if noReplace then tx_fail ErrAlreadyExists
     else if srcKind = nodeDir \<and> dstKind \<noteq> nodeDir then tx_fail ErrNotDir
     else if srcKind \<noteq> nodeDir \<and> dstKind = nodeDir then tx_fail ErrIsDir
     else tx_bind (tx_read (\<lambda>db. srcKind = nodeDir \<longrightarrow> dirIsEmpty db to)) (\<lambda>empty.
     tx_seq (tx_guard empty ErrNotEmpty)
    (if dstKind = nodeRegular then
       tx_bind (tx_read (\<lambda>db. tbl_get mf_path (db_manifests db) to)) (\<lambda>row.
       tx_bind (tx_lift ErrBadArgument row) (\<lambda>r.
       tx_seq (tx_guard (expectedTo = 0 \<or> mf_version r = expectedTo) (ErrVersionConflict (Some (mf_version r))))
      (tx_return (dstKind, mf_version r))))
     else tx_return (dstKind, 0))))"

definition deleteDestTx :: "string \<Rightarrow> nodeKind \<Rightarrow> nat \<Rightarrow> unit tx" where
  "deleteDestTx to k rv =
     tx_seq
       (case k of
          nodeRegular \<Rightarrow>
            tx_bind (tx_read (\<lambda>db. tbl_get mf_path (db_manifests db) to)) (\<lambda>row.
            tx_bind (tx_lift ErrBadArgument row) (\<lambda>r.
            tx_bind (tx_read (\<lambda>db. nlink_of db (mf_inode r))) (\<lambda>nlink.
            tx_seq (tx_when (nlink = 1)
                     (tx_bind (tx_lift ErrUnpackChunks (unpackChunks (mf_chunks r)))
                        (\<lambda>dstChunks. refs_tx (chunkRefDelta dstChunks []))))
           (tx_seq (tx_exec (\<lambda>db. db\<lparr>db_manifests := tbl_delete (\<lambda>r. mf_path r = to) (db_manifests db)\<rparr>))
           (tx_when (1 < nlink) (tx_exec (restamp_inode rv (mf_inode r))))))))
        | nodeSymlink \<Rightarrow> tx_exec (\<lambda>db. db\<lparr>db_symlinks := tbl_delete (\<lambda>r. sl_path r = to) (db_symlinks db)\<rparr>)
        | nodeSpecial \<Rightarrow> tx_exec (\<lambda>db. db\<lparr>db_specials := tbl_delete (\<lambda>r. sn_path r = to) (db_specials db)\<rparr>)
        | _ \<Rightarrow> tx_return ())
       (removeDirEntryTx to)"

section \<open>Moving the source\<close>

definition rekey_manifests :: "(manifest_row \<Rightarrow> bool) \<Rightarrow> (manifest_row \<Rightarrow> manifest_row) \<Rightarrow> unit tx" where
  "rekey_manifests P f =
     tx_try (\<lambda>db. case tbl_rekey ErrUniqueKey mf_path P f (db_manifests db) of
                   Inl e \<Rightarrow> Inl e | Inr rows \<Rightarrow> Inr (db\<lparr>db_manifests := rows\<rparr>))"

definition rekey_symlinks :: "(symlink_row \<Rightarrow> bool) \<Rightarrow> (symlink_row \<Rightarrow> symlink_row) \<Rightarrow> unit tx" where
  "rekey_symlinks P f =
     tx_try (\<lambda>db. case tbl_rekey ErrUniqueKey sl_path P f (db_symlinks db) of
                   Inl e \<Rightarrow> Inl e | Inr rows \<Rightarrow> Inr (db\<lparr>db_symlinks := rows\<rparr>))"

definition rekey_specials :: "(special_row \<Rightarrow> bool) \<Rightarrow> (special_row \<Rightarrow> special_row) \<Rightarrow> unit tx" where
  "rekey_specials P f =
     tx_try (\<lambda>db. case tbl_rekey ErrUniqueKey sn_path P f (db_specials db) of
                   Inl e \<Rightarrow> Inl e | Inr rows \<Rightarrow> Inr (db\<lparr>db_specials := rows\<rparr>))"

definition rekey_dirs :: "(dir_row \<Rightarrow> bool) \<Rightarrow> (dir_row \<Rightarrow> dir_row) \<Rightarrow> unit tx" where
  "rekey_dirs P f =
     tx_try (\<lambda>db. case tbl_rekey ErrUniqueKey de_key P f (db_dirs db) of
                   Inl e \<Rightarrow> Inl e | Inr rows \<Rightarrow> Inr (db\<lparr>db_dirs := rows\<rparr>))"

text \<open>\<^verbatim>\<open>? || substr(path, ?)\<close>; the position is the byte length of the old prefix plus one.\<close>

definition reparent_path :: "string \<Rightarrow> string \<Rightarrow> string \<Rightarrow> string" where
  "reparent_path from to q = to @ sql_substr q (length from + 1)"

definition reparentDescendantsTx :: "int \<Rightarrow> string \<Rightarrow> string \<Rightarrow> nat \<Rightarrow> unit tx" where
  "reparentDescendantsTx now from to rv =
     (let hit = like_raw (from @ ''/%'')
      in tx_seq (tombstoneSubtreeTx now from rv)
        (tx_seq (rekey_manifests (\<lambda>r. hit (mf_path r)) (\<lambda>r. r\<lparr>mf_path := reparent_path from to (mf_path r), mf_rev := rv\<rparr>))
        (tx_seq (rekey_symlinks (\<lambda>r. hit (sl_path r)) (\<lambda>r. r\<lparr>sl_path := reparent_path from to (sl_path r), sl_rev := rv\<rparr>))
        (tx_seq (rekey_specials (\<lambda>r. hit (sn_path r)) (\<lambda>r. r\<lparr>sn_path := reparent_path from to (sn_path r), sn_rev := rv\<rparr>))
        (tx_seq (rekey_dirs (\<lambda>d. de_parent d = from) (\<lambda>d. d\<lparr>de_parent := to, de_rev := rv\<rparr>))
        (tx_seq (rekey_dirs (\<lambda>d. hit (de_parent d)) (\<lambda>d. d\<lparr>de_parent := reparent_path from to (de_parent d), de_rev := rv\<rparr>))
        (clearTombstoneSubtreeTx to)))))))"

definition moveRenameSourceTx :: "int \<Rightarrow> string \<Rightarrow> string \<Rightarrow> nodeKind \<Rightarrow> nat \<Rightarrow> nat \<Rightarrow> nat \<Rightarrow> unit tx" where
  "moveRenameSourceTx now from to srcKind newVersion inode rv =
     (case srcKind of
        nodeRegular \<Rightarrow>
          tx_seq (rekey_manifests (\<lambda>r. mf_path r = from) (\<lambda>r. r\<lparr>mf_path := to\<rparr>))
            (tx_exec (\<lambda>db. db\<lparr>db_manifests := tbl_update (\<lambda>r. mf_inode r = inode)
               (\<lambda>r. r\<lparr>mf_version := newVersion, mf_rev := rv\<rparr>) (db_manifests db)\<rparr>))
      | nodeSymlink \<Rightarrow> rekey_symlinks (\<lambda>r. sl_path r = from) (\<lambda>r. r\<lparr>sl_path := to, sl_rev := rv\<rparr>)
      | nodeSpecial \<Rightarrow> rekey_specials (\<lambda>r. sn_path r = from) (\<lambda>r. r\<lparr>sn_path := to, sn_rev := rv\<rparr>)
      | nodeDir \<Rightarrow> reparentDescendantsTx now from to rv
      | nodeAbsent \<Rightarrow> tx_return ())"

definition rewriteRenameDirEntriesTx :: "string \<Rightarrow> string \<Rightarrow> nodeKind \<Rightarrow> nat \<Rightarrow> unit tx" where
  "rewriteRenameDirEntriesTx from to srcKind rv =
     (let (toParent, toName) = splitParentName to
      in tx_bind (tx_read (\<lambda>db. if srcKind = nodeDir then tbl_get de_key (db_dirs db) (splitParentName from) else None)) (\<lambda>d.
         tx_seq (removeDirEntryTx from)
           (if toName = '''' then tx_return ()
            else if srcKind = nodeDir then
              (let (dMode, dUID, dGID, dAtime) =
                 (case d of None \<Rightarrow> (0, 0, 0, 0) | Some r \<Rightarrow> (de_mode r, de_uid r, de_gid r, de_atime r))
               in tx_exec (\<lambda>db. db\<lparr>db_dirs := tbl_upsert de_key
                    \<lparr> de_parent = toParent, de_name = toName, de_mode = dMode, de_mtime = 0, de_uid = dUID, de_gid = dGID,
                      de_atime = dAtime, de_rev = rv \<rparr>
                    (\<lambda>r. r\<lparr>de_mode := dMode, de_uid := dUID, de_gid := dGID, de_atime := dAtime, de_rev := rv\<rparr>)
                    (db_dirs db)\<rparr>))
            else insert_dir_entry to)))"

section \<open>Rename\<close>

definition samePathVersion :: "tenant_db \<Rightarrow> string \<Rightarrow> nodeKind \<Rightarrow> nat" where
  "samePathVersion db p kind =
     (if kind = nodeRegular then (case tbl_get mf_path (db_manifests db) p of Some r \<Rightarrow> mf_version r | None \<Rightarrow> 1) else 1)"

definition readRenameSourceTx :: "string \<Rightarrow> nat \<Rightarrow> manifest_row tx" where
  "readRenameSourceTx from expectedFrom =
     tx_bind (tx_read (\<lambda>db. tbl_get mf_path (db_manifests db) from)) (\<lambda>row.
     tx_bind (tx_lift ErrBadArgument row) (\<lambda>r.
     tx_seq (tx_guard (mf_version r = expectedFrom) (ErrVersionConflict (Some (mf_version r))))
    (tx_return r)))"

definition journalRenameTx ::
  "env \<Rightarrow> string \<Rightarrow> string \<Rightarrow> nat \<Rightarrow> manifest_row option \<Rightarrow> string \<Rightarrow> string \<Rightarrow> string \<Rightarrow>
   (nat \<times> SessionJournalEntry option) tx" where
  "journalRenameTx E from to dstVersion src s a g =
     (case src of
        None \<Rightarrow> tx_return (1, None)
      | Some r \<Rightarrow>
          if s = '''' then tx_return (Suc dstVersion, None)
          else tx_bind (tx_lift ErrUnpackChunks (unpackChunks (mf_chunks r))) (\<lambda>srcChunks.
               tx_bind (journalBeforeWrite E s a g SessionOpRename to
                  (Some \<lparr> m_path = from, m_inode = 0, m_nlink = 0, m_size = mf_size r, m_mode = mf_mode r,
                          m_mtime = mf_mtime r, m_version = mf_version r, m_chunks = srcChunks,
                          m_uid = mf_uid r, m_gid = mf_gid r, m_atime = mf_atime r \<rparr>)
                  (Some (Suc dstVersion)) from) (\<lambda>e.
               tx_return (Suc dstVersion, Some e))))"

definition same_inode :: "tenant_db \<Rightarrow> manifest_row option \<Rightarrow> nodeKind \<Rightarrow> string \<Rightarrow> bool" where
  "same_inode db src dstKind to =
     (case src of
        None \<Rightarrow> False
      | Some r \<Rightarrow> dstKind = nodeRegular \<and>
          (case tbl_get mf_path (db_manifests db) to of None \<Rightarrow> False | Some d \<Rightarrow> mf_inode d = mf_inode r))"

text \<open>Steps 6b to 11 of \<^verbatim>\<open>renameOpt\<close>, once everything has been checked.\<close>

definition rename_apply ::
  "env \<Rightarrow> string \<Rightarrow> string \<Rightarrow> nodeKind \<Rightarrow> nodeKind \<Rightarrow> nat \<Rightarrow> manifest_row option \<Rightarrow> string \<Rightarrow> string \<Rightarrow> string \<Rightarrow>
   nat outcome tx" where
  "rename_apply E from to srcKind dstKind dstVersion src s a g =
     tx_bind allocChangeRevTx (\<lambda>rv.
     tx_seq (tx_when (dstKind \<noteq> nodeAbsent) (deleteDestTx to dstKind rv))
    (tx_bind (journalRenameTx E from to dstVersion src s a g) (\<lambda>(newVersion, je).
     tx_seq (moveRenameSourceTx (e_now_tomb E) from to srcKind newVersion
               (case src of None \<Rightarrow> 0 | Some r \<Rightarrow> mf_inode r) rv)
    (tx_seq (rewriteRenameDirEntriesTx from to srcKind rv)
    (tx_seq (upsertTombstoneTx (e_now_tomb E) from rv)
    (tx_seq (clearTombstoneTx to)
    (tx_return (Commit newVersion je rv))))))))"

definition renameOpt_tx ::
  "env \<Rightarrow> string \<Rightarrow> string \<Rightarrow> nat \<Rightarrow> nat \<Rightarrow> bool \<Rightarrow> string \<Rightarrow> string \<Rightarrow> string \<Rightarrow> nat outcome tx" where
  "renameOpt_tx E from to expectedFrom expectedTo noReplace s a g =
     tx_bind (tx_read (\<lambda>db. resolveKind db from)) (\<lambda>srcKind.
     tx_seq (tx_guard (srcKind \<noteq> nodeAbsent) ErrManifestNotFound)
    (if from = to then tx_bind (tx_read (\<lambda>db. samePathVersion db from srcKind)) (\<lambda>v. tx_return (NoCommit v))
     else tx_bind (resolveRenameDestTx to srcKind noReplace expectedTo) (\<lambda>(dstKind, dstVersion).
     tx_seq (checkParentExists to)
    (tx_bind (if srcKind = nodeRegular then tx_bind (readRenameSourceTx from expectedFrom) (\<lambda>r. tx_return (Some r))
              else tx_return None) (\<lambda>src.
     tx_bind (tx_read (\<lambda>db. same_inode db src dstKind to)) (\<lambda>noop.
     if noop then tx_return (NoCommit (case src of None \<Rightarrow> 0 | Some r \<Rightarrow> mf_version r))
     else rename_apply E from to srcKind dstKind dstVersion src s a g))))))"

definition renameOpt ::
  "env \<Rightarrow> string \<Rightarrow> string \<Rightarrow> nat \<Rightarrow> nat \<Rightarrow> bool \<Rightarrow> string \<Rightarrow> string \<Rightarrow> string \<Rightarrow> mstore \<Rightarrow> (store_error + nat) \<times> mstore" where
  "renameOpt E from to expectedFrom expectedTo noReplace s a g st =
     (if s \<noteq> '''' \<and> a = '''' then (Inl ErrEmptyAllocation, st)
      else run_store E (renameOpt_tx E from to expectedFrom expectedTo noReplace s a g) st)"

definition Rename ::
  "env \<Rightarrow> string \<Rightarrow> string \<Rightarrow> nat \<Rightarrow> nat \<Rightarrow> string \<Rightarrow> string \<Rightarrow> string \<Rightarrow> mstore \<Rightarrow> (store_error + nat) \<times> mstore" where
  "Rename E from to expectedFrom expectedTo s a g st = renameOpt E from to expectedFrom expectedTo False s a g st"

definition RenameWithLeaseCheck ::
  "env \<Rightarrow> string \<Rightarrow> string \<Rightarrow> nat \<Rightarrow> nat \<Rightarrow> bool \<Rightarrow> string \<Rightarrow> string \<Rightarrow> string \<Rightarrow> string \<Rightarrow> mstore \<Rightarrow> (store_error + nat) \<times> mstore" where
  "RenameWithLeaseCheck E from to expectedFrom expectedTo noReplace s a g lease st =
     (case validateSessionIDForLease s lease of
        Inl e \<Rightarrow> (Inl e, st) | Inr _ \<Rightarrow> renameOpt E from to expectedFrom expectedTo noReplace s a g st)"

section \<open>The invariant, step by step\<close>

text \<open>
  A step of a transaction whose revision \<open>rv\<close> has been allocated. Steps compose, so the rename's
  invariant follows from that of its parts.
\<close>

definition keeps :: "nat \<Rightarrow> 'a tx \<Rightarrow> bool" where
  "keeps rv m \<longleftrightarrow> (\<forall>db u db'. db_inv db \<longrightarrow> db_last_rev db = rv \<longrightarrow> m db = Inr (u, db') \<longrightarrow>
     db_inv db' \<and> db_last_rev db' = rv)"

lemma keepsI:
  "(\<And>db u db'. db_inv db \<Longrightarrow> db_last_rev db = rv \<Longrightarrow> m db = Inr (u, db') \<Longrightarrow> db_inv db' \<and> db_last_rev db' = rv) \<Longrightarrow> keeps rv m"
  unfolding keeps_def by blast

lemma keepsD: "keeps rv m \<Longrightarrow> db_inv db \<Longrightarrow> db_last_rev db = rv \<Longrightarrow> m db = Inr (u, db') \<Longrightarrow> db_inv db' \<and> db_last_rev db' = rv"
  unfolding keeps_def by blast

lemma keeps_bind: "keeps rv m \<Longrightarrow> (\<And>v. keeps rv (f v)) \<Longrightarrow> keeps rv (tx_bind m f)"
  by (rule keepsI) (auto dest: keepsD)

lemma keeps_seq: "keeps rv m \<Longrightarrow> keeps rv k \<Longrightarrow> keeps rv (tx_seq m k)"
  by (rule keepsI) (auto dest: keepsD)

lemma keeps_when: "keeps rv m \<Longrightarrow> keeps rv (tx_when b m)"
  by (rule keepsI) (auto dest: keepsD split: if_splits)

lemma keeps_basic:
  "keeps rv (tx_return v)" "keeps rv (tx_read q)" "keeps rv (tx_guard b e)" "keeps rv (tx_lift e x)" "keeps rv (tx_fail e)"
  by (auto simp: keeps_def)

lemmas keeps_rules = keeps_bind keeps_seq keeps_when keeps_basic

subsection \<open>Tables without files\<close>

lemma revs_ok_ball:
  "revs_ok db \<longleftrightarrow> (\<forall>r\<in>set (db_manifests db). mf_rev r \<le> db_last_rev db) \<and> (\<forall>d\<in>set (db_dirs db). de_rev d \<le> db_last_rev db) \<and>
     (\<forall>r\<in>set (db_symlinks db). sl_rev r \<le> db_last_rev db) \<and> (\<forall>r\<in>set (db_specials db). sn_rev r \<le> db_last_rev db) \<and>
     (\<forall>t\<in>set (db_tombs db). tb_rev t \<le> db_last_rev db) \<and> db_pruned_before db \<le> Suc (db_last_rev db)"
  by (simp add: revs_ok_def rev_set_def ball_Un)

lemma inv_dirs:
  "db_inv db \<Longrightarrow> distinct (map de_key ds) \<Longrightarrow> \<forall>d\<in>set ds. de_rev d \<le> db_last_rev db \<Longrightarrow> db_inv (db\<lparr>db_dirs := ds\<rparr>)"
  by (simp add: db_inv_def keys_ok_def refs_ok_def revs_ok_ball)

lemma inv_symlinks:
  "db_inv db \<Longrightarrow> distinct (map sl_path ds) \<Longrightarrow> \<forall>d\<in>set ds. sl_rev d \<le> db_last_rev db \<Longrightarrow> db_inv (db\<lparr>db_symlinks := ds\<rparr>)"
  by (simp add: db_inv_def keys_ok_def refs_ok_def revs_ok_ball)

lemma inv_specials:
  "db_inv db \<Longrightarrow> distinct (map sn_path ds) \<Longrightarrow> \<forall>d\<in>set ds. sn_rev d \<le> db_last_rev db \<Longrightarrow> db_inv (db\<lparr>db_specials := ds\<rparr>)"
  by (simp add: db_inv_def keys_ok_def refs_ok_def revs_ok_ball)

lemma inv_tombs:
  "db_inv db \<Longrightarrow> distinct (map tb_path ts) \<Longrightarrow> \<forall>t\<in>set ts. tb_rev t \<le> db_last_rev db \<Longrightarrow> db_inv (db\<lparr>db_tombs := ts\<rparr>)"
  by (simp add: db_inv_def keys_ok_def refs_ok_def revs_ok_ball)

lemma inv_journal: "db_inv db \<Longrightarrow> journal_grows (db_journal db) js \<Longrightarrow> db_inv (db\<lparr>db_journal := js\<rparr>)"
  using journal_grows_distinct [of "db_journal db" js] by (auto simp: db_inv_def keys_ok_def refs_ok_def revs_ok_ball)

lemma inv_revs:
  assumes "db_inv db"
  shows "d \<in> set (db_dirs db) \<Longrightarrow> de_rev d \<le> db_last_rev db" "r \<in> set (db_symlinks db) \<Longrightarrow> sl_rev r \<le> db_last_rev db"
    "n \<in> set (db_specials db) \<Longrightarrow> sn_rev n \<le> db_last_rev db" "t \<in> set (db_tombs db) \<Longrightarrow> tb_rev t \<le> db_last_rev db"
    "m \<in> set (db_manifests db) \<Longrightarrow> mf_rev m \<le> db_last_rev db"
  using assms by (simp_all add: db_inv_def revs_ok_ball)

lemma keeps_removeDirEntry: "keeps rv (removeDirEntryTx p)"
proof (rule keepsI)
  fix db u db' assume "db_inv db" "db_last_rev db = rv" "removeDirEntryTx p db = Inr (u, db')"
  then show "db_inv db' \<and> db_last_rev db' = rv"
    using keys_okD inv_revs(1) [of db] by (auto intro!: inv_dirs dest: in_drop_dir)
qed

lemma keeps_insert_dir_entry: "keeps rv (insert_dir_entry p)"
proof (rule keepsI)
  fix db u db' assume "db_inv db" "db_last_rev db = rv" "insert_dir_entry p db = Inr (u, db')"
  then show "db_inv db' \<and> db_last_rev db' = rv"
    using keys_okD inv_revs(1) [of db] by (auto intro!: inv_dirs dest!: in_add_dir simp: dir_default_def)
qed

lemma keeps_upsertTombstone: "keeps rv (upsertTombstoneTx now p rv)"
proof (rule keepsI)
  fix db u db' assume "db_inv db" "db_last_rev db = rv" "upsertTombstoneTx now p rv db = Inr (u, db')"
  then show "db_inv db' \<and> db_last_rev db' = rv"
    using keys_okD inv_revs(4) [of db] by (auto intro!: inv_tombs simp: set_tomb_upsert)
qed

lemma keeps_clearTombstone: "keeps rv (clearTombstoneTx p)"
proof (rule keepsI)
  fix db u db' assume "db_inv db" "db_last_rev db = rv" "clearTombstoneTx p db = Inr (u, db')"
  then show "db_inv db' \<and> db_last_rev db' = rv"
    using keys_okD inv_revs(4) [of db] by (auto intro!: inv_tombs)
qed

lemma keeps_clearTombstoneSubtree: "keeps rv (clearTombstoneSubtreeTx p)"
proof (rule keepsI)
  fix db u db' assume "db_inv db" "db_last_rev db = rv" "clearTombstoneSubtreeTx p db = Inr (u, db')"
  then show "db_inv db' \<and> db_last_rev db' = rv"
    using keys_okD inv_revs(4) [of db] by (auto intro!: inv_tombs simp: clearTombstoneSubtreeTx_def)
qed

lemma keeps_tombstoneSubtree: "keeps rv (tombstoneSubtreeTx now p rv)"
proof (rule keepsI)
  fix db u db' assume "db_inv db" "db_last_rev db = rv" "tombstoneSubtreeTx now p rv db = Inr (u, db')"
  then show "db_inv db' \<and> db_last_rev db' = rv"
    using keys_okD inv_revs(4) [of db] by (auto intro!: inv_tombs simp: tombstoneSubtreeTx_def set_tomb_all)
qed

lemma keeps_journal: "keeps rv (journalBeforeWrite E s a g op p prior after_v from)"
proof (rule keepsI)
  fix db u db' assume "db_inv db" "db_last_rev db = rv" "journalBeforeWrite E s a g op p prior after_v from db = Inr (u, db')"
  then show "db_inv db' \<and> db_last_rev db' = rv"
    by (auto elim!: journalBeforeWrite_Inr intro!: inv_journal simp: journal_grows_def journal_row_of_def)
qed

lemma keeps_checkParent: "keeps rv (checkParentExists p)"
  by (rule keepsI) simp

subsection \<open>Rows that move\<close>

lemma rekey_symlinks_Inr:
  assumes "rekey_symlinks P f db = Inr (u, db')"
  shows "db' = db\<lparr>db_symlinks := tbl_update P f (db_symlinks db)\<rparr>"
    and "distinct (map sl_path (db_symlinks db)) \<Longrightarrow> distinct (map sl_path (db_symlinks db'))"
  using assms tbl_rekey_rows tbl_rekey_distinct
  by (fastforce simp: rekey_symlinks_def split: sum.splits)+

lemma rekey_specials_Inr:
  assumes "rekey_specials P f db = Inr (u, db')"
  shows "db' = db\<lparr>db_specials := tbl_update P f (db_specials db)\<rparr>"
    and "distinct (map sn_path (db_specials db)) \<Longrightarrow> distinct (map sn_path (db_specials db'))"
  using assms tbl_rekey_rows tbl_rekey_distinct
  by (fastforce simp: rekey_specials_def split: sum.splits)+

lemma rekey_dirs_Inr:
  assumes "rekey_dirs P f db = Inr (u, db')"
  shows "db' = db\<lparr>db_dirs := tbl_update P f (db_dirs db)\<rparr>"
    and "distinct (map de_key (db_dirs db)) \<Longrightarrow> distinct (map de_key (db_dirs db'))"
  using assms tbl_rekey_rows tbl_rekey_distinct
  by (fastforce simp: rekey_dirs_def split: sum.splits)+

lemma rekey_manifests_Inr:
  assumes "rekey_manifests P f db = Inr (u, db')"
  shows "db' = db\<lparr>db_manifests := tbl_update P f (db_manifests db)\<rparr>"
    and "distinct (map mf_path (db_manifests db)) \<Longrightarrow> distinct (map mf_path (db_manifests db'))"
  using assms tbl_rekey_rows tbl_rekey_distinct
  by (fastforce simp: rekey_manifests_def split: sum.splits)+

lemma keeps_rekey_symlinks: "(\<And>r. sl_rev (f r) = rv) \<Longrightarrow> keeps rv (rekey_symlinks P f)"
proof (rule keepsI)
  fix db u db' assume f: "\<And>r. sl_rev (f r) = rv" and inv: "db_inv db" "db_last_rev db = rv" "rekey_symlinks P f db = Inr (u, db')"
  note r = rekey_symlinks_Inr [OF inv(3)]
  have "\<forall>d\<in>set (tbl_update P f (db_symlinks db)). sl_rev d \<le> db_last_rev db" using f inv(2) inv_revs(2) [OF inv(1)] by auto
  with r keys_okD [OF inv(1)] inv show "db_inv db' \<and> db_last_rev db' = rv" by (auto intro!: inv_symlinks)
qed

lemma keeps_rekey_specials: "(\<And>r. sn_rev (f r) = rv) \<Longrightarrow> keeps rv (rekey_specials P f)"
proof (rule keepsI)
  fix db u db' assume f: "\<And>r. sn_rev (f r) = rv" and inv: "db_inv db" "db_last_rev db = rv" "rekey_specials P f db = Inr (u, db')"
  note r = rekey_specials_Inr [OF inv(3)]
  have "\<forall>d\<in>set (tbl_update P f (db_specials db)). sn_rev d \<le> db_last_rev db" using f inv(2) inv_revs(3) [OF inv(1)] by auto
  with r keys_okD [OF inv(1)] inv show "db_inv db' \<and> db_last_rev db' = rv" by (auto intro!: inv_specials)
qed

lemma keeps_rekey_dirs: "(\<And>r. de_rev (f r) = rv) \<Longrightarrow> keeps rv (rekey_dirs P f)"
proof (rule keepsI)
  fix db u db' assume f: "\<And>r. de_rev (f r) = rv" and inv: "db_inv db" "db_last_rev db = rv" "rekey_dirs P f db = Inr (u, db')"
  note r = rekey_dirs_Inr [OF inv(3)]
  have "\<forall>d\<in>set (tbl_update P f (db_dirs db)). de_rev d \<le> db_last_rev db" using f inv(2) inv_revs(1) [OF inv(1)] by auto
  with r keys_okD [OF inv(1)] inv show "db_inv db' \<and> db_last_rev db' = rv" by (auto intro!: inv_dirs)
qed

text \<open>Giving manifest rows new paths and revisions leaves what the inodes own alone.\<close>

lemma inv_manifests_renamed:
  assumes inv: "db_inv db" and d: "distinct (map mf_path (tbl_update P f (db_manifests db)))"
    and f: "\<And>r. inode_data (f r) = inode_data r" "\<And>r. mf_inode (f r) = mf_inode r"
      "\<And>r. r \<in> set (db_manifests db) \<Longrightarrow> mf_rev (f r) \<le> db_last_rev db"
  shows "db_inv (db\<lparr>db_manifests := tbl_update P f (db_manifests db)\<rparr>)"
proof -
  let ?rows = "db_manifests db" and ?rows' = "tbl_update P f (db_manifests db)"
  have f': "mf_chunks (f r) = mf_chunks r" "mf_version (f r) = mf_version r" for r
    using f(1) [of r] by (simp_all add: inode_data_def)
  have "alias_ok ?rows'"
    unfolding alias_ok_def
  proof (intro ballI impI)
    fix y y' assume "y \<in> set ?rows'" "y' \<in> set ?rows'" "mf_inode y = mf_inode y'"
    then obtain r r' where "r \<in> set ?rows" "r' \<in> set ?rows" "y = (if P r then f r else r)" "y' = (if P r' then f r' else r')"
      by auto
    moreover from this have "mf_inode r' = mf_inode r"
      using \<open>mf_inode y = mf_inode y'\<close> f(2) by (simp split: if_splits)
    ultimately show "inode_data y = inode_data y'"
      using alias_data [OF db_invD(5) [OF inv], of r r'] f(1) by simp
  qed
  moreover have "inode_blobs ?rows' = inode_blobs ?rows"
    unfolding inode_blobs_def set_tbl_update image_image by (rule image_cong) (simp_all add: f(2) f')
  then have "live_refs ?rows' h = live_refs ?rows h" for h by (rule live_refs_cong)
  moreover have "rows_ok ?rows' (db_next_inode db)"
    by (rule rows_ok_update [OF db_invD(7) [OF inv]]) (simp add: row_ok_def f(2) f')
  moreover have "\<forall>r\<in>set ?rows'. mf_rev r \<le> db_last_rev db"
    using f(3) inv_revs(5) [OF inv] by auto
  ultimately show ?thesis
    using inv d by (simp add: db_inv_def keys_ok_def refs_ok_def revs_ok_ball)
qed

lemma keeps_rekey_manifests:
  assumes f: "\<And>r. inode_data (f r) = inode_data r" "\<And>r. mf_inode (f r) = mf_inode r" "\<And>r. mf_rev (f r) = rv \<or> mf_rev (f r) = mf_rev r"
  shows "keeps rv (rekey_manifests P f)"
proof (rule keepsI)
  fix db u db' assume inv: "db_inv db" "db_last_rev db = rv" "rekey_manifests P f db = Inr (u, db')"
  note r = rekey_manifests_Inr [OF inv(3)]
  have "mf_rev (f r) \<le> db_last_rev db" if "r \<in> set (db_manifests db)" for r
    using f(3) [of r] inv(2) inv_revs(5) [OF inv(1) that] by auto
  moreover have "distinct (map mf_path (tbl_update P f (db_manifests db)))"
    using r(2) [OF db_invD(1) [OF inv(1)]] r(1) by simp
  ultimately have "db_inv (db\<lparr>db_manifests := tbl_update P f (db_manifests db)\<rparr>)"
    using f(1,2) by (intro inv_manifests_renamed [OF inv(1)])
  with r(1) inv(2) show "db_inv db' \<and> db_last_rev db' = rv" by simp
qed

lemma keeps_reparent: "keeps rv (reparentDescendantsTx now from to rv)"
  unfolding reparentDescendantsTx_def Let_def
  by (intro keeps_rules keeps_tombstoneSubtree keeps_rekey_manifests keeps_rekey_symlinks keeps_rekey_specials
      keeps_rekey_dirs keeps_clearTombstoneSubtree) (simp_all add: inode_data_def)

lemma keeps_version_bump:
  assumes v: "0 < v"
  shows "keeps rv (tx_exec (\<lambda>db. db\<lparr>db_manifests := tbl_update (\<lambda>r. mf_inode r = i)
           (\<lambda>r. r\<lparr>mf_version := v, mf_rev := rv\<rparr>) (db_manifests db)\<rparr>))"
proof (rule keepsI)
  let ?f = "\<lambda>r. r\<lparr>mf_version := v, mf_rev := rv\<rparr>"
  fix db db' and u :: unit assume inv: "db_inv db" "db_last_rev db = rv"
    "tx_exec (\<lambda>db. db\<lparr>db_manifests := tbl_update (\<lambda>r. mf_inode r = i) ?f (db_manifests db)\<rparr>) db = Inr (u, db')"
  let ?rows = "db_manifests db" and ?rows' = "tbl_update (\<lambda>r. mf_inode r = i) ?f (db_manifests db)"
  have "alias_ok ?rows'"
  proof (rule alias_ok_update [OF db_invD(5) [OF inv(1)]])
    fix r r' assume "r \<in> set ?rows" "r' \<in> set ?rows" "mf_inode r = i" "mf_inode r' = i"
    then have "inode_data r' = inode_data r" by (intro alias_data [OF db_invD(5) [OF inv(1)]]) simp_all
    then show "inode_data (?f r) = inode_data (?f r')" by (simp add: inode_data_def)
  qed simp
  moreover have "inode_blobs ?rows' = inode_blobs ?rows"
    unfolding inode_blobs_def set_tbl_update image_image by (rule image_cong) simp_all
  then have "live_refs ?rows' h = live_refs ?rows h" for h by (rule live_refs_cong)
  moreover have "rows_ok ?rows' (db_next_inode db)"
    by (rule rows_ok_update [OF db_invD(7) [OF inv(1)]]) (simp add: row_ok_def v)
  moreover have "\<forall>r\<in>set ?rows'. mf_rev r \<le> db_last_rev db"
    using inv(2) inv_revs(5) [OF inv(1)] by auto
  ultimately have "db_inv (db\<lparr>db_manifests := ?rows'\<rparr>)"
    using inv by (simp add: db_inv_def keys_ok_def refs_ok_def revs_ok_ball)
  with inv show "db_inv db' \<and> db_last_rev db' = rv" by simp
qed

lemma keeps_move:
  assumes "srcKind = nodeRegular \<Longrightarrow> 0 < v"
  shows "keeps rv (moveRenameSourceTx now from to srcKind v i rv)"
  using assms unfolding moveRenameSourceTx_def
  by (cases srcKind) (auto intro!: keeps_rules keeps_reparent keeps_rekey_symlinks keeps_rekey_specials keeps_rekey_manifests
      keeps_version_bump simp: inode_data_def)

lemma keeps_deleteDest: "keeps rv (deleteDestTx to k rv)"
proof (cases "k = nodeRegular")
  case True
  show ?thesis
    unfolding deleteDestTx_def
  proof (rule keeps_seq [OF _ keeps_removeDirEntry], unfold True nodeKind.case, rule keepsI)
    fix db u db'
    assume inv: "db_inv db" "db_last_rev db = rv"
      and run: "tx_bind (tx_read (\<lambda>db. tbl_get mf_path (db_manifests db) to)) (\<lambda>row.
            tx_bind (tx_lift ErrBadArgument row) (\<lambda>r.
            tx_bind (tx_read (\<lambda>db. nlink_of db (mf_inode r))) (\<lambda>nlink.
            tx_seq (tx_when (nlink = 1)
                     (tx_bind (tx_lift ErrUnpackChunks (unpackChunks (mf_chunks r)))
                        (\<lambda>dstChunks. refs_tx (chunkRefDelta dstChunks []))))
           (tx_seq (tx_exec (\<lambda>db. db\<lparr>db_manifests := tbl_delete (\<lambda>r. mf_path r = to) (db_manifests db)\<rparr>))
           (tx_when (1 < nlink) (tx_exec (restamp_inode rv (mf_inode r)))))))) db = Inr (u, db')"
    from run obtain x db1 where x: "tbl_get mf_path (db_manifests db) to = Some x"
      and w1: "tx_when (nlink_of db (mf_inode x) = 1) (tx_bind (tx_lift ErrUnpackChunks (unpackChunks (mf_chunks x)))
                        (\<lambda>dstChunks. refs_tx (chunkRefDelta dstChunks []))) db = Inr ((), db1)"
      and w2: "tx_when (1 < nlink_of db (mf_inode x)) (tx_exec (restamp_inode rv (mf_inode x)))
        (db1\<lparr>db_manifests := tbl_delete (\<lambda>r. mf_path r = to) (db_manifests db1)\<rparr>) = Inr ((), db')"
      by (auto simp del: tx_when_Inr)
    have xin: "x \<in> set (db_manifests db)" "mf_path x = to" using x by (auto dest: tbl_get_SomeD)
    obtain cs where cs: "unpackChunks (mf_chunks x) = Some cs"
      using rows_okD [OF db_invD(7) [OF inv(1)] xin(1)] by (auto simp: row_ok_def)
    from w1 cs obtain cks where ck: "nlink_of db (mf_inode x) = 1 \<longrightarrow> applyChunkRefDelta (chunkRefDelta cs []) (db_chunks db) = Some cks"
        "nlink_of db (mf_inode x) \<noteq> 1 \<longrightarrow> cks = db_chunks db" and db1: "db1 = db\<lparr>db_chunks := cks\<rparr>"
      by (cases "nlink_of db (mf_inode x) = 1") auto
    note refs = refs_after_row_delete [OF inv(1) xin cs, of cks]
    let ?del = "tbl_delete (\<lambda>r. mf_path r = to) (db_manifests db)"
    let ?rows' = "(if 1 < nlink_of db (mf_inode x) then stamp_inode rv (mf_inode x) else id) ?del"
    have db': "db' = db\<lparr>db_chunks := cks, db_manifests := ?rows'\<rparr>"
      using w2 db1 by (cases "1 < nlink_of db (mf_inode x)") (simp_all add: restamp_inode_def)
    have "\<forall>r\<in>set ?rows'. mf_rev r \<le> db_last_rev db"
      using inv(2) inv_revs(5) [OF inv(1)] by auto
    moreover have "rows_ok ?rows' (db_next_inode db)"
      using rows_ok_delete [OF db_invD(7) [OF inv(1)]] by simp
    ultimately show "db_inv db' \<and> db_last_rev db' = rv"
      using inv refs ck db_invD(5) [OF inv(1)] unfolding db' by (simp add: db_inv_def keys_ok_def refs_ok_def revs_ok_ball)
  qed
next
  case False
  have sl: "keeps rv (tx_exec (\<lambda>db. db\<lparr>db_symlinks := tbl_delete (\<lambda>r. sl_path r = to) (db_symlinks db)\<rparr>))"
  proof (rule keepsI)
    fix db db' and u :: unit assume "db_inv db" "db_last_rev db = rv"
      "tx_exec (\<lambda>db. db\<lparr>db_symlinks := tbl_delete (\<lambda>r. sl_path r = to) (db_symlinks db)\<rparr>) db = Inr (u, db')"
    then show "db_inv db' \<and> db_last_rev db' = rv"
      using keys_okD(2) inv_revs(2) [of db] by (auto intro!: inv_symlinks)
  qed
  have sn: "keeps rv (tx_exec (\<lambda>db. db\<lparr>db_specials := tbl_delete (\<lambda>r. sn_path r = to) (db_specials db)\<rparr>))"
  proof (rule keepsI)
    fix db db' and u :: unit assume "db_inv db" "db_last_rev db = rv"
      "tx_exec (\<lambda>db. db\<lparr>db_specials := tbl_delete (\<lambda>r. sn_path r = to) (db_specials db)\<rparr>) db = Inr (u, db')"
    then show "db_inv db' \<and> db_last_rev db' = rv"
      using keys_okD(3) inv_revs(3) [of db] by (auto intro!: inv_specials)
  qed
  from False sl sn show ?thesis
    unfolding deleteDestTx_def by (cases k) (auto intro!: keeps_seq keeps_removeDirEntry keeps_basic)
qed

lemma keeps_rewriteDirs: "keeps rv (rewriteRenameDirEntriesTx from to srcKind rv)"
proof -
  have "keeps rv (tx_exec (\<lambda>db. db\<lparr>db_dirs := tbl_upsert de_key
          \<lparr> de_parent = q, de_name = w, de_mode = m, de_mtime = 0, de_uid = x, de_gid = y, de_atime = z, de_rev = rv \<rparr>
          (\<lambda>r. r\<lparr>de_mode := m, de_uid := x, de_gid := y, de_atime := z, de_rev := rv\<rparr>) (db_dirs db)\<rparr>))" for q w m x y z
  proof (rule keepsI)
    fix db db' and u :: unit assume inv: "db_inv db" "db_last_rev db = rv" and run: "tx_exec (\<lambda>db. db\<lparr>db_dirs := tbl_upsert de_key
          \<lparr> de_parent = q, de_name = w, de_mode = m, de_mtime = 0, de_uid = x, de_gid = y, de_atime = z, de_rev = rv \<rparr>
          (\<lambda>r. r\<lparr>de_mode := m, de_uid := x, de_gid := y, de_atime := z, de_rev := rv\<rparr>) (db_dirs db)\<rparr>) db = Inr (u, db')"
    let ?ds = "tbl_upsert de_key
          \<lparr> de_parent = q, de_name = w, de_mode = m, de_mtime = 0, de_uid = x, de_gid = y, de_atime = z, de_rev = rv \<rparr>
          (\<lambda>r. r\<lparr>de_mode := m, de_uid := x, de_gid := y, de_atime := z, de_rev := rv\<rparr>) (db_dirs db)"
    have "\<forall>d\<in>set ?ds. de_rev d \<le> db_last_rev db"
      using inv(2) inv_revs(1) [OF inv(1)] by (auto simp: tbl_upsert_def)
    moreover have "distinct (map de_key ?ds)"
      using keys_okD(1) [OF inv(1)] by (rule distinct_tbl_upsert) simp
    ultimately have "db_inv (db\<lparr>db_dirs := ?ds\<rparr>)" using inv(1) by (intro inv_dirs)
    with run inv(2) show "db_inv db' \<and> db_last_rev db' = rv" by simp
  qed
  then show ?thesis
    unfolding rewriteRenameDirEntriesTx_def
    by (auto simp: Let_def intro!: keeps_rules keeps_removeDirEntry keeps_insert_dir_entry split: prod.splits)
qed

lemma keeps_journalRename: "keeps rv (journalRenameTx E from to v src s a g)"
  unfolding journalRenameTx_def by (cases src) (auto intro!: keeps_rules keeps_journal)

section \<open>Rename keeps the invariant\<close>

lemma inv_alloc_rev: "db_inv db \<Longrightarrow> db_inv (db\<lparr>db_last_rev := Suc (db_last_rev db)\<rparr>)"
  by (auto simp: db_inv_def keys_ok_def refs_ok_def revs_ok_ball intro: le_SucI)

lemma resolveRenameDest_Inr:
  assumes "resolveRenameDestTx to srcKind noReplace et db = Inr ((k, v), db')"
  shows "db' = db" "k = resolveKind db to"
    "k \<noteq> nodeAbsent \<Longrightarrow> \<not> noReplace \<and> (srcKind = nodeDir \<longleftrightarrow> k = nodeDir) \<and> (srcKind = nodeDir \<longrightarrow> dirIsEmpty db to)"
    "k = nodeRegular \<Longrightarrow> (\<exists>r. tbl_get mf_path (db_manifests db) to = Some r \<and> v = mf_version r \<and> (et = 0 \<or> mf_version r = et))"
    "k \<noteq> nodeRegular \<Longrightarrow> v = 0"
  using assms unfolding resolveRenameDestTx_def by (auto split: if_splits)

lemma rename_apply_inv:
  assumes inv: "db_inv db" and run: "rename_apply E from to sk dk dv src s a g db = Inr (out, db')"
    and src: "sk = nodeRegular \<Longrightarrow> src \<noteq> None"
  shows "db_inv db'" "\<exists>v je. out = Commit v je (Suc (db_last_rev db))" "db_last_rev db' = Suc (db_last_rev db)"
proof -
  let ?rv = "Suc (db_last_rev db)" and ?db1 = "db\<lparr>db_last_rev := Suc (db_last_rev db)\<rparr>"
  let ?rest = "\<lambda>nv je. tx_seq (moveRenameSourceTx (e_now_tomb E) from to sk nv (case src of None \<Rightarrow> 0 | Some r \<Rightarrow> mf_inode r) ?rv)
    (tx_seq (rewriteRenameDirEntriesTx from to sk ?rv)
    (tx_seq (upsertTombstoneTx (e_now_tomb E) from ?rv)
    (tx_seq (clearTombstoneTx to) (tx_return (Commit nv je ?rv)))))"
  from run obtain db2 nv je db3 where d: "tx_when (dk \<noteq> nodeAbsent) (deleteDestTx to dk ?rv) ?db1 = Inr ((), db2)"
    and j: "journalRenameTx E from to dv src s a g db2 = Inr ((nv, je), db3)"
    and m: "?rest nv je db3 = Inr (out, db')"
    by (fastforce simp: rename_apply_def simp del: tx_when_Inr)
  have "db_inv db2 \<and> db_last_rev db2 = ?rv"
    using keepsD [OF keeps_when [OF keeps_deleteDest] inv_alloc_rev [OF inv] _ d] by simp
  then have 3: "db_inv db3 \<and> db_last_rev db3 = ?rv"
    using keepsD [OF keeps_journalRename _ _ j] by blast
  have nv: "0 < nv" if "sk = nodeRegular"
    using j src [OF that] by (cases src) (auto simp: journalRenameTx_def split: if_splits)
  have "keeps ?rv (?rest nv je)"
    by (intro keeps_rules keeps_move keeps_rewriteDirs keeps_upsertTombstone keeps_clearTombstone nv)
  from keepsD [OF this _ _ m] 3 show "db_inv db'" "db_last_rev db' = ?rv" by blast+
  from m show "\<exists>v je. out = Commit v je ?rv" by auto
qed

lemma renameOpt_Inr:
  assumes "renameOpt_tx E from to ef et nr s a g db = Inr (out, db')"
  obtains (same) "from = to" "out = NoCommit (samePathVersion db from (resolveKind db from))" "db' = db"
  | (noop) v where "out = NoCommit v" "db' = db" "resolveKind db from = nodeRegular"
  | (moved) dv src where "from \<noteq> to" "resolveKind db from \<noteq> nodeAbsent" "parent_ok db to"
      "resolveRenameDestTx to (resolveKind db from) nr et db = Inr ((resolveKind db to, dv), db)"
      "if resolveKind db from = nodeRegular then \<exists>r. src = Some r \<and> tbl_get mf_path (db_manifests db) from = Some r \<and> mf_version r = ef
       else src = None"
      "\<not> same_inode db src (resolveKind db to) to"
      "rename_apply E from to (resolveKind db from) (resolveKind db to) dv src s a g db = Inr (out, db')"
proof (cases "from = to")
  case True
  with assms show thesis by (intro same) (auto simp: renameOpt_tx_def)
next
  case False
  with assms obtain k dv db1 src db2 where k: "resolveKind db from \<noteq> nodeAbsent"
    "resolveRenameDestTx to (resolveKind db from) nr et db = Inr ((k, dv), db1)"
    and rest: "parent_ok db1 to"
      "(if resolveKind db from = nodeRegular then tx_bind (readRenameSourceTx from ef) (\<lambda>r. tx_return (Some r)) else tx_return None) db1 = Inr (src, db2)"
      "(if same_inode db2 src k to then tx_return (NoCommit (case src of None \<Rightarrow> 0 | Some r \<Rightarrow> mf_version r))
       else rename_apply E from to (resolveKind db from) k dv src s a g) db2 = Inr (out, db')"
    by (auto simp: renameOpt_tx_def simp del: tx_if_Inr)
  note r = resolveRenameDest_Inr(1,2) [OF k(2)]
  have db2: "db2 = db" and row: "if resolveKind db from = nodeRegular
      then \<exists>r. src = Some r \<and> tbl_get mf_path (db_manifests db) from = Some r \<and> mf_version r = ef else src = None"
    using rest(2) r(1) by (auto simp: readRenameSourceTx_def split: if_splits)
  note src = rest(1) [unfolded r(1)] row rest(3) [unfolded db2]
  show thesis
  proof (cases "same_inode db src k to")
    case True
    with src show thesis by (intro noop) (auto simp: same_inode_def split: if_splits)
  next
    case ni: False
    with src False k r show thesis by (intro moved [of dv src]) auto
  qed
qed

interpretation rename: store_op "renameOpt_tx E src dst ef et nr s a g" for E src dst ef et nr s a g
proof
  fix db v je rv db'
  assume run: "renameOpt_tx E src dst ef et nr s a g db = Inr (Commit v je rv, db')"
  then obtain dv r where app: "rename_apply E src dst (resolveKind db src) (resolveKind db dst) dv r s a g db = Inr (Commit v je rv, db')"
    and some: "resolveKind db src = nodeRegular \<Longrightarrow> r \<noteq> None"
    by (rule renameOpt_Inr) (auto split: if_splits)
  show "db_inv db'" if "db_inv db" using rename_apply_inv(1) [OF that app some] .
  show "rv = Suc (db_last_rev db) \<and> db_last_rev db' = rv" if "db_inv db"
    using rename_apply_inv(2,3) [OF that app some] by auto
qed

end
