(* ===== verification/Manifest_Props.thy ===== *)
theory Manifest_Props
  imports Manifest_Rename
begin

text \<open>
  What a caller of the manifest store observes. The lemmas describe \<open>Put\<close>, \<open>Link\<close>, \<open>Delete\<close> and
  \<open>renameOpt\<close> through \<open>Get\<close>, that is through the manifests a reader is answered with before and
  after a call; the properties at the end of the theory are stated over them.
\<close>

section \<open>Reading rows\<close>

definition row_manifest :: "tenant_db \<Rightarrow> manifest_row \<Rightarrow> Manifest" where
  "row_manifest db r = \<lparr> m_path = mf_path r, m_inode = mf_inode r, m_nlink = nlink_of db (mf_inode r),
     m_size = mf_size r, m_mode = mf_mode r, m_mtime = mf_mtime r, m_version = mf_version r,
     m_chunks = chunks_of (mf_chunks r), m_uid = mf_uid r, m_gid = mf_gid r, m_atime = mf_atime r \<rparr>"

text \<open>Two names of one file.\<close>

definition same_file :: "tenant_db \<Rightarrow> string \<Rightarrow> string \<Rightarrow> bool" where
  "same_file db p q =
     (case (tbl_get mf_path (db_manifests db) p, tbl_get mf_path (db_manifests db) q) of
        (Some x, Some y) \<Rightarrow> mf_inode x = mf_inode y | _ \<Rightarrow> False)"

text \<open>The version a compare-and-swap is made against; 0 stands for no file.\<close>

definition stored_version :: "tenant_db \<Rightarrow> string \<Rightarrow> nat" where
  "stored_version db p = existing_version (tbl_get mf_path (db_manifests db) p)"

lemma Get_row:
  assumes "db_inv db"
  shows "Get db p = (case tbl_get mf_path (db_manifests db) p of None \<Rightarrow> Inl ErrManifestNotFound | Some r \<Rightarrow> Inr (row_manifest db r))"
proof (cases "tbl_get mf_path (db_manifests db) p")
  case (Some r)
  then have "row_ok (db_next_inode db) r"
    using rows_okD [OF db_invD(7) [OF assms]] tbl_get_SomeD by fastforce
  with Some show ?thesis by (auto simp: Get_def row_manifest_def row_ok_def chunks_of_def)
qed (simp add: Get_def)

lemma row_manifest_same: "nlink_of db' (mf_inode r) = nlink_of db (mf_inode r) \<Longrightarrow> row_manifest db' r = row_manifest db r"
  by (simp add: row_manifest_def)

lemma run_store_Inr:
  assumes "run_store E m st = (Inr v, st')"
  obtains (dropped) db' where "m (ms_db st) = Inr (NoCommit v, db')" "st' = st"
  | (committed) je rv where "m (ms_db st) = Inr (Commit v je rv, ms_db st')" "e_commit E"
      "st' = notifyChange rv (broadcast je (st\<lparr>ms_db := ms_db st'\<rparr>))"
  using assms by (auto simp: run_store_def notifyChange_def broadcast_def split: sum.splits outcome.splits if_splits option.splits)

lemma Put_Inr:
  assumes "Put E p n mf s a g st = (Inr v, st')"
  obtains je rv where "p = m_path mf" "Put_tx E p n mf s a g (ms_db st) = Inr (Commit v je rv, ms_db st')" "e_commit E"
proof -
  from assms have run: "run_store E (Put_tx E p n mf s a g) st = (Inr v, st')" and p: "p = m_path mf"
    by (auto simp: Put_def split: if_splits sum.splits)
  have no: "Put_tx E p n mf s a g db \<noteq> Inr (NoCommit w, db')" for db w db'
  proof (cases "n = 0")
    case True
    then show ?thesis by (metis Put_insert_Commit outcome.distinct(1))
  next
    case False
    then show ?thesis by (metis Put_update_Commit neq0_conv outcome.distinct(1))
  qed
  from run show thesis by (rule run_store_Inr) (use no p that in auto)
qed

lemma Put_inv: "db_inv (ms_db st) \<Longrightarrow> Put E p n mf s a g st = (Inr v, st') \<Longrightarrow> db_inv (ms_db st')"
  by (erule Put_Inr) (rule put.commit_inv)

section \<open>Put\<close>

lemma Put_version:
  assumes "db_inv (ms_db st)" "Put E p n mf s a g st = (Inr v, st')"
  shows "v = Suc n \<and> stored_version (ms_db st) p = n"
proof (cases "n = 0")
  case True
  with assms show ?thesis
    by (elim Put_Inr) (auto simp: stored_version_def existing_version_def tbl_get_None [symmetric] elim!: Put_insert_Commit)
next
  case False
  with assms show ?thesis
    by (elim Put_Inr) (auto simp: stored_version_def existing_version_def elim!: Put_update_Commit)
qed

text \<open>The row a successful write leaves under every name of the file.\<close>

lemma Put_rows:
  assumes inv: "db_inv (ms_db st)" and run: "Put E p n mf s a g st = (Inr v, st')"
  shows "q = p \<or> same_file (ms_db st) p q \<Longrightarrow> \<exists>r. tbl_get mf_path (db_manifests (ms_db st')) q = Some r \<and>
      mf_path r = q \<and> mf_size r = m_size mf \<and> mf_mode r = m_mode mf \<and> mf_mtime r = m_mtime mf \<and> mf_version r = v \<and> mf_chunks r = packChunks (m_chunks mf)"
    and "q \<noteq> p \<Longrightarrow> \<not> same_file (ms_db st) p q \<Longrightarrow>
      tbl_get mf_path (db_manifests (ms_db st')) q = tbl_get mf_path (db_manifests (ms_db st)) q"
    and "nlink_of (ms_db st') i = nlink_of (ms_db st) i \<or> (n = 0 \<and> i = Suc (db_next_inode (ms_db st)))"
proof -
  obtain je rv where c: "Put_tx E p n mf s a g (ms_db st) = Inr (Commit v je rv, ms_db st')"
    using run by (rule Put_Inr)
  let ?old = "db_manifests (ms_db st)" and ?new = "db_manifests (ms_db st')"
  have "(q = p \<or> same_file (ms_db st) p q \<longrightarrow> (\<exists>r. tbl_get mf_path ?new q = Some r \<and>
      mf_path r = q \<and> mf_size r = m_size mf \<and> mf_mode r = m_mode mf \<and> mf_mtime r = m_mtime mf \<and> mf_version r = v \<and> mf_chunks r = packChunks (m_chunks mf))) \<and>
    (q \<noteq> p \<longrightarrow> \<not> same_file (ms_db st) p q \<longrightarrow> tbl_get mf_path ?new q = tbl_get mf_path ?old q) \<and>
    (nlink_of (ms_db st') i = nlink_of (ms_db st) i \<or> (n = 0 \<and> i = Suc (db_next_inode (ms_db st))))"
  proof (cases "n = 0")
    case True
    with c obtain rv' where v: "v = 1" and p: "tbl_get mf_path ?old p = None"
      and new: "?new = ?old @ [new_manifest_row p (Suc (db_next_inode (ms_db st))) 1 rv' mf]"
      by (auto elim!: Put_insert_Commit simp: tbl_get_None)
    then have "\<not> same_file (ms_db st) p q" by (simp add: same_file_def)
    with v p new True show ?thesis
      by (auto simp: tbl_get_append tbl_get_Cons new_manifest_row_def nlink_of_def tbl_count_def split: option.splits)
  next
    case False
    with c obtain x rv' where v: "v = Suc n" and x: "tbl_get mf_path ?old p = Some x"
      and new: "?new = tbl_update (\<lambda>r. mf_inode r = mf_inode x)
         (rewrite_manifest_row (mf_uid x) (mf_gid x) (mf_atime x) (Suc n) rv' mf) ?old"
      by (auto elim!: Put_update_Commit)
    have get: "tbl_get mf_path ?new q = map_option (\<lambda>r. if mf_inode r = mf_inode x
        then rewrite_manifest_row (mf_uid x) (mf_gid x) (mf_atime x) (Suc n) rv' mf r else r) (tbl_get mf_path ?old q)"
      unfolding new by (rule tbl_get_update) simp
    have "nlink_of (ms_db st') i = nlink_of (ms_db st) i"
      unfolding nlink_of_def new by (rule nlink_update) simp
    moreover have "\<exists>r. tbl_get mf_path ?new q = Some r \<and> mf_path r = q \<and> mf_size r = m_size mf \<and> mf_mode r = m_mode mf \<and>
        mf_mtime r = m_mtime mf \<and> mf_version r = v \<and> mf_chunks r = packChunks (m_chunks mf)" if "q = p \<or> same_file (ms_db st) p q"
    proof -
      from that x obtain y where y: "tbl_get mf_path ?old q = Some y" "mf_inode y = mf_inode x"
        by (auto simp: same_file_def split: option.splits)
      then have "mf_path y = q" by (auto dest: tbl_get_SomeD)
      with get y v show ?thesis by (simp add: rewrite_manifest_row_def)
    qed
    moreover have "tbl_get mf_path ?new q = tbl_get mf_path ?old q" if "\<not> same_file (ms_db st) p q"
      using get x that by (auto simp: same_file_def split: option.splits)
    ultimately show ?thesis by blast
  qed
  then show "q = p \<or> same_file (ms_db st) p q \<Longrightarrow> \<exists>r. tbl_get mf_path ?new q = Some r \<and>
      mf_path r = q \<and> mf_size r = m_size mf \<and> mf_mode r = m_mode mf \<and> mf_mtime r = m_mtime mf \<and> mf_version r = v \<and> mf_chunks r = packChunks (m_chunks mf)"
    "q \<noteq> p \<Longrightarrow> \<not> same_file (ms_db st) p q \<Longrightarrow> tbl_get mf_path ?new q = tbl_get mf_path ?old q"
    "nlink_of (ms_db st') i = nlink_of (ms_db st) i \<or> (n = 0 \<and> i = Suc (db_next_inode (ms_db st)))" by blast+
qed

lemma Put_get_frame:
  assumes inv: "db_inv (ms_db st)" and run: "Put E p n mf s a g st = (Inr v, st')" and q: "q \<noteq> p" "\<not> same_file (ms_db st) p q"
  shows "Get (ms_db st') q = Get (ms_db st) q"
proof (cases "tbl_get mf_path (db_manifests (ms_db st)) q")
  case None
  with Put_rows(2) [OF inv run q] show ?thesis by (simp add: Get_row [OF inv] Get_row [OF Put_inv [OF inv run]])
next
  case (Some r)
  have "mf_inode r \<noteq> Suc (db_next_inode (ms_db st))"
    using rows_okD [OF db_invD(7) [OF inv]] tbl_get_SomeD [OF Some] by (fastforce simp: row_ok_def)
  then have "nlink_of (ms_db st') (mf_inode r) = nlink_of (ms_db st) (mf_inode r)" using Put_rows(3) [OF inv run] by blast
  with Some Put_rows(2) [OF inv run q] show ?thesis
    by (simp add: Get_row [OF inv] Get_row [OF Put_inv [OF inv run]] row_manifest_same [of "ms_db st'" r "ms_db st"])
qed

lemma journal_if_total:
  assumes "s = '''' \<or> a \<noteq> ''''" "\<And>mf. prior = Some mf \<Longrightarrow> encodeJournalManifest E mf \<noteq> None"
  shows "\<exists>je js. journal_if E s a g op p prior after_v old db = Inr (je, db\<lparr>db_journal := js\<rparr>)"
proof (cases "s = ''''")
  case True
  then show ?thesis by (auto simp: journal_if_def tx_return_def intro: exI [of _ "db_journal db"])
next
  case False
  have latest: "\<exists>j. latest_in_session s (js @ [row]) = Some j" if "j_session row = s" for js row
  proof -
    have "row \<in> set (sort_key (\<lambda>j. - int (j_seq j)) (filter (\<lambda>j. j_session j = s) (js @ [row])))" using that by simp
    then have "sort_key (\<lambda>j. - int (j_seq j)) (filter (\<lambda>j. j_session j = s) (js @ [row])) \<noteq> []" by (metis empty_iff list.set(1))
    then show ?thesis unfolding latest_in_session_def by (metis list.case(2) list.exhaust)
  qed
  obtain bv blob where prior: "(case prior of None \<Rightarrow> tx_return (None, None)
      | Some mf \<Rightarrow> tx_bind (tx_lift ErrEncodeManifest (encodeJournalManifest E mf))
           (\<lambda>blob. tx_return (Some (m_version mf), Some blob))) db = Inr ((bv, blob), db)"
  proof (cases prior)
    case None
    then show thesis by (intro that) (simp add: tx_eval)
  next
    case (Some mf)
    then obtain b where "encodeJournalManifest E mf = Some b" using assms(2) by blast
    with Some show thesis by (intro that) (simp add: tx_eval)
  qed
  let ?row = "\<lparr> j_rowid = next_rowid (db_journal db), j_session = s, j_seq = next_seq s (db_journal db),
          j_path = p, j_op = op, j_before_version = bv, j_before_manifest = blob,
          j_rename_from = (if old = '''' then None else Some old),
          j_ts = e_now E, j_after_version = after_v, j_agent = g, j_alloc = a \<rparr>"
  obtain j where "latest_in_session s (db_journal db @ [?row]) = Some j" using latest [of ?row] by auto
  with prior False assms(1) have "\<exists>e. journalBeforeWrite E s a g op p prior after_v old db = Inr (e, db\<lparr>db_journal := db_journal db @ [?row]\<rparr>)"
    unfolding journalBeforeWrite_def tx_bind_def [of "case prior of None \<Rightarrow> _ | Some x \<Rightarrow> _ x"] prior
    by (simp add: tx_eval appendJournal_def)
  with False show ?thesis by (auto simp: journal_if_def tx_eval)
qed


lemma refs_defined:
  assumes inv: "db_inv db" and x: "case x of None \<Rightarrow> cs = [] | Some r \<Rightarrow> r \<in> set (db_manifests db) \<and> unpackChunks (mf_chunks r) = Some cs"
  shows "\<exists>cks. applyChunkRefDelta (chunkRefDelta cs new) (db_chunks db) = Some cks"
proof (rule applyChunkRefDelta_defined [OF distinct_chunkRefDelta db_invD(2) [OF inv]])
  fix h
  have "refs cs h \<le> live_refs (db_manifests db) h"
  proof (cases x)
    case None
    with x show ?thesis by (simp add: refs_def)
  next
    case (Some r)
    with x have "r \<in> set (db_manifests db)" "chunks_of (mf_chunks r) = cs" by (simp_all add: chunks_of_def)
    then show ?thesis using live_refs_mono by metis
  qed
  then show "0 \<le> refcount_of (db_chunks db) h + delta_at (chunkRefDelta cs new) h"
    using db_invD(8) [OF inv, of h] by simp
qed

lemma Put_tx_defined:
  assumes inv: "db_inv db" and ok: "parent_ok db p" "stored_version db p = n" "bind_uint64 (m_size mf)"
    and j: "s = '''' \<or> a \<noteq> ''''"
    and enc: "\<And>x cs. tbl_get mf_path (db_manifests db) p = Some x \<Longrightarrow> unpackChunks (mf_chunks x) = Some cs \<Longrightarrow>
      encodeJournalManifest E (prior_manifest p (Some x) cs) \<noteq> None"
  shows "\<exists>v je rv db'. Put_tx E p n mf s a g db = Inr (Commit v je rv, db')"
proof (cases "tbl_get mf_path (db_manifests db) p")
  case None
  let ?db1 = "db\<lparr>db_next_inode := Suc (db_next_inode db), db_last_rev := Suc (db_last_rev db)\<rparr>"
  have n: "n = 0" using ok(2) None by (simp add: stored_version_def existing_version_def)
  obtain je js where "journal_if E s a g SessionOpCreate p None (Some 1) '''' ?db1 = Inr (je, ?db1\<lparr>db_journal := js\<rparr>)"
    using journal_if_total [OF j, where prior = None] by blast
  moreover obtain cks where "applyChunkRefDelta (chunkRefDelta [] (m_chunks mf)) (db_chunks db) = Some cks"
    using refs_defined [OF inv, where x = None] by auto
  moreover have "p \<notin> tbl_keys mf_path (db_manifests db)" using None by (simp add: tbl_get_None)
  ultimately show ?thesis
    using None ok(1,3) n by (simp add: Put_tx_def existing_version_def)
next
  case (Some x)
  let ?db1 = "db\<lparr>db_last_rev := Suc (db_last_rev db)\<rparr>"
  have x: "x \<in> set (db_manifests db)" "n = mf_version x" "0 < n"
    using Some ok(2) rows_okD [OF db_invD(7) [OF inv]] by (auto simp: stored_version_def existing_version_def row_ok_def dest!: tbl_get_SomeD)
  obtain cs where cs: "unpackChunks (mf_chunks x) = Some cs"
    using rows_okD [OF db_invD(7) [OF inv] x(1)] by (auto simp: row_ok_def)
  obtain je js where "journal_if E s a g SessionOpUpdate p (Some (prior_manifest p (Some x) cs)) (Some (Suc n)) '''' ?db1 = Inr (je, ?db1\<lparr>db_journal := js\<rparr>)"
    using journal_if_total [OF j, where prior = "Some (prior_manifest p (Some x) cs)"] enc [OF Some cs] by blast
  moreover obtain cks where "applyChunkRefDelta (chunkRefDelta cs (m_chunks mf)) (db_chunks db) = Some cks"
    using refs_defined [OF inv, where x = "Some x" and cs = cs] x(1) cs by auto
  ultimately show ?thesis
    using Some ok(1,3) x cs by (auto simp: Put_tx_def existing_version_def)
qed

lemma Put_defined:
  assumes "db_inv (ms_db st)" "m_path mf = p" "s = '''' \<or> a \<noteq> ''''" "lockAndValidateChunks E (m_chunks mf) = Inr ()"
    "parent_ok (ms_db st) p" "stored_version (ms_db st) p = n" "bind_uint64 (m_size mf)" "e_commit E"
    and enc: "\<And>x cs. tbl_get mf_path (db_manifests (ms_db st)) p = Some x \<Longrightarrow> unpackChunks (mf_chunks x) = Some cs \<Longrightarrow>
      encodeJournalManifest E (prior_manifest p (Some x) cs) \<noteq> None"
  shows "\<exists>st'. Put E p n mf s a g st = (Inr (Suc n), st')"
proof -
  obtain v je rv db' where "Put_tx E p n mf s a g (ms_db st) = Inr (Commit v je rv, db')"
    using Put_tx_defined [OF assms(1,5,6,7,3) enc] by blast
  then have put: "\<exists>st'. Put E p n mf s a g st = (Inr v, st')" using assms(2-4,8) by (auto simp: Put_def run_store_def)
  then obtain st' where "Put E p n mf s a g st = (Inr v, st')" by blast
  from Put_version [OF assms(1) this] put show ?thesis by simp
qed

lemma Put_tx_conflict:
  assumes inv: "db_inv db" and ok: "parent_ok db p" "stored_version db p \<noteq> n"
  shows "Put_tx E p n mf s a g db = Inl (ErrVersionConflict (Some (stored_version db p)))"
proof -
  have parent: "checkParentExists p db' = Inr ((), db')" if "parent_ok db' p" for db'
    using that checkParentExists_Inr [of p db' "()" db'] by simp
  have ok': "parent_ok (db\<lparr>db_next_inode := m\<rparr>) p" for m using ok(1) by simp
  show ?thesis
  proof (cases "tbl_get mf_path (db_manifests db) p")
    case None
    with ok show ?thesis
      by (simp add: Put_tx_def tx_eval allocInodeTx_def parent [OF ok'] parent [OF ok(1)] stored_version_def existing_version_def)
  next
    case (Some x)
    then obtain cs where "unpackChunks (mf_chunks x) = Some cs"
      using rows_okD [OF db_invD(7) [OF inv]] by (fastforce simp: row_ok_def dest: tbl_get_SomeD)
    with ok Some show ?thesis
      by (simp add: Put_tx_def tx_eval allocInodeTx_def parent [OF ok'] parent [OF ok(1)] stored_version_def existing_version_def)
  qed
qed


section \<open>Link and Delete\<close>

lemma same_file_refl: "tbl_get mf_path (db_manifests db) p = Some x \<Longrightarrow> same_file db p p"
  by (simp add: same_file_def)

lemma row_manifest_upd:
  "row_manifest db' (r\<lparr>mf_rev := v\<rparr>) = (row_manifest db r)\<lparr>m_nlink := nlink_of db' (mf_inode r)\<rparr>"
  "row_manifest db' (r\<lparr>mf_path := q, mf_rev := v\<rparr>) = (row_manifest db r)\<lparr>m_path := q, m_nlink := nlink_of db' (mf_inode r)\<rparr>"
  by (simp_all add: row_manifest_def)

lemma Link_Inr:
  assumes "Link E src dst s a g st = (Inr n, st')"
  obtains je rv where "Link_tx E src dst s a g (ms_db st) = Inr (Commit n je rv, ms_db st')"
proof -
  from assms have "run_store E (Link_tx E src dst s a g) st = (Inr n, st')" by (auto simp: Link_def split: if_splits)
  moreover have "Link_tx E src dst s a g db \<noteq> Inr (NoCommit w, db')" for db w db'
    by (metis Link_Commit outcome.distinct(1))
  ultimately show thesis by (auto elim: run_store_Inr intro: that)
qed

lemma Link_get:
  assumes inv: "db_inv (ms_db st)" and run: "Link E src dst s a g st = (Inr n, st')"
  obtains m where "Get (ms_db st) src = Inr m" "n = Suc (m_nlink m)"
    "Get (ms_db st') src = Inr (m\<lparr>m_nlink := n\<rparr>)" "Get (ms_db st') dst = Inr (m\<lparr>m_path := dst, m_nlink := n\<rparr>)"
    "\<And>q. q \<noteq> dst \<Longrightarrow> \<not> same_file (ms_db st) src q \<Longrightarrow> Get (ms_db st') q = Get (ms_db st) q"
    "Get (ms_db st) dst = Inl ErrManifestNotFound"
proof -
  let ?db = "ms_db st" and ?db' = "ms_db st'"
  obtain je0 rv0 where c: "Link_tx E src dst s a g ?db = Inr (Commit n je0 rv0, ?db')" using run by (rule Link_Inr)
  have inv': "db_inv ?db'" using link.commit_inv [OF inv c] .
  from c obtain x rv where n: "n = Suc (nlink_of ?db (mf_inode x))" and x: "tbl_get mf_path (db_manifests ?db) src = Some x"
    and new: "dst \<notin> tbl_keys mf_path (db_manifests ?db)"
    and rows: "db_manifests ?db' = stamp_inode rv (mf_inode x) (db_manifests ?db @ [x\<lparr>mf_path := dst, mf_rev := rv\<rparr>])"
    by (auto elim!: Link_Commit)
  have get': "tbl_get mf_path (db_manifests ?db') q = map_option (\<lambda>r. if mf_inode r = mf_inode x then r\<lparr>mf_rev := rv\<rparr> else r)
      (case tbl_get mf_path (db_manifests ?db) q of None \<Rightarrow> if dst = q then Some (x\<lparr>mf_path := dst, mf_rev := rv\<rparr>) else None | Some r \<Rightarrow> Some r)" for q
    unfolding rows by (subst tbl_get_update) (simp_all add: tbl_get_append tbl_get_Cons split: option.splits)
  have nl: "nlink_of ?db' i = (if i = mf_inode x then n else nlink_of ?db i)" for i
    unfolding nlink_of_def rows by (subst nlink_update) (simp_all add: n nlink_of_def tbl_count_def)
  have src: "src \<noteq> dst" using x new by (auto dest!: tbl_get_SomeD)
  have dst: "tbl_get mf_path (db_manifests ?db) dst = None" using new by (simp add: tbl_get_None)
  have frame: "Get ?db' q = Get ?db q" if "q \<noteq> dst" "\<not> same_file ?db src q" for q
  proof (cases "tbl_get mf_path (db_manifests ?db) q")
    case None
    with that(1) get' [of q] show ?thesis by (simp add: Get_row [OF inv] Get_row [OF inv'])
  next
    case (Some y)
    then have "mf_inode y \<noteq> mf_inode x" using that(2) x by (simp add: same_file_def)
    with Some get' [of q] show ?thesis
      by (simp add: Get_row [OF inv] Get_row [OF inv'] row_manifest_same [of ?db' y ?db] nl)
  qed
  have xs: "mf_path x = src" using x by (auto dest: tbl_get_SomeD)
  show thesis
  proof (rule that [of "row_manifest ?db x"])
    show "Get ?db src = Inr (row_manifest ?db x)" using x by (simp add: Get_row [OF inv])
    show "n = Suc (m_nlink (row_manifest ?db x))" using n by (simp add: row_manifest_def)
    have "Get ?db' src = Inr (row_manifest ?db' (x\<lparr>mf_rev := rv\<rparr>))"
      using x get' [of src] by (simp add: Get_row [OF inv'])
    then show "Get ?db' src = Inr ((row_manifest ?db x)\<lparr>m_nlink := n\<rparr>)"
      using nl by (simp only: row_manifest_upd(1) [where db = ?db]) simp
    have "Get ?db' dst = Inr (row_manifest ?db' (x\<lparr>mf_path := dst, mf_rev := rv\<rparr>))"
      using dst get' [of dst] by (simp add: Get_row [OF inv'])
    then show "Get ?db' dst = Inr ((row_manifest ?db x)\<lparr>m_path := dst, m_nlink := n\<rparr>)"
      using nl by (simp only: row_manifest_upd(2) [where db = ?db]) simp
    show "Get ?db dst = Inl ErrManifestNotFound" using dst by (simp add: Get_row [OF inv])
    fix q assume "q \<noteq> dst" "\<not> same_file ?db src q"
    then show "Get ?db' q = Get ?db q" by (rule frame)
  qed
qed

lemma Delete_file_Inr:
  assumes run: "Delete E p n s a g st = (Inr u, st')"
    and kind: "p \<notin> tbl_keys sn_path (db_specials (ms_db st))" "p \<notin> tbl_keys sl_path (db_symlinks (ms_db st))"
  obtains je rv where "Delete_tx E p n s a g (ms_db st) = Inr (Commit () je rv, ms_db st')"
proof -
  have "run_store E (deleteSpecialNode_tx E p) st = (Inl ErrManifestNotFound, st)"
    "run_store E (deleteSymlink_tx E p) st = (Inl ErrManifestNotFound, st)"
    using kind by (simp_all add: run_store_def deleteSpecialNode_tx_def deleteSymlink_tx_def tx_eval)
  with run have "run_store E (Delete_tx E p n s a g) st = (Inr u, st')" by (auto simp: Delete_def split: if_splits)
  moreover have "Delete_tx E p n s a g db \<noteq> Inr (NoCommit w, db')" for db w db'
    by (metis Delete_Commit outcome.distinct(1))
  ultimately show thesis by (auto elim: run_store_Inr intro: that)
qed

lemma Delete_get:
  assumes inv: "db_inv (ms_db st)" and run: "Delete E p n s a g st = (Inr u, st')"
    and kind: "p \<notin> tbl_keys sn_path (db_specials (ms_db st))" "p \<notin> tbl_keys sl_path (db_symlinks (ms_db st))"
  obtains m where "Get (ms_db st) p = Inr m" "m_version m = n" "Get (ms_db st') p = Inl ErrManifestNotFound"
    "\<And>q mq. q \<noteq> p \<Longrightarrow> same_file (ms_db st) p q \<Longrightarrow> Get (ms_db st) q = Inr mq \<Longrightarrow>
        Get (ms_db st') q = Inr (mq\<lparr>m_nlink := m_nlink m - 1\<rparr>)"
    "\<And>q. q \<noteq> p \<Longrightarrow> \<not> same_file (ms_db st) p q \<Longrightarrow> Get (ms_db st') q = Get (ms_db st) q"
proof -
  let ?db = "ms_db st" and ?db' = "ms_db st'"
  obtain je0 rv0 where c: "Delete_tx E p n s a g ?db = Inr (Commit () je0 rv0, ?db')" using run kind by (rule Delete_file_Inr)
  have inv': "db_inv ?db'" using del_manifest.commit_inv [OF inv c] .
  from c obtain x rv where x: "tbl_get mf_path (db_manifests ?db) p = Some x" "mf_version x = n"
    and rows: "db_manifests ?db' = (if 1 < nlink_of ?db (mf_inode x) then stamp_inode rv (mf_inode x) else id)
          (tbl_delete (\<lambda>r. mf_path r = p) (db_manifests ?db))"
    by (rule Delete_Commit) auto
  have xin: "x \<in> set (db_manifests ?db)" "mf_path x = p" using x(1) by (auto dest: tbl_get_SomeD)
  have get': "tbl_get mf_path (db_manifests ?db') q = map_option (\<lambda>r. if 1 < nlink_of ?db (mf_inode x) \<and> mf_inode r = mf_inode x then r\<lparr>mf_rev := rv\<rparr> else r)
      (if q = p then None else tbl_get mf_path (db_manifests ?db) q)" for q
    unfolding rows by (auto simp: tbl_get_update tbl_get_delete_key option.map_ident)
  have uniq: "\<forall>r\<in>set (db_manifests ?db). mf_path r = p \<longrightarrow> r = x"
    using path_unique [OF db_invD(1) [OF inv] _ xin(1)] xin(2) by simp
  have nl: "nlink_of ?db' i = (if i = mf_inode x then nlink_of ?db i - 1 else nlink_of ?db i)" for i
  proof -
    have "nlink_of ?db' i = tbl_count (\<lambda>r. mf_inode r = i) (tbl_delete (\<lambda>r. mf_path r = p) (db_manifests ?db))"
      unfolding rows nlink_of_def by (simp add: nlink_update del: tbl_count_0)
    then show ?thesis using count_delete_row [OF db_invD(1) [OF inv] xin, of i] by (simp add: nlink_of_def)
  qed
  have more: "1 < nlink_of ?db (mf_inode x)" if "q \<noteq> p" "tbl_get mf_path (db_manifests ?db) q = Some y" "mf_inode y = mf_inode x" for q y
  proof -
    have y: "y \<in> set (db_manifests ?db)" "mf_path y = q" using that(2) by (auto dest: tbl_get_SomeD)
    have "nlink_of ?db (mf_inode x) \<noteq> 1"
      using nlink_one_only [OF db_invD(1) [OF inv] _ xin(1) refl y(1) that(3)] y(2) xin(2) that(1) by (auto simp: nlink_of_def)
    moreover have "nlink_of ?db (mf_inode x) \<noteq> 0" using xin(1) by (auto simp: nlink_of_def)
    ultimately show ?thesis by linarith
  qed
  show thesis
  proof (rule that [of "row_manifest ?db x"])
    show "Get ?db p = Inr (row_manifest ?db x)" "m_version (row_manifest ?db x) = n" using x by (simp_all add: Get_row [OF inv] row_manifest_def)
    show "Get ?db' p = Inl ErrManifestNotFound" using get' [of p] by (simp add: Get_row [OF inv'])
    fix q assume q: "q \<noteq> p"
    { fix mq assume "same_file ?db p q" "Get ?db q = Inr mq"
      then obtain y where y: "tbl_get mf_path (db_manifests ?db) q = Some y" "mf_inode y = mf_inode x" "mq = row_manifest ?db y"
        using x by (auto simp: same_file_def Get_row [OF inv] split: option.splits)
      from more [OF q y(1,2)] get' [of q] q y have "Get ?db' q = Inr (row_manifest ?db' (y\<lparr>mf_rev := rv\<rparr>))" by (simp add: Get_row [OF inv'])
      then show "Get ?db' q = Inr (mq\<lparr>m_nlink := m_nlink (row_manifest ?db x) - 1\<rparr>)"
        using y nl by (simp add: row_manifest_upd [where db = ?db] row_manifest_def) }
    { assume "\<not> same_file ?db p q"
      note other = this
      show "Get ?db' q = Get ?db q"
      proof (cases "tbl_get mf_path (db_manifests ?db) q")
        case None
        with get' [of q] show ?thesis by (simp add: Get_row [OF inv] Get_row [OF inv'])
      next
        case (Some y)
        then have "mf_inode y \<noteq> mf_inode x" using other x by (simp add: same_file_def)
        with Some q get' [of q] show ?thesis
          by (simp add: Get_row [OF inv] Get_row [OF inv'] row_manifest_same [of ?db' y ?db] nl)
      qed }
  qed
qed

end
