(* ===== verification/Change_Feed.thy ===== *)
theory Change_Feed
  imports Manifest_Rename
begin

text \<open>
  The metadata change feed of changes.go: the query over current state plus tombstones
  (\<open>queryChanges\<close>), the retention of tombstones (\<open>pruneTombstones\<close>), the watermark a reader is
  checked against (\<open>changeFeedState\<close>), the page logic of \<^verbatim>\<open>handleChangesFetch\<close> in
  dataplane_changes.go (\<open>changes_fetch\<close>) and the conflating doorbell (\<open>changeNotifier\<close>).
\<close>

section \<open>Entries\<close>

record ChangeEntry =
  ce_path :: string
  ce_kind :: string
  ce_rev :: nat
  ce_size :: "64 word"
  ce_mode :: "32 word"
  ce_mtime :: int
  ce_uid :: "32 word"
  ce_gid :: "32 word"
  ce_atime :: int
  ce_inode :: nat
  ce_nlink :: nat
  ce_version :: nat
  ce_target :: string
  ce_rdev :: "64 word"
  ce_chunks :: "ChunkRef list"
  ce_has_chunks :: bool

text \<open>One select of the union per table; the blob of a file rides along.\<close>

type_synonym feed_row = "ChangeEntry \<times> byte list option"

definition feed_file :: "tenant_db \<Rightarrow> manifest_row \<Rightarrow> feed_row" where
  "feed_file db r =
     (\<lparr> ce_path = mf_path r, ce_kind = ''file'', ce_rev = mf_rev r, ce_size = mf_size r, ce_mode = mf_mode r,
        ce_mtime = mf_mtime r, ce_uid = mf_uid r, ce_gid = mf_gid r, ce_atime = mf_atime r, ce_inode = mf_inode r,
        ce_nlink = nlink_of db (mf_inode r), ce_version = mf_version r, ce_target = '''', ce_rdev = 0,
        ce_chunks = [], ce_has_chunks = False \<rparr>, Some (mf_chunks r))"

definition feed_symlink :: "symlink_row \<Rightarrow> feed_row" where
  "feed_symlink r =
     (\<lparr> ce_path = sl_path r, ce_kind = ''symlink'', ce_rev = sl_rev r, ce_size = of_nat (sql_length (sl_target r)),
        ce_mode = sl_mode r, ce_mtime = sl_mtime r, ce_uid = sl_uid r, ce_gid = sl_gid r, ce_atime = sl_atime r,
        ce_inode = 0, ce_nlink = 1, ce_version = 0, ce_target = sl_target r, ce_rdev = 0,
        ce_chunks = [], ce_has_chunks = False \<rparr>, None)"

definition feed_special :: "special_row \<Rightarrow> feed_row" where
  "feed_special r =
     (\<lparr> ce_path = sn_path r, ce_kind = ''special'', ce_rev = sn_rev r, ce_size = 0, ce_mode = sn_mode r,
        ce_mtime = sn_mtime r, ce_uid = sn_uid r, ce_gid = sn_gid r, ce_atime = sn_atime r,
        ce_inode = 0, ce_nlink = 1, ce_version = 0, ce_target = '''', ce_rdev = sn_rdev r,
        ce_chunks = [], ce_has_chunks = False \<rparr>, None)"

definition feed_dir :: "dir_row \<Rightarrow> feed_row" where
  "feed_dir d =
     (\<lparr> ce_path = de_full d, ce_kind = ''dir'', ce_rev = de_rev d, ce_size = 0, ce_mode = de_mode d,
        ce_mtime = de_mtime d, ce_uid = de_uid d, ce_gid = de_gid d, ce_atime = de_atime d,
        ce_inode = 0, ce_nlink = 1, ce_version = 0, ce_target = '''', ce_rdev = 0,
        ce_chunks = [], ce_has_chunks = False \<rparr>, None)"

definition feed_tombstone :: "tombstone_row \<Rightarrow> feed_row" where
  "feed_tombstone t =
     (\<lparr> ce_path = tb_path t, ce_kind = ''tombstone'', ce_rev = tb_rev t, ce_size = 0, ce_mode = 0,
        ce_mtime = 0, ce_uid = 0, ce_gid = 0, ce_atime = 0, ce_inode = 0, ce_nlink = 0, ce_version = 0,
        ce_target = '''', ce_rdev = 0, ce_chunks = [], ce_has_chunks = False \<rparr>, None)"

text \<open>A directory entry that is also a file, symlink or special node is represented by that row.\<close>

definition dir_primary :: "tenant_db \<Rightarrow> dir_row \<Rightarrow> bool" where
  "dir_primary db d \<longleftrightarrow> \<not> tbl_has mf_path (db_manifests db) (de_full d) \<and>
     \<not> tbl_has sl_path (db_symlinks db) (de_full d) \<and> \<not> tbl_has sn_path (db_specials db) (de_full d)"

definition feed_live :: "tenant_db \<Rightarrow> feed_row list" where
  "feed_live db = map (feed_file db) (db_manifests db) @ map feed_symlink (db_symlinks db) @
     map feed_special (db_specials db) @ map feed_dir (filter (dir_primary db) (db_dirs db))"

definition feed :: "tenant_db \<Rightarrow> feed_row list" where
  "feed db = feed_live db @ map feed_tombstone (db_tombs db)"

section \<open>The query\<close>

definition feed_key :: "feed_row \<Rightarrow> nat \<times> string" where
  "feed_key e = (ce_rev (fst e), ce_path (fst e))"

definition feed_after :: "feed_row \<Rightarrow> nat \<times> string \<Rightarrow> bool" where
  "feed_after e cur \<longleftrightarrow> ce_rev (fst e) > fst cur \<or> (ce_rev (fst e) = fst cur \<and> ce_path (fst e) > snd cur)"

definition in_feed_subtree :: "string \<Rightarrow> feed_row \<Rightarrow> bool" where
  "in_feed_subtree sub e \<longleftrightarrow> sub = '''' \<or> in_subtree sub (ce_path (fst e))"

definition feed_rows :: "tenant_db \<Rightarrow> string \<Rightarrow> feed_row list" where
  "feed_rows db sub = sort_key feed_key (filter (in_feed_subtree sub) (feed db))"

text \<open>What the scan loop makes of a row; None is the error of a blob that does not unpack.\<close>

definition feed_scan :: "bool \<Rightarrow> feed_row \<Rightarrow> ChangeEntry option" where
  "feed_scan includeChunks eb =
     (let (e, blob) = eb
      in if ce_kind e = ''file'' then
           (if includeChunks then
              map_option (\<lambda>cs. e\<lparr>ce_chunks := cs, ce_has_chunks := True\<rparr>)
                (unpackChunks (case blob of None \<Rightarrow> [] | Some b \<Rightarrow> b))
            else Some e)
         else if ce_kind e = ''dir'' then Some (if ce_mode e = 0 then e\<lparr>ce_mode := 493\<rparr> else e)
         else if ce_kind e = ''symlink'' then Some (if ce_mode e = 0 then e\<lparr>ce_mode := 511\<rparr> else e)
         else if ce_kind e = ''special'' then
           Some (if specialNodeKind (ce_mode e) \<noteq> '''' then e\<lparr>ce_kind := specialNodeKind (ce_mode e)\<rparr> else e)
         else Some e)"

fun scan_all :: "bool \<Rightarrow> feed_row list \<Rightarrow> ChangeEntry list option" where
  "scan_all inc [] = Some []"
| "scan_all inc (e # es) =
     (case feed_scan inc e of None \<Rightarrow> None | Some x \<Rightarrow> map_option ((#) x) (scan_all inc es))"

definition queryChanges ::
  "tenant_db \<Rightarrow> string \<Rightarrow> nat \<Rightarrow> string \<Rightarrow> nat \<Rightarrow> bool \<Rightarrow> store_error + ChangeEntry list" where
  "queryChanges db sub curRev curPath lim inc =
     (case scan_all inc (take lim (filter (\<lambda>e. feed_after e (curRev, curPath)) (feed_rows db sub))) of
        None \<Rightarrow> Inl ErrUnpackChunks | Some es \<Rightarrow> Inr es)"

definition changeFeedState :: "tenant_db \<Rightarrow> nat \<times> nat" where
  "changeFeedState db = (db_last_rev db, db_pruned_before db)"

section \<open>Retention\<close>

definition pruneTombstones_tx :: "int \<Rightarrow> (nat \<times> bool) tx" where
  "pruneTombstones_tx cutoff =
     tx_bind (tx_read (\<lambda>db. filter (\<lambda>t. tb_ts t < cutoff) (db_tombs db))) (\<lambda>old.
     if old = [] then tx_return (0, False)
     else tx_seq (tx_exec (\<lambda>db. db\<lparr>db_tombs := tbl_delete (\<lambda>t. tb_ts t < cutoff) (db_tombs db)\<rparr>))
         (tx_seq (tx_exec (\<lambda>db. db\<lparr>db_pruned_before := max (db_pruned_before db) (max_nat (map tb_rev old) + 1)\<rparr>))
         (tx_return (length old, True))))"

definition pruneTombstones :: "env \<Rightarrow> int \<Rightarrow> tenant_db \<Rightarrow> (store_error + nat) \<times> tenant_db" where
  "pruneTombstones E cutoff db =
     (case pruneTombstones_tx cutoff db of
        Inl e \<Rightarrow> (Inl e, db)
      | Inr ((n, commit), db') \<Rightarrow> if \<not> commit then (Inr 0, db)
                                else if e_commit E then (Inr n, db') else (Inl ErrCommit, db))"

section \<open>Fetching a page\<close>

definition changesFetchDefaultLimit :: nat where "changesFetchDefaultLimit = 500"
definition changesFetchMaxLimit :: nat where "changesFetchMaxLimit = 1000"

record ChangesFetchRequest =
  fr_cursor_rev :: nat
  fr_cursor_path :: string
  fr_limit :: nat
  fr_include_chunks :: bool

record ChangesFetchResponse =
  fs_entries :: "ChangeEntry list"
  fs_next_rev :: nat
  fs_next_path :: string
  fs_current_rev :: nat
  fs_resync :: bool
  fs_subtree :: string

definition fetch_limit :: "nat \<Rightarrow> nat" where
  "fetch_limit n = (if n = 0 then changesFetchDefaultLimit else if changesFetchMaxLimit < n then changesFetchMaxLimit else n)"

text \<open>
  \<^verbatim>\<open>handleChangesFetch\<close> once the request is decoded: \<open>agent\<close> is the certificate's agent scope and
  \<open>permits\<close> the policy on a path.
\<close>

definition changes_fetch ::
  "(string \<Rightarrow> bool) \<Rightarrow> tenant_db \<Rightarrow> string \<Rightarrow> ChangesFetchRequest \<Rightarrow> store_error + ChangesFetchResponse" where
  "changes_fetch permits db agent req =
     (let subtree = (if agent = '''' then '''' else ''/'' @ agent);
          (lastRev, prunedBefore) = changeFeedState db;
          lim = fetch_limit (fr_limit req)
      in if 0 < fr_cursor_rev req \<and> fr_cursor_rev req < prunedBefore then
           Inr \<lparr> fs_entries = [], fs_next_rev = fr_cursor_rev req, fs_next_path = fr_cursor_path req,
                 fs_current_rev = lastRev, fs_resync = True, fs_subtree = subtree \<rparr>
         else bindE (queryChanges db subtree (fr_cursor_rev req) (fr_cursor_path req) lim (fr_include_chunks req)) (\<lambda>entries.
           let wire = filter (\<lambda>e. permits (ce_path e)) entries
           in if length entries < lim then
                (if entries \<noteq> [] \<and> lastRev \<le> ce_rev (last entries) then
                   Inr \<lparr> fs_entries = wire, fs_next_rev = ce_rev (last entries), fs_next_path = ce_path (last entries),
                         fs_current_rev = ce_rev (last entries), fs_resync = False, fs_subtree = subtree \<rparr>
                 else Inr \<lparr> fs_entries = wire, fs_next_rev = lastRev, fs_next_path = '''',
                            fs_current_rev = lastRev, fs_resync = False, fs_subtree = subtree \<rparr>)
              else Inr \<lparr> fs_entries = wire, fs_next_rev = ce_rev (last entries), fs_next_path = ce_path (last entries),
                         fs_current_rev = lastRev, fs_resync = False, fs_subtree = subtree \<rparr>))"

section \<open>The doorbell\<close>

text \<open>
  A subscription holds the latest revision and a one-slot signal; \<open>cn_done\<close> are the subscriptions
  whose \<^verbatim>\<open>done\<close> channel has been closed, by identity.
\<close>

record changeSub =
  cs_id :: nat
  cs_rev :: nat
  cs_signal :: bool

record changeNotifier =
  cn_subs :: "(nat \<times> changeSub) list"
  cn_next :: nat
  cn_done :: "nat list"

definition newChangeNotifier :: changeNotifier where
  "newChangeNotifier = \<lparr> cn_subs = [], cn_next = 0, cn_done = [] \<rparr>"

definition Notify :: "nat \<Rightarrow> changeNotifier \<Rightarrow> changeNotifier" where
  "Notify rv n = n\<lparr>cn_subs := map (\<lambda>(c, s). (c, s\<lparr>cs_rev := max (cs_rev s) rv, cs_signal := True\<rparr>)) (cn_subs n)\<rparr>"

definition Subscribe :: "nat \<Rightarrow> changeNotifier \<Rightarrow> changeSub \<times> changeNotifier" where
  "Subscribe conn n =
     (let sub = \<lparr> cs_id = cn_next n, cs_rev = 0, cs_signal = False \<rparr>;
          closed = (case map_of (cn_subs n) conn of None \<Rightarrow> [] | Some old \<Rightarrow> [cs_id old])
      in (sub, n\<lparr>cn_subs := AList.update conn sub (cn_subs n), cn_next := Suc (cn_next n), cn_done := closed @ cn_done n\<rparr>))"

definition DropConn :: "nat \<Rightarrow> changeNotifier \<Rightarrow> changeNotifier" where
  "DropConn conn n =
     (case map_of (cn_subs n) conn of
        None \<Rightarrow> n
      | Some s \<Rightarrow> n\<lparr>cn_subs := AList.delete conn (cn_subs n), cn_done := cs_id s # cn_done n\<rparr>)"

end
