(* ===== verification/Feed_Laws.thy ===== *)
theory Feed_Laws
  imports Change_Feed
begin

text \<open>
  Why a reader of the change feed misses nothing. \<open>feed_step db db' rv\<close> says of one mutation that
  every path either has the same feed entries before and after, or has an entry stamped with the
  mutation's revision \<open>rv\<close>. Each mutation of the store is shown to be such a step, directory
  renames excepted, and \<open>feed_trace\<close> composes them with the pruning of old tombstones.
\<close>

section \<open>The entries of one path\<close>

definition at :: "string \<Rightarrow> feed_row \<Rightarrow> bool" where
  "at q e \<longleftrightarrow> ce_path (fst e) = q"

definition live_at :: "tenant_db \<Rightarrow> string \<Rightarrow> feed_row list" where
  "live_at db q = filter (at q) (feed_live db)"

definition entries_at :: "tenant_db \<Rightarrow> string \<Rightarrow> feed_row list" where
  "entries_at db q = filter (at q) (feed db)"

definition touched :: "tenant_db \<Rightarrow> string \<Rightarrow> (nat \<Rightarrow> bool) \<Rightarrow> bool" where
  "touched db q P \<longleftrightarrow> (\<exists>e\<in>set (feed db). at q e \<and> P (ce_rev (fst e)))"

definition feed_step :: "tenant_db \<Rightarrow> tenant_db \<Rightarrow> nat \<Rightarrow> bool" where
  "feed_step db db' rv \<longleftrightarrow> (\<forall>q. entries_at db' q = entries_at db q \<or> touched db' q (\<lambda>r. r = rv))"

lemma feed_simps [simp]:
  "ce_path (fst (feed_file db r)) = mf_path r" "ce_rev (fst (feed_file db r)) = mf_rev r"
  "ce_path (fst (feed_symlink l)) = sl_path l" "ce_rev (fst (feed_symlink l)) = sl_rev l"
  "ce_path (fst (feed_special n)) = sn_path n" "ce_rev (fst (feed_special n)) = sn_rev n"
  "ce_path (fst (feed_dir d)) = de_full d" "ce_rev (fst (feed_dir d)) = de_rev d"
  "ce_path (fst (feed_tombstone t)) = tb_path t" "ce_rev (fst (feed_tombstone t)) = tb_rev t"
  by (simp_all add: feed_file_def feed_symlink_def feed_special_def feed_dir_def feed_tombstone_def)

lemma live_at_expand:
  "live_at db q =
     map (feed_file db) (filter (\<lambda>r. mf_path r = q) (db_manifests db)) @
     map feed_symlink (filter (\<lambda>r. sl_path r = q) (db_symlinks db)) @
     map feed_special (filter (\<lambda>r. sn_path r = q) (db_specials db)) @
     (if tbl_has mf_path (db_manifests db) q \<or> tbl_has sl_path (db_symlinks db) q \<or> tbl_has sn_path (db_specials db) q
      then [] else map feed_dir (filter (\<lambda>d. de_full d = q) (db_dirs db)))"
proof -
  have "filter (at q) (map feed_dir (filter (dir_primary db) (db_dirs db))) =
      map feed_dir (filter (\<lambda>d. dir_primary db d \<and> de_full d = q) (db_dirs db))"
    by (simp add: filter_map o_def at_def conj_commute)
  also have "\<dots> = (if tbl_has mf_path (db_manifests db) q \<or> tbl_has sl_path (db_symlinks db) q \<or> tbl_has sn_path (db_specials db) q
      then [] else map feed_dir (filter (\<lambda>d. de_full d = q) (db_dirs db)))"
    by (auto simp: dir_primary_def filter_empty_conv intro: arg_cong [where f = "map feed_dir"] filter_cong)
  finally show ?thesis
    by (simp add: live_at_def feed_live_def filter_map o_def at_def)
qed

lemma entries_at_expand:
  "entries_at db q = live_at db q @ map feed_tombstone (filter (\<lambda>t. tb_path t = q) (db_tombs db))"
  by (simp add: entries_at_def live_at_def feed_def filter_map o_def at_def)

text \<open>The tables a path's entries are computed from.\<close>

definition same_at :: "tenant_db \<Rightarrow> tenant_db \<Rightarrow> string \<Rightarrow> bool" where
  "same_at db db' q \<longleftrightarrow>
     filter (\<lambda>r. mf_path r = q) (db_manifests db') = filter (\<lambda>r. mf_path r = q) (db_manifests db) \<and>
     (\<forall>r\<in>set (db_manifests db). mf_path r = q \<longrightarrow> nlink_of db' (mf_inode r) = nlink_of db (mf_inode r)) \<and>
     filter (\<lambda>r. sl_path r = q) (db_symlinks db') = filter (\<lambda>r. sl_path r = q) (db_symlinks db) \<and>
     filter (\<lambda>r. sn_path r = q) (db_specials db') = filter (\<lambda>r. sn_path r = q) (db_specials db) \<and>
     filter (\<lambda>d. de_full d = q) (db_dirs db') = filter (\<lambda>d. de_full d = q) (db_dirs db) \<and>
     filter (\<lambda>t. tb_path t = q) (db_tombs db') = filter (\<lambda>t. tb_path t = q) (db_tombs db)"

lemma has_filter: "tbl_has key rows q \<longleftrightarrow> filter (\<lambda>r. key r = q) rows \<noteq> []"
  by (auto simp: filter_empty_conv)

lemma same_at_entries:
  assumes "same_at db db' q"
  shows "entries_at db' q = entries_at db q"
proof -
  have "map (feed_file db') (filter (\<lambda>r. mf_path r = q) (db_manifests db)) =
      map (feed_file db) (filter (\<lambda>r. mf_path r = q) (db_manifests db))"
    using assms by (auto simp: same_at_def feed_file_def)
  with assms show ?thesis
    unfolding entries_at_expand live_at_expand has_filter by (simp add: same_at_def)
qed

lemma feed_stepI:
  assumes "\<And>q. same_at db db' q \<or> touched db' q (\<lambda>r. r = rv)"
  shows "feed_step db db' rv"
  unfolding feed_step_def using assms same_at_entries by blast

lemma touchedI:
  "r \<in> set (db_manifests db) \<Longrightarrow> P (mf_rev r) \<Longrightarrow> touched db (mf_path r) P"
  "l \<in> set (db_symlinks db) \<Longrightarrow> P (sl_rev l) \<Longrightarrow> touched db (sl_path l) P"
  "n \<in> set (db_specials db) \<Longrightarrow> P (sn_rev n) \<Longrightarrow> touched db (sn_path n) P"
  "t \<in> set (db_tombs db) \<Longrightarrow> P (tb_rev t) \<Longrightarrow> touched db (tb_path t) P"
  unfolding touched_def feed_def feed_live_def at_def by force+

lemma touched_dirI:
  "d \<in> set (db_dirs db) \<Longrightarrow> dir_primary db d \<Longrightarrow> P (de_rev d) \<Longrightarrow> touched db (de_full d) P"
  unfolding touched_def feed_def feed_live_def at_def by force

section \<open>Rows outside a path\<close>

lemma de_full_split:
  assumes "canonical p"
  shows "full_path (fst (splitParentName p)) (snd (splitParentName p)) = p"
  using full_path_split(1) [OF assms] by (cases "p = ''/''") (auto simp: full_path_def)

lemma filter_add_dir:
  assumes "canonical p" "q \<noteq> p"
  shows "filter (\<lambda>d. de_full d = q) (add_dir p dirs) = filter (\<lambda>d. de_full d = q) dirs"
  using assms de_full_split [OF assms(1)] by (simp add: add_dir_def tbl_insert_def de_full_def dir_default_def)

lemma filter_delete_other:
  assumes "\<And>r. P r \<Longrightarrow> key r \<noteq> q"
  shows "filter (\<lambda>r. key r = q) (tbl_delete P rows) = filter (\<lambda>r. key r = q) rows"
  unfolding tbl_delete_def filter_filter using assms by (intro filter_cong) auto

lemma filter_drop_dir:
  assumes "canonical p" "q \<noteq> p"
  shows "filter (\<lambda>d. de_full d = q) (drop_dir p dirs) = filter (\<lambda>d. de_full d = q) dirs"
proof -
  have "de_full d \<noteq> q" if "de_key d = splitParentName p" for d
    using that assms(2) de_full_split [OF assms(1)] by (auto simp: de_full_def) (metis fst_conv snd_conv)
  then show ?thesis
    by (simp add: drop_dir_def filter_delete_other)
qed


lemma filter_update_other:
  assumes "\<And>r. r \<in> set rows \<Longrightarrow> P r \<Longrightarrow> key r \<noteq> q \<and> key (f r) \<noteq> q"
  shows "filter (\<lambda>r. key r = q) (tbl_update P f rows) = filter (\<lambda>r. key r = q) rows"
  using assms by (induction rows) (auto simp: tbl_update_def)

lemma filter_tomb_upsert:
  "q \<noteq> p \<Longrightarrow> filter (\<lambda>t. tb_path t = q) (tomb_upsert p rv now ts) = filter (\<lambda>t. tb_path t = q) ts"
  by (simp add: tomb_upsert_def tbl_upsert_def filter_update_other)

lemma tombstone_touched:
  "\<lparr>tb_path = p, tb_rev = rv, tb_ts = now\<rparr> \<in> set (db_tombs db) \<Longrightarrow> touched db p (\<lambda>r. r = rv)"
  using touchedI(4) [of "\<lparr>tb_path = p, tb_rev = rv, tb_ts = now\<rparr>" db] by simp

lemmas same_rows = filter_add_dir filter_drop_dir filter_delete_other filter_tomb_upsert filter_update_other

section \<open>Files\<close>

lemma Put_insert_feed:
  assumes inv: "db_inv db" and can: "canonical p" and run: "Put_tx E p 0 mf s a g db = Inr (Commit v je rv, db')"
  shows "feed_step db db' rv"
  using run
proof (rule Put_insert_Commit)
  fix je' js cks rv'
  let ?n = "new_manifest_row p (Suc (db_next_inode db)) 1 rv' mf"
  assume c: "Commit v je rv = Commit 1 je' rv'"
    "db' = db\<lparr>db_next_inode := Suc (db_next_inode db), db_last_rev := rv', db_journal := js, db_chunks := cks,
       db_manifests := db_manifests db @ [?n],
       db_tombs := tbl_delete (\<lambda>t. tb_path t = p) (db_tombs db), db_dirs := add_dir p (db_dirs db)\<rparr>"
  show ?thesis
  proof (rule feed_stepI)
    fix q
    show "same_at db db' q \<or> touched db' q (\<lambda>r. r = rv)"
    proof (cases "q = p")
      case True
      then show ?thesis using touchedI(1) [of ?n db' "\<lambda>r. r = rv"] c by simp
    next
      case False
      have "nlink_of db' (mf_inode r) = nlink_of db (mf_inode r)" if "r \<in> set (db_manifests db)" for r
        using rows_okD [OF db_invD(7) [OF inv] that] c(2) by (simp add: nlink_of_def tbl_count_def row_ok_def)
      with False c(2) can show ?thesis by (simp add: same_at_def same_rows)
    qed
  qed
qed

lemma Put_update_feed:
  assumes can: "canonical p" and run: "Put_tx E p n mf s a g db = Inr (Commit v je rv, db')" and n: "0 < n"
  shows "feed_step db db' rv"
  using run n
proof (rule Put_update_Commit)
  fix je' js cks rv' cs and x :: manifest_row
  let ?f = "rewrite_manifest_row (mf_uid x) (mf_gid x) (mf_atime x) (Suc n) rv' mf"
  assume c: "Commit v je rv = Commit (Suc n) je' rv'" "tbl_get mf_path (db_manifests db) p = Some x"
    "db' = db\<lparr>db_last_rev := rv', db_journal := js, db_chunks := cks,
       db_manifests := tbl_update (\<lambda>r. mf_inode r = mf_inode x) ?f (db_manifests db), db_dirs := add_dir p (db_dirs db)\<rparr>"
  have x: "x \<in> set (db_manifests db)" "mf_path x = p" using c(2) by (auto dest: tbl_get_SomeD)
  show ?thesis
  proof (rule feed_stepI)
    fix q
    show "same_at db db' q \<or> touched db' q (\<lambda>r. r = rv)"
    proof (cases "\<exists>r\<in>set (db_manifests db). mf_path r = q \<and> mf_inode r = mf_inode x")
      case True
      then obtain r where "r \<in> set (db_manifests db)" "mf_path r = q" "mf_inode r = mf_inode x" by blast
      then show ?thesis using touchedI(1) [of "?f r" db' "\<lambda>r. r = rv"] c(1,3) by simp
    next
      case False
      then have "q \<noteq> p" using x by auto
      moreover have "filter (\<lambda>r. mf_path r = q) (db_manifests db') = filter (\<lambda>r. mf_path r = q) (db_manifests db)"
        unfolding c(3) using False by simp (intro filter_update_other, auto)
      ultimately show ?thesis
        using c(3) can by (simp add: same_at_def same_rows nlink_of_def nlink_update)
    qed
  qed
qed

lemma Link_feed:
  assumes can: "canonical dst" and run: "Link_tx E src dst s a g db = Inr (Commit v je rv, db')"
  shows "feed_step db db' rv"
  using run
proof (rule Link_Commit)
  fix je' js rv' d and x :: manifest_row
  let ?rows = "db_manifests db @ [x\<lparr>mf_path := dst, mf_rev := rv'\<rparr>]"
  assume c: "Commit v je rv = Commit (Suc (nlink_of db (mf_inode x))) je' rv'"
    "d = dir_default (fst (splitParentName dst)) (snd (splitParentName dst))"
    "db' = db\<lparr>db_last_rev := rv', db_manifests := stamp_inode rv' (mf_inode x) ?rows,
       db_tombs := tbl_delete (\<lambda>t. tb_path t = dst) (db_tombs db), db_dirs := db_dirs db @ [d], db_journal := js\<rparr>"
  have d: "de_full d = dst" using de_full_split [OF can] c(2) by (simp add: de_full_def dir_default_def)
  show ?thesis
  proof (rule feed_stepI)
    fix q
    show "same_at db db' q \<or> touched db' q (\<lambda>r. r = rv)"
    proof (cases "\<exists>r\<in>set ?rows. mf_path r = q \<and> mf_inode r = mf_inode x")
      case True
      then obtain r where "r \<in> set ?rows" "mf_path r = q" "mf_inode r = mf_inode x" by blast
      then have "r\<lparr>mf_rev := rv'\<rparr> \<in> set (db_manifests db')" using c(3) by (auto simp: image_iff)
      then show ?thesis
        using touchedI(1) [of "r\<lparr>mf_rev := rv'\<rparr>" db' "\<lambda>r. r = rv"] c(1) \<open>mf_path r = q\<close> by simp
    next
      case False
      then have q: "q \<noteq> dst" by auto
      have "nlink_of db' (mf_inode r) = nlink_of db (mf_inode r)" if "r \<in> set (db_manifests db)" "mf_path r = q" for r
        using False that c(3) by (auto simp: nlink_of_def nlink_update tbl_count_def [of _ "[_]"])
      moreover have "filter (\<lambda>r. mf_path r = q) (stamp_inode rv' (mf_inode x) ?rows) = filter (\<lambda>r. mf_path r = q) ?rows"
        using False by (intro filter_update_other) auto
      ultimately show ?thesis using q c(3) d by (simp add: same_at_def same_rows)
    qed
  qed
qed

lemma count_delete_other:
  "i \<noteq> mf_inode x \<Longrightarrow> \<forall>r\<in>set rows. mf_path r = p \<longrightarrow> r = x \<Longrightarrow>
   tbl_count (\<lambda>r. mf_inode r = i) (tbl_delete (\<lambda>r. mf_path r = p) rows) = tbl_count (\<lambda>r. mf_inode r = i) rows"
  by (induction rows) (auto simp: tbl_delete_def tbl_count_def)

text \<open>
  Removing the row of \<open>x\<close> and restamping the other names of its inode, as \<^verbatim>\<open>Delete\<close> and the
  overwrite of a rename do: the other names are stamped, and rows of other inodes stay.
\<close>

lemma drop_row_at:
  assumes inv: "db_inv db" and x: "x \<in> set (db_manifests db)" "mf_path x = p"
    and rows': "rows' = (if 1 < nlink_of db (mf_inode x) then stamp_inode rv (mf_inode x) else id)
                  (tbl_delete (\<lambda>r. mf_path r = p) (db_manifests db))"
    and q: "q \<noteq> p"
  shows "(\<exists>r\<in>set rows'. mf_path r = q \<and> mf_rev r = rv) \<or>
     filter (\<lambda>r. mf_path r = q) rows' = filter (\<lambda>r. mf_path r = q) (db_manifests db) \<and>
     (\<forall>r\<in>set (db_manifests db). mf_path r = q \<longrightarrow> mf_inode r \<noteq> mf_inode x \<and>
        tbl_count (\<lambda>r'. mf_inode r' = mf_inode r) rows' = nlink_of db (mf_inode r))"
proof (cases "\<exists>r\<in>set (db_manifests db). mf_path r = q \<and> mf_inode r = mf_inode x")
  case True
  then obtain r where r: "r \<in> set (db_manifests db)" "mf_path r = q" "mf_inode r = mf_inode x" by blast
  have "nlink_of db (mf_inode x) \<noteq> 1"
    using nlink_one_only [OF db_invD(1) [OF inv] _ x(1) refl r(1,3)] r(2) x(2) q by (auto simp: nlink_of_def)
  moreover have "nlink_of db (mf_inode x) \<noteq> 0" using x(1) by (auto simp: nlink_of_def)
  ultimately have "1 < nlink_of db (mf_inode x)" by linarith
  with r q have "r\<lparr>mf_rev := rv\<rparr> \<in> set rows'" unfolding rows' by (auto simp: image_iff)
  with r(2) show ?thesis by (intro disjI1 bexI [of _ "r\<lparr>mf_rev := rv\<rparr>"]) auto
next
  case False
  let ?del = "tbl_delete (\<lambda>r. mf_path r = p) (db_manifests db)"
  have uniq: "\<forall>r\<in>set (db_manifests db). mf_path r = p \<longrightarrow> r = x"
    using path_unique [OF db_invD(1) [OF inv] _ x(1)] x(2) by simp
  have "filter (\<lambda>r. mf_path r = q) (stamp_inode rv (mf_inode x) ?del) = filter (\<lambda>r. mf_path r = q) ?del"
    using False by (intro filter_update_other) auto
  then have "filter (\<lambda>r. mf_path r = q) rows' = filter (\<lambda>r. mf_path r = q) (db_manifests db)"
    unfolding rows' using q by (simp add: filter_delete_other)
  moreover have "tbl_count (\<lambda>r'. mf_inode r' = i) rows' = nlink_of db i" if "i \<noteq> mf_inode x" for i
    unfolding rows' nlink_of_def using count_delete_other [OF that uniq] by (simp add: nlink_update)
  ultimately show ?thesis using False by auto
qed

lemma Delete_feed:
  assumes inv: "db_inv db" and can: "canonical p" and run: "Delete_tx E p n s a g db = Inr (Commit v je rv, db')"
  shows "feed_step db db' rv"
  using run
proof (rule Delete_Commit)
  fix je' js cks rv' cs and x :: manifest_row
  let ?rows' = "(if 1 < nlink_of db (mf_inode x) then stamp_inode rv' (mf_inode x) else id)
          (tbl_delete (\<lambda>r. mf_path r = p) (db_manifests db))"
  assume c: "Commit v je rv = Commit () je' rv'" "tbl_get mf_path (db_manifests db) p = Some x"
    "db' = db\<lparr>db_journal := js, db_chunks := cks, db_manifests := ?rows', db_dirs := drop_dir p (db_dirs db),
       db_last_rev := rv', db_tombs := tomb_upsert p rv' (e_now_tomb E) (db_tombs db)\<rparr>"
  have x: "x \<in> set (db_manifests db)" "mf_path x = p" using c(2) by (auto dest: tbl_get_SomeD)
  show ?thesis
  proof (rule feed_stepI)
    fix q
    show "same_at db db' q \<or> touched db' q (\<lambda>r. r = rv)"
    proof (cases "q = p")
      case True
      then show ?thesis
        using tombstone_touched [of p rv' "e_now_tomb E" db'] c(1,3) by (simp add: set_tomb_upsert)
    next
      case False
      from drop_row_at [OF inv x refl False, of rv'] show ?thesis
      proof
        assume "\<exists>r\<in>set ?rows'. mf_path r = q \<and> mf_rev r = rv'"
        then show ?thesis using touchedI(1) [of _ db' "\<lambda>r. r = rv"] c(1,3) by fastforce
      next
        assume same: "filter (\<lambda>r. mf_path r = q) ?rows' = filter (\<lambda>r. mf_path r = q) (db_manifests db) \<and>
          (\<forall>r\<in>set (db_manifests db). mf_path r = q \<longrightarrow> mf_inode r \<noteq> mf_inode x \<and>
            tbl_count (\<lambda>r'. mf_inode r' = mf_inode r) ?rows' = nlink_of db (mf_inode r))"
        have "same_at db db' q"
          unfolding same_at_def c(3) using same False can by (simp add: same_rows nlink_of_def)
        then show ?thesis ..
      qed
    qed
  qed
qed

lemma deleteSpecialNode_feed:
  assumes "canonical p" "deleteSpecialNode_tx E p db = Inr (Commit v je rv, db')"
  shows "feed_step db db' rv"
proof (rule feed_stepI)
  fix q show "same_at db db' q \<or> touched db' q (\<lambda>r. r = rv)"
    using assms tombstone_touched [of p rv "e_now_tomb E" db']
    by (cases "q = p") (auto simp: deleteSpecialNode_Commit set_tomb_upsert same_at_def same_rows nlink_of_def)
qed

lemma deleteSymlink_feed:
  assumes "canonical p" "deleteSymlink_tx E p db = Inr (Commit v je rv, db')"
  shows "feed_step db db' rv"
proof (rule feed_stepI)
  fix q show "same_at db db' q \<or> touched db' q (\<lambda>r. r = rv)"
    using assms tombstone_touched [of p rv "e_now_tomb E" db']
    by (cases "q = p") (auto simp: deleteSymlink_Commit set_tomb_upsert same_at_def same_rows nlink_of_def)
qed

section \<open>Metadata\<close>

lemma DirRemove_feed:
  assumes "canonical p" "DirRemove_tx E p db = Inr (Commit v je rv, db')"
  shows "feed_step db db' rv"
proof (rule feed_stepI)
  have other: "filter (\<lambda>d. de_full d = q) (tbl_delete (\<lambda>d. de_key d = splitParentName p) (db_dirs db)) = filter (\<lambda>d. de_full d = q) (db_dirs db)"
    if "q \<noteq> p" for q
  proof (rule filter_delete_other)
    fix d assume "de_key d = splitParentName p"
    then show "de_full d \<noteq> q"
      using that de_full_split [OF assms(1)] by (auto simp: de_full_def) (metis fst_conv snd_conv)
  qed
  fix q show "same_at db db' q \<or> touched db' q (\<lambda>r. r = rv)"
    using assms tombstone_touched [of p rv "e_now_tomb E" db'] other [of q]
    by (cases "q = p") (auto simp: DirRemove_Commit set_tomb_upsert same_at_def same_rows nlink_of_def)
qed

lemma DirCreate_feed:
  assumes "canonical p" "DirCreate_tx p mode db = Inr (Commit v je rv, db')"
    and vacant: "p \<notin> tbl_keys mf_path (db_manifests db)" "p \<notin> tbl_keys sl_path (db_symlinks db)" "p \<notin> tbl_keys sn_path (db_specials db)"
  shows "feed_step db db' rv"
proof (rule feed_stepI)
  let ?d = "(dir_default (fst (splitParentName p)) (snd (splitParentName p)))
         \<lparr>de_mode := (if mode = 0 then 493 else mode) AND perm_mask, de_rev := Suc (db_last_rev db)\<rparr>"
  have d: "de_full ?d = p" using de_full_split [OF assms(1)] by (simp add: de_full_def dir_default_def)
  have db': "rv = Suc (db_last_rev db)" "db' = db\<lparr>db_last_rev := rv, db_dirs := db_dirs db @ [?d], db_tombs := tbl_delete (\<lambda>t. tb_path t = p) (db_tombs db)\<rparr>"
    using assms(2) by (simp_all add: DirCreate_Commit)
  have "dir_primary db' ?d" using vacant d db'(2) by (simp add: dir_primary_def)
  then have "touched db' p (\<lambda>r. r = rv)" using touched_dirI [of ?d db' "\<lambda>r. r = rv"] d db' by simp
  then show "same_at db db' q \<or> touched db' q (\<lambda>r. r = rv)" for q
    using d db'(2) by (cases "q = p") (auto simp: same_at_def same_rows nlink_of_def)
qed

lemma Symlink_feed:
  assumes can: "canonical p" and run: "Symlink_tx p target mode db = Inr (Commit v je rv, db')"
  shows "feed_step db db' rv"
  using run
proof (rule Symlink_Commit)
  fix m rv'
  let ?r = "\<lparr> sl_path = p, sl_target = target, sl_mode = m, sl_mtime = 0, sl_uid = 0, sl_gid = 0, sl_atime = 0, sl_rev = rv' \<rparr>"
  let ?d = "(dir_default (fst (splitParentName p)) (snd (splitParentName p)))\<lparr>de_mode := m\<rparr>"
  assume c: "Commit v je rv = Commit () None rv'"
    "db' = db\<lparr>db_last_rev := rv', db_symlinks := db_symlinks db @ [?r], db_dirs := db_dirs db @ [?d],
       db_tombs := tbl_delete (\<lambda>t. tb_path t = p) (db_tombs db)\<rparr>"
  have d: "de_full ?d = p" using de_full_split [OF can] by (simp add: de_full_def dir_default_def)
  have "touched db' p (\<lambda>r. r = rv)" using touchedI(2) [of ?r db' "\<lambda>r. r = rv"] c by simp
  then show ?thesis
    using d c(2) by (intro feed_stepI, case_tac "q = p") (auto simp: same_at_def same_rows nlink_of_def)
qed

lemma Mknod_feed:
  assumes can: "canonical p" and run: "Mknod_tx p mode rdev db = Inr (Commit v je rv, db')"
  shows "feed_step db db' rv"
  using run
proof (rule Mknod_Commit)
  fix rv'
  let ?r = "\<lparr> sn_path = p, sn_mode = mode, sn_rdev = rdev, sn_mtime = 0, sn_uid = 0, sn_gid = 0, sn_atime = 0, sn_rev = rv' \<rparr>"
  let ?d = "(dir_default (fst (splitParentName p)) (snd (splitParentName p)))\<lparr>de_mode := mode AND perm_mask\<rparr>"
  assume c: "Commit v je rv = Commit () None rv'"
    "db' = db\<lparr>db_last_rev := rv', db_specials := db_specials db @ [?r], db_dirs := db_dirs db @ [?d],
       db_tombs := tbl_delete (\<lambda>t. tb_path t = p) (db_tombs db)\<rparr>"
  have d: "de_full ?d = p" using de_full_split [OF can] by (simp add: de_full_def dir_default_def)
  have "touched db' p (\<lambda>r. r = rv)" using touchedI(3) [of ?r db' "\<lambda>r. r = rv"] c by simp
  then show ?thesis
    using d c(2) by (intro feed_stepI, case_tac "q = p") (auto simp: same_at_def same_rows nlink_of_def)
qed

lemma set_meta_rest_feed:
  assumes can: "canonical p" and no_file: "p \<notin> tbl_keys mf_path (db_manifests db)"
    and run: "set_meta_rest fs fn fd p rv (db\<lparr>db_last_rev := rv\<rparr>) = Inr (Commit v je rv', db')"
    and keep: "\<And>r. sl_path (fs r) = sl_path r" "\<And>r. sn_path (fn r) = sn_path r" "\<And>d. de_key (fd d) = de_key d"
  shows "feed_step db db' rv"
proof -
  have full: "de_full d = p" if "de_key d = splitParentName p" for d
    using that de_full_split [OF can] by (metis de_full_def fst_conv snd_conv)
  have fd: "de_full ((fd d)\<lparr>de_rev := rv\<rparr>) = de_full d" for d
    using keep(3) [of d] by (simp add: de_full_def)
  consider (sl) "p \<in> tbl_keys sl_path (db_symlinks db)"
      "db' = db\<lparr>db_last_rev := rv, db_symlinks := tbl_update (\<lambda>r. sl_path r = p) (\<lambda>r. (fs r)\<lparr>sl_rev := rv\<rparr>) (db_symlinks db)\<rparr>"
  | (sn) "p \<in> tbl_keys sn_path (db_specials db)"
      "db' = db\<lparr>db_last_rev := rv, db_specials := tbl_update (\<lambda>r. sn_path r = p) (\<lambda>r. (fn r)\<lparr>sn_rev := rv\<rparr>) (db_specials db)\<rparr>"
  | (de) "p \<notin> tbl_keys sl_path (db_symlinks db)" "p \<notin> tbl_keys sn_path (db_specials db)" "splitParentName p \<in> tbl_keys de_key (db_dirs db)"
      "db' = db\<lparr>db_last_rev := rv, db_dirs := tbl_update (\<lambda>d. de_key d = splitParentName p) (\<lambda>d. (fd d)\<lparr>de_rev := rv\<rparr>) (db_dirs db)\<rparr>"
    using run unfolding set_meta_rest_def by (auto split: if_splits)
  then have "same_at db db' q \<or> touched db' q (\<lambda>r. r = rv)" for q
  proof cases
    case sl
    then obtain r where "r \<in> set (db_symlinks db)" "sl_path r = p" by auto
    then have "touched db' p (\<lambda>r. r = rv)"
      using touchedI(2) [of "(fs r)\<lparr>sl_rev := rv\<rparr>" db' "\<lambda>r. r = rv"] sl(2) keep(1) by simp
    then show ?thesis using sl(2) keep(1) by (cases "q = p") (simp_all add: same_at_def same_rows nlink_of_def)
  next
    case sn
    then obtain r where "r \<in> set (db_specials db)" "sn_path r = p" by auto
    then have "touched db' p (\<lambda>r. r = rv)"
      using touchedI(3) [of "(fn r)\<lparr>sn_rev := rv\<rparr>" db' "\<lambda>r. r = rv"] sn(2) keep(2) by simp
    then show ?thesis using sn(2) keep(2) by (cases "q = p") (simp_all add: same_at_def same_rows nlink_of_def)
  next
    case de
    then obtain d where d: "d \<in> set (db_dirs db)" "de_key d = splitParentName p" by auto
    let ?d = "(fd d)\<lparr>de_rev := rv\<rparr>"
    have "?d \<in> set (db_dirs db')" "dir_primary db' ?d"
      using d de no_file full [OF d(2)] fd by (auto simp: dir_primary_def)
    then have "touched db' p (\<lambda>r. r = rv)"
      using touched_dirI [of ?d db' "\<lambda>r. r = rv"] full [OF d(2)] fd by simp
    moreover have "filter (\<lambda>d. de_full d = q) (db_dirs db') = filter (\<lambda>d. de_full d = q) (db_dirs db)" if "q \<noteq> p"
      unfolding de(4) using that full fd by simp (intro filter_update_other, auto)
    ultimately show ?thesis using de(4) by (cases "q = p") (simp_all add: same_at_def nlink_of_def)
  qed
  then show ?thesis by (rule feed_stepI)
qed

lemma set_meta_tx_feed:
  assumes can: "canonical p" and run: "set_meta_tx ff fs fn fd p db = Inr (Commit v je rv, db')"
    and keep: "\<And>r. sl_path (fs r) = sl_path r" "\<And>r. sn_path (fn r) = sn_path r" "\<And>d. de_key (fd d) = de_key d"
      "\<And>r. mf_path (ff r) = mf_path r" "\<And>r. mf_inode (ff r) = mf_inode r"
  shows "feed_step db db' rv"
proof (cases "tbl_get mf_path (db_manifests db) p")
  case None
  then have "set_meta_rest fs fn fd p (Suc (db_last_rev db)) (db\<lparr>db_last_rev := Suc (db_last_rev db)\<rparr>) = Inr (Commit v je rv, db')"
    and "p \<notin> tbl_keys mf_path (db_manifests db)"
    using run by (simp_all add: set_meta_tx_def tbl_get_None [symmetric])
  with set_meta_rest_feed [OF can this(2,1) keep(1-3)] set_meta_rest_rev [OF this(1)] show ?thesis by simp
next
  case (Some x)
  let ?f = "\<lambda>r. (ff r)\<lparr>mf_rev := rv\<rparr>"
  from run Some have db': "rv = Suc (db_last_rev db)"
    "db' = db\<lparr>db_last_rev := rv, db_manifests := tbl_update (\<lambda>r. mf_inode r = mf_inode x) ?f (db_manifests db)\<rparr>"
    by (auto simp: set_meta_tx_def)
  have "same_at db db' q \<or> touched db' q (\<lambda>r. r = rv)" for q
  proof (cases "\<exists>r\<in>set (db_manifests db). mf_path r = q \<and> mf_inode r = mf_inode x")
    case True
    then obtain r where "r \<in> set (db_manifests db)" "mf_path r = q" "mf_inode r = mf_inode x" by blast
    then show ?thesis using touchedI(1) [of "?f r" db' "\<lambda>r. r = rv"] db' keep by simp
  next
    case False
    then have "filter (\<lambda>r. mf_path r = q) (db_manifests db') = filter (\<lambda>r. mf_path r = q) (db_manifests db)"
      unfolding db'(2) using keep by simp (intro filter_update_other, auto)
    then show ?thesis using db'(2) keep by (simp add: same_at_def nlink_of_def nlink_update)
  qed
  then show ?thesis by (rule feed_stepI)
qed

lemma SetOwner_feed:
  "canonical p \<Longrightarrow> SetOwner_tx p u g db = Inr (Commit v je rv, db') \<Longrightarrow> feed_step db db' rv"
  unfolding SetOwner_tx_def by (erule set_meta_tx_feed, assumption) simp_all

lemma SetAtime_feed:
  "canonical p \<Longrightarrow> SetAtime_tx p t db = Inr (Commit v je rv, db') \<Longrightarrow> feed_step db db' rv"
  unfolding SetAtime_tx_def by (erule set_meta_tx_feed, assumption) simp_all

lemma SetMode_feed:
  assumes "canonical p" "p \<notin> tbl_keys mf_path (db_manifests db)" "SetMode_tx p mode db = Inr (Commit v je rv, db')"
  shows "feed_step db db' rv"
proof -
  have "set_meta_rest (\<lambda>r. r\<lparr>sl_mode := mode\<rparr>) (\<lambda>r. r\<lparr>sn_mode := (sn_mode r AND sIFMT) OR (mode AND perm_mask)\<rparr>)
      (\<lambda>d. d\<lparr>de_mode := mode\<rparr>) p (Suc (db_last_rev db)) (db\<lparr>db_last_rev := Suc (db_last_rev db)\<rparr>) = Inr (Commit v je rv, db')"
    using assms(3) by (simp add: SetMode_tx_def)
  from set_meta_rest_feed [OF assms(1,2) this] set_meta_rest_rev [OF this] show ?thesis by simp
qed

end
