(* ===== verification/Feed_Rename.thy ===== *)
theory Feed_Rename
  imports Feed_Laws
begin

text \<open>
  Renames in the change feed. A rename of a file, symlink or special node is a \<open>feed_step\<close> like
  every other mutation; it is composed from its parts with \<open>frame_at\<close>. The theory then composes
  mutations and tombstone pruning into \<open>feed_trace\<close> and shows what a reader that stopped at a
  revision can rely on.
\<close>

section \<open>Rows outside a set of paths\<close>

definition stamped :: "tenant_db \<Rightarrow> string \<Rightarrow> nat \<Rightarrow> bool" where
  "stamped db q rv \<longleftrightarrow> (\<exists>r\<in>set (db_manifests db). mf_path r = q \<and> mf_rev r = rv)"

definition frame_at :: "string set \<Rightarrow> nat \<Rightarrow> tenant_db \<Rightarrow> tenant_db \<Rightarrow> bool" where
  "frame_at S rv db db' \<longleftrightarrow> (\<forall>q. q \<notin> S \<longrightarrow> same_at db db' q \<or> stamped db' q rv)"

lemma same_at_refl [simp]: "same_at db db q"
  by (simp add: same_at_def)

lemma same_at_row:
  assumes "same_at db db' q" "mf_path r = q"
  shows "r \<in> set (db_manifests db') \<longleftrightarrow> r \<in> set (db_manifests db)"
proof -
  have "set (filter (\<lambda>r. mf_path r = q) (db_manifests db')) = set (filter (\<lambda>r. mf_path r = q) (db_manifests db))"
    using assms(1) by (simp add: same_at_def)
  with assms(2) show ?thesis by (auto simp: set_eq_iff)
qed

lemma same_at_trans:
  assumes "same_at a b q" "same_at b c q"
  shows "same_at a c q"
proof -
  have "nlink_of c (mf_inode r) = nlink_of a (mf_inode r)" if "r \<in> set (db_manifests a)" "mf_path r = q" for r
    using assms that same_at_row [OF assms(1) that(2)] by (simp add: same_at_def)
  with assms show ?thesis by (simp add: same_at_def)
qed

lemma frame_at_trans:
  assumes "frame_at S rv a b" "frame_at S rv b c"
  shows "frame_at S rv a c"
  unfolding frame_at_def
proof (intro allI impI)
  fix q assume q: "q \<notin> S"
  show "same_at a c q \<or> stamped c q rv"
  proof (cases "same_at b c q")
    case True
    then have "stamped b q rv \<Longrightarrow> stamped c q rv" using same_at_row [OF True] by (auto simp: stamped_def)
    with True q assms(1) same_at_trans show ?thesis unfolding frame_at_def by blast
  next
    case False
    with q assms(2) show ?thesis unfolding frame_at_def by blast
  qed
qed

lemma frame_at_mono: "frame_at S rv a b \<Longrightarrow> S \<subseteq> T \<Longrightarrow> frame_at T rv a b"
  unfolding frame_at_def by blast

lemma frame_at_same: "(\<And>q. q \<notin> S \<Longrightarrow> same_at a b q) \<Longrightarrow> frame_at S rv a b"
  unfolding frame_at_def by blast

section \<open>The steps of a rename\<close>

lemma deleteDest_Inr:
  assumes "deleteDestTx to k rv db = Inr (u, db')"
  obtains (file_row) x cks where "k = nodeRegular" "tbl_get mf_path (db_manifests db) to = Some x"
      "db' = db\<lparr>db_chunks := cks, db_manifests := (if 1 < nlink_of db (mf_inode x) then stamp_inode rv (mf_inode x) else id)
          (tbl_delete (\<lambda>r. mf_path r = to) (db_manifests db)), db_dirs := drop_dir to (db_dirs db)\<rparr>"
  | (other) "k \<noteq> nodeRegular" "db_manifests db' = db_manifests db" "db_tombs db' = db_tombs db"
      "db_symlinks db' = db_symlinks db \<or> db_symlinks db' = tbl_delete (\<lambda>r. sl_path r = to) (db_symlinks db)"
      "db_specials db' = db_specials db \<or> db_specials db' = tbl_delete (\<lambda>r. sn_path r = to) (db_specials db)"
      "db_dirs db' = drop_dir to (db_dirs db)"
proof (cases "k = nodeRegular")
  case True
  with assms obtain x db1 db2 where x: "tbl_get mf_path (db_manifests db) to = Some x"
    and w1: "tx_when (nlink_of db (mf_inode x) = 1) (tx_bind (tx_lift ErrUnpackChunks (unpackChunks (mf_chunks x)))
                      (\<lambda>dstChunks. refs_tx (chunkRefDelta dstChunks []))) db = Inr ((), db1)"
    and w2: "tx_when (1 < nlink_of db (mf_inode x)) (tx_exec (restamp_inode rv (mf_inode x)))
      (db1\<lparr>db_manifests := tbl_delete (\<lambda>r. mf_path r = to) (db_manifests db1)\<rparr>) = Inr ((), db2)"
    and db': "db' = db2\<lparr>db_dirs := drop_dir to (db_dirs db2)\<rparr>"
    by (auto simp: deleteDestTx_def simp del: tx_when_Inr)
  obtain cks where "db1 = db\<lparr>db_chunks := cks\<rparr>"
  proof (cases "nlink_of db (mf_inode x) = 1")
    case one: True
    with w1 show thesis by (auto intro: that)
  next
    case False
    with w1 show thesis by (intro that [of "db_chunks db"]) simp
  qed
  with w2 db' True x show thesis
    by (intro file_row [of x cks]) (cases "1 < nlink_of db (mf_inode x)"; simp add: restamp_inode_def)+
next
  case False
  with assms show thesis by (intro other) (auto simp: deleteDestTx_def split: nodeKind.splits)
qed

lemma deleteDest_frame:
  assumes inv: "db_inv db" and can: "canonical to" and run: "deleteDestTx to k rv db = Inr (u, db')"
  shows "frame_at {to} rv db db'"
  using run
proof (cases rule: deleteDest_Inr)
  case (file_row x cks)
  have x: "x \<in> set (db_manifests db)" "mf_path x = to" using file_row(2) by (auto dest: tbl_get_SomeD)
  show ?thesis
    unfolding frame_at_def
  proof (intro allI impI)
    fix q assume "q \<notin> {to}"
    then have q: "q \<noteq> to" by simp
    define rows' where "rows' = (if 1 < nlink_of db (mf_inode x) then stamp_inode rv (mf_inode x) else id)
          (tbl_delete (\<lambda>r. mf_path r = to) (db_manifests db))"
    have db': "db' = db\<lparr>db_chunks := cks, db_manifests := rows', db_dirs := drop_dir to (db_dirs db)\<rparr>"
      using file_row(3) unfolding rows'_def .
    from drop_row_at [OF inv x rows'_def q] show "same_at db db' q \<or> stamped db' q rv"
    proof
      assume "\<exists>r\<in>set rows'. mf_path r = q \<and> mf_rev r = rv"
      then show ?thesis unfolding db' stamped_def by simp
    next
      assume same: "filter (\<lambda>r. mf_path r = q) rows' = filter (\<lambda>r. mf_path r = q) (db_manifests db) \<and>
        (\<forall>r\<in>set (db_manifests db). mf_path r = q \<longrightarrow> mf_inode r \<noteq> mf_inode x \<and>
          tbl_count (\<lambda>r'. mf_inode r' = mf_inode r) rows' = nlink_of db (mf_inode r))"
      have "same_at db db' q"
        unfolding same_at_def db' using same q can by (simp add: same_rows nlink_of_def)
      then show ?thesis ..
    qed
  qed
next
  case other
  show ?thesis
  proof (rule frame_at_same)
    fix q assume "q \<notin> {to}"
    then show "same_at db db' q"
      using other can by (auto simp: same_at_def same_rows nlink_of_def)
  qed
qed

lemma deleteDest_keeps_row:
  assumes run: "deleteDestTx to k rv db = Inr (u, db')" and p: "p \<noteq> to"
  shows "x \<in> set (db_manifests db) \<Longrightarrow> mf_path x = p \<Longrightarrow> \<exists>y\<in>set (db_manifests db'). mf_path y = p \<and> mf_inode y = mf_inode x"
    "p \<in> tbl_keys sl_path (db_symlinks db) \<Longrightarrow> p \<in> tbl_keys sl_path (db_symlinks db')"
    "p \<in> tbl_keys sn_path (db_specials db) \<Longrightarrow> p \<in> tbl_keys sn_path (db_specials db')"
proof -
  show "\<exists>y\<in>set (db_manifests db'). mf_path y = p \<and> mf_inode y = mf_inode x" if x: "x \<in> set (db_manifests db)" "mf_path x = p"
    using run
  proof (cases rule: deleteDest_Inr)
    case (file_row d cks)
    let ?y = "if 1 < nlink_of db (mf_inode d) \<and> mf_inode x = mf_inode d then x\<lparr>mf_rev := rv\<rparr> else x"
    have "?y \<in> set (db_manifests db')" unfolding file_row(3) using x p by (auto simp: image_iff)
    with x(2) show ?thesis by (intro bexI [of _ ?y]) auto
  next
    case other
    with x show ?thesis by auto
  qed
  show "p \<in> tbl_keys sl_path (db_symlinks db')" if "p \<in> tbl_keys sl_path (db_symlinks db)"
    using run that p by (cases rule: deleteDest_Inr) auto
  show "p \<in> tbl_keys sn_path (db_specials db')" if "p \<in> tbl_keys sn_path (db_specials db)"
    using run that p by (cases rule: deleteDest_Inr) auto
qed

lemma move_file_frame:
  assumes run: "moveRenameSourceTx now src dst nodeRegular v (mf_inode x) rv db = Inr (u, db')"
    and x: "\<exists>y\<in>set (db_manifests db). mf_path y = src \<and> mf_inode y = mf_inode x"
  shows "frame_at {src, dst} rv db db'" "stamped db' dst rv"
proof -
  let ?rows = "tbl_update (\<lambda>r. mf_path r = src) (\<lambda>r. r\<lparr>mf_path := dst\<rparr>) (db_manifests db)"
  let ?f = "\<lambda>r. r\<lparr>mf_version := v, mf_rev := rv\<rparr>"
  have db': "db' = db\<lparr>db_manifests := tbl_update (\<lambda>r. mf_inode r = mf_inode x) ?f ?rows\<rparr>"
    using run by (auto simp: moveRenameSourceTx_def dest!: rekey_manifests_Inr(1))
  show "frame_at {src, dst} rv db db'"
    unfolding frame_at_def
  proof (intro allI impI)
    fix q assume q: "q \<notin> {src, dst}"
    show "same_at db db' q \<or> stamped db' q rv"
    proof (cases "\<exists>r\<in>set (db_manifests db). mf_path r = q \<and> mf_inode r = mf_inode x")
      case True
      then obtain r where "r \<in> set (db_manifests db)" "mf_path r = q" "mf_inode r = mf_inode x" by blast
      with q have "?f r \<in> set (db_manifests db')" unfolding db' by (auto simp: image_iff)
      with \<open>mf_path r = q\<close> show ?thesis unfolding stamped_def by (intro disjI2 bexI [of _ "?f r"]) auto
    next
      case False
      have "filter (\<lambda>r. mf_path r = q) (db_manifests db') = filter (\<lambda>r. mf_path r = q) ?rows"
        unfolding db' using False q by simp (intro filter_update_other, auto split: if_splits)
      also have "\<dots> = filter (\<lambda>r. mf_path r = q) (db_manifests db)"
        using q by (intro filter_update_other) auto
      finally show ?thesis unfolding db' same_at_def by (simp add: nlink_of_def nlink_update)
    qed
  qed
  from x obtain y where "y \<in> set (db_manifests db)" "mf_path y = src" "mf_inode y = mf_inode x" by blast
  then have "?f (y\<lparr>mf_path := dst\<rparr>) \<in> set (db_manifests db')"
    unfolding db' by (auto simp: image_iff)
  then show "stamped db' dst rv" unfolding stamped_def by (rule bexI [rotated]) simp
qed

lemma move_link_frame:
  assumes run: "moveRenameSourceTx now src dst nodeSymlink v i rv db = Inr (u, db')"
    and x: "src \<in> tbl_keys sl_path (db_symlinks db)"
  shows "frame_at {src, dst} rv db db'" "\<exists>l\<in>set (db_symlinks db'). sl_path l = dst \<and> sl_rev l = rv"
proof -
  let ?f = "\<lambda>r. r\<lparr>sl_path := dst, sl_rev := rv\<rparr>"
  have db': "db' = db\<lparr>db_symlinks := tbl_update (\<lambda>r. sl_path r = src) ?f (db_symlinks db)\<rparr>"
    using run by (auto simp: moveRenameSourceTx_def dest!: rekey_symlinks_Inr(1))
  show "frame_at {src, dst} rv db db'"
    unfolding db' by (rule frame_at_same) (simp add: same_at_def nlink_of_def, intro filter_update_other, auto)
  from x obtain l where "l \<in> set (db_symlinks db)" "sl_path l = src" by auto
  then have "?f l \<in> set (db_symlinks db')" unfolding db' by (auto simp: image_iff)
  then show "\<exists>l\<in>set (db_symlinks db'). sl_path l = dst \<and> sl_rev l = rv" by (rule bexI [rotated]) simp
qed

lemma move_special_frame:
  assumes run: "moveRenameSourceTx now src dst nodeSpecial v i rv db = Inr (u, db')"
    and x: "src \<in> tbl_keys sn_path (db_specials db)"
  shows "frame_at {src, dst} rv db db'" "\<exists>l\<in>set (db_specials db'). sn_path l = dst \<and> sn_rev l = rv"
proof -
  let ?f = "\<lambda>r. r\<lparr>sn_path := dst, sn_rev := rv\<rparr>"
  have db': "db' = db\<lparr>db_specials := tbl_update (\<lambda>r. sn_path r = src) ?f (db_specials db)\<rparr>"
    using run by (auto simp: moveRenameSourceTx_def dest!: rekey_specials_Inr(1))
  show "frame_at {src, dst} rv db db'"
    unfolding db' by (rule frame_at_same) (simp add: same_at_def nlink_of_def, intro filter_update_other, auto)
  from x obtain l where "l \<in> set (db_specials db)" "sn_path l = src" by auto
  then have "?f l \<in> set (db_specials db')" unfolding db' by (auto simp: image_iff)
  then show "\<exists>l\<in>set (db_specials db'). sn_path l = dst \<and> sn_rev l = rv" by (rule bexI [rotated]) simp
qed


lemma journalRename_tables:
  assumes "journalRenameTx E src dst v x s a g db = Inr (u, db')"
  shows "\<exists>js. db' = db\<lparr>db_journal := js\<rparr>"
proof (cases "x = None \<or> s = ''''")
  case True
  with assms have "db' = db\<lparr>db_journal := db_journal db\<rparr>"
    by (auto simp: journalRenameTx_def split: option.splits)
  then show ?thesis ..
next
  case False
  with assms show ?thesis by (auto simp: journalRenameTx_def elim!: journalBeforeWrite_Inr)
qed

lemma rewriteDirs_node:
  assumes "rewriteRenameDirEntriesTx src dst k rv db = Inr (u, db')" "k \<noteq> nodeDir"
  shows "db' = db\<lparr>db_dirs := drop_dir src (db_dirs db)\<rparr> \<or> db' = db\<lparr>db_dirs := add_dir dst (drop_dir src (db_dirs db))\<rparr>"
  using assms by (auto simp: rewriteRenameDirEntriesTx_def split: prod.splits if_splits)

lemma same_at_upd [simp]:
  "same_at db (db\<lparr>db_journal := js\<rparr>) q" "same_at db (db\<lparr>db_last_rev := n\<rparr>) q"
  by (simp_all add: same_at_def nlink_of_def)

text \<open>The last steps, from the moved rows to the tombstone of the old path.\<close>

lemma rename_tail:
  assumes can: "canonical src" "canonical dst" and k: "k \<noteq> nodeDir"
    and run: "tx_seq (rewriteRenameDirEntriesTx src dst k rv) (tx_seq (upsertTombstoneTx now src rv) (clearTombstoneTx dst)) db = Inr (u, db')"
  shows "frame_at {src, dst} rv db db'" "db_manifests db' = db_manifests db" "db_symlinks db' = db_symlinks db"
    "db_specials db' = db_specials db" "src \<noteq> dst \<Longrightarrow> touched db' src (\<lambda>r. r = rv)"
proof -
  from run obtain db1 where "rewriteRenameDirEntriesTx src dst k rv db = Inr ((), db1)"
    and db': "db' = db1\<lparr>db_tombs := tbl_delete (\<lambda>t. tb_path t = dst) (tomb_upsert src rv now (db_tombs db1))\<rparr>"
    by auto
  from rewriteDirs_node [OF this(1) k] obtain ds where db1: "db1 = db\<lparr>db_dirs := ds\<rparr>"
    and ds: "ds = drop_dir src (db_dirs db) \<or> ds = add_dir dst (drop_dir src (db_dirs db))" by blast
  show "frame_at {src, dst} rv db db'"
    unfolding db' db1 by (rule frame_at_same) (use ds can in \<open>auto simp: same_at_def nlink_of_def same_rows\<close>)
  show "db_manifests db' = db_manifests db" "db_symlinks db' = db_symlinks db" "db_specials db' = db_specials db"
    unfolding db' db1 by simp_all
  assume "src \<noteq> dst"
  then show "touched db' src (\<lambda>r. r = rv)"
    using tombstone_touched [of src rv now db'] unfolding db' db1 by (simp add: set_tomb_upsert)
qed

lemma rename_apply_feed:
  assumes inv: "db_inv db" and can: "canonical src" "canonical dst" and ne: "src \<noteq> dst"
    and k: "k = resolveKind db src" "k \<noteq> nodeDir" "k \<noteq> nodeAbsent"
    and x: "if k = nodeRegular then \<exists>r. x = Some r \<and> tbl_get mf_path (db_manifests db) src = Some r else x = None"
    and run: "rename_apply E src dst k dk dv x s a g db = Inr (Commit v je rv, db')"
  shows "feed_step db db' rv"
proof -
  let ?i = "case x of None \<Rightarrow> 0 | Some r \<Rightarrow> mf_inode r"
  let ?db1 = "db\<lparr>db_last_rev := Suc (db_last_rev db)\<rparr>"
  let ?tail = "tx_seq (rewriteRenameDirEntriesTx src dst k rv) (tx_seq (upsertTombstoneTx (e_now_tomb E) src rv) (clearTombstoneTx dst))"
  have "k = nodeRegular \<Longrightarrow> x \<noteq> None" using x by auto
  from rename_apply_inv(2) [OF inv run this] have rv: "rv = Suc (db_last_rev db)" by auto
  from run obtain db2 nv je' db3 db4 where d: "tx_when (dk \<noteq> nodeAbsent) (deleteDestTx dst dk rv) ?db1 = Inr ((), db2)"
    and j: "journalRenameTx E src dst dv x s a g db2 = Inr ((nv, je'), db3)"
    and m: "moveRenameSourceTx (e_now_tomb E) src dst k nv ?i rv db3 = Inr ((), db4)"
    and t: "?tail db4 = Inr ((), db')"
    unfolding rv by (fastforce simp: rename_apply_def simp del: tx_when_Inr)
  have f2: "frame_at {src, dst} rv db db2" and keep: "dk = nodeAbsent \<Longrightarrow> db2 = ?db1" "dk \<noteq> nodeAbsent \<Longrightarrow> deleteDestTx dst dk rv ?db1 = Inr ((), db2)"
  proof -
    show "dk = nodeAbsent \<Longrightarrow> db2 = ?db1" "dk \<noteq> nodeAbsent \<Longrightarrow> deleteDestTx dst dk rv ?db1 = Inr ((), db2)"
      using d by simp_all
    have "frame_at {src, dst} rv ?db1 db2"
      using d deleteDest_frame [OF inv_alloc_rev [OF inv] can(2), of dk rv "()" db2]
      by (cases "dk = nodeAbsent") (auto intro: frame_at_mono frame_at_same)
    then show "frame_at {src, dst} rv db db2"
      by (rule frame_at_trans [rotated]) (rule frame_at_same, simp)
  qed
  obtain js where db3: "db3 = db2\<lparr>db_journal := js\<rparr>" using journalRename_tables [OF j] ..
  have f3: "frame_at {src, dst} rv db db3"
    using f2 unfolding db3 by (rule frame_at_trans) (rule frame_at_same, simp)
  note tl = rename_tail [OF can k(2) t]
  have "frame_at {src, dst} rv db3 db4 \<and> touched db' dst (\<lambda>r. r = rv)"
  proof (cases k)
    case nodeRegular
    then obtain r where r: "x = Some r" "r \<in> set (db_manifests ?db1)" "mf_path r = src"
      using x by (auto dest: tbl_get_SomeD)
    have "\<exists>y\<in>set (db_manifests db3). mf_path y = src \<and> mf_inode y = mf_inode r"
      unfolding db3 using keep r deleteDest_keeps_row(1) [OF keep(2) ne r(2,3)] by (cases "dk = nodeAbsent") auto
    from move_file_frame [OF _ this] m r(1) nodeRegular
    have "frame_at {src, dst} rv db3 db4" "stamped db4 dst rv" by auto
    then show ?thesis using touchedI(1) [of _ db' "\<lambda>r. r = rv"] tl(2) unfolding stamped_def by auto
  next
    case nodeSymlink
    then have "src \<in> tbl_keys sl_path (db_symlinks ?db1)" using k(1) by (auto simp: resolveKind_def split: if_splits)
    then have "src \<in> tbl_keys sl_path (db_symlinks db3)"
      unfolding db3 using keep(1) deleteDest_keeps_row(2) [OF keep(2) ne] by (cases "dk = nodeAbsent") auto
    from move_link_frame [OF _ this] m nodeSymlink
    have "frame_at {src, dst} rv db3 db4" "\<exists>l\<in>set (db_symlinks db4). sl_path l = dst \<and> sl_rev l = rv" by auto
    then show ?thesis using touchedI(2) [of _ db' "\<lambda>r. r = rv"] tl(3) by auto
  next
    case nodeSpecial
    then have "src \<in> tbl_keys sn_path (db_specials ?db1)" using k(1) by (auto simp: resolveKind_def split: if_splits)
    then have "src \<in> tbl_keys sn_path (db_specials db3)"
      unfolding db3 using keep(1) deleteDest_keeps_row(3) [OF keep(2) ne] by (cases "dk = nodeAbsent") auto
    from move_special_frame [OF _ this] m nodeSpecial
    have "frame_at {src, dst} rv db3 db4" "\<exists>l\<in>set (db_specials db4). sn_path l = dst \<and> sn_rev l = rv" by auto
    then show ?thesis using touchedI(3) [of _ db' "\<lambda>r. r = rv"] tl(4) by auto
  qed (use k in auto)
  then have frame: "frame_at {src, dst} rv db db'" and dst: "touched db' dst (\<lambda>r. r = rv)"
    using frame_at_trans [OF frame_at_trans [OF f3] tl(1)] by blast+
  show ?thesis
  proof (rule feed_stepI)
    fix q
    show "same_at db db' q \<or> touched db' q (\<lambda>r. r = rv)"
      using frame dst tl(5) [OF ne] touchedI(1) [of _ db' "\<lambda>r. r = rv"]
      by (cases "q \<in> {src, dst}") (auto simp: frame_at_def stamped_def)
  qed
qed


lemma rename_feed:
  assumes inv: "db_inv db" and can: "canonical src" "canonical dst" and k: "resolveKind db src \<noteq> nodeDir"
    and run: "renameOpt_tx E src dst ef et nr s a g db = Inr (Commit v je rv, db')"
  shows "feed_step db db' rv"
  using run
proof (cases rule: renameOpt_Inr)
  case (moved dv x)
  then show ?thesis
    by (intro rename_apply_feed [OF inv can moved(1) refl k moved(2), of x E "resolveKind db dst" dv s a g v je]) (auto split: if_splits)
qed simp_all

section \<open>Sequences of mutations\<close>

text \<open>
  A history of one tenant: mutations that are feed steps and take the next revision, transactions
  that leave the feed's tables alone, and the retention sweep of tombstones.
\<close>

inductive feed_trace :: "tenant_db \<Rightarrow> tenant_db \<Rightarrow> bool" for db0 where
  start: "feed_trace db0 db0"
| step: "feed_trace db0 db \<Longrightarrow> feed_step db db' (Suc (db_last_rev db)) \<Longrightarrow> db_last_rev db' = Suc (db_last_rev db) \<Longrightarrow>
    db_pruned_before db' = db_pruned_before db \<Longrightarrow> feed_trace db0 db'"
| quiet: "feed_trace db0 db \<Longrightarrow> feed db' = feed db \<Longrightarrow> feed_live db' = feed_live db \<Longrightarrow> db_last_rev db' = db_last_rev db \<Longrightarrow>
    db_pruned_before db' = db_pruned_before db \<Longrightarrow> feed_trace db0 db'"
| prune: "feed_trace db0 db \<Longrightarrow> pruneTombstones_tx cutoff db = Inr (u, db') \<Longrightarrow> feed_trace db0 db'"

lemma touched_entries: "touched db q P \<longleftrightarrow> (\<exists>e\<in>set (entries_at db q). P (ce_rev (fst e)))"
  unfolding touched_def entries_at_def set_filter by blast

lemma live_at_entries: "live_at db q = filter (\<lambda>e. ce_kind (fst e) \<noteq> ''tombstone'') (entries_at db q)"
proof -
  have "ce_kind (fst e) \<noteq> ''tombstone''" if "e \<in> set (live_at db q)" for e
    using that by (auto simp: live_at_expand feed_file_def feed_symlink_def feed_special_def feed_dir_def split: if_splits)
  moreover have "ce_kind (fst (feed_tombstone t)) = ''tombstone''" for t by (simp add: feed_tombstone_def)
  ultimately show ?thesis by (simp add: entries_at_expand filter_map o_def)
qed


lemma prune_Inr:
  assumes "pruneTombstones_tx cutoff db = Inr (u, db')"
  shows "live_at db' q = live_at db q" "db_last_rev db' = db_last_rev db" "db_pruned_before db \<le> db_pruned_before db'"
    "touched db q (\<lambda>r. R < r) \<Longrightarrow> touched db' q (\<lambda>r. R < r) \<or> R < db_pruned_before db'"
proof -
  let ?old = "filter (\<lambda>t. tb_ts t < cutoff) (db_tombs db)"
  consider "db' = db" | "db' = db\<lparr>db_tombs := tbl_delete (\<lambda>t. tb_ts t < cutoff) (db_tombs db),
      db_pruned_before := max (db_pruned_before db) (max_nat (map tb_rev ?old) + 1)\<rparr>"
    using assms by (auto simp: pruneTombstones_tx_def split: if_splits)
  then have "live_at db' q = live_at db q \<and> db_last_rev db' = db_last_rev db \<and> db_pruned_before db \<le> db_pruned_before db' \<and>
    (touched db q (\<lambda>r. R < r) \<longrightarrow> touched db' q (\<lambda>r. R < r) \<or> R < db_pruned_before db')"
  proof cases
    case 2
    have live: "live_at db' q = live_at db q" unfolding 2 live_at_expand by (simp add: feed_file_def nlink_of_def)
    have "touched db' q (\<lambda>r. R < r) \<or> R < db_pruned_before db'" if t: "touched db q (\<lambda>r. R < r)"
    proof (cases "\<exists>t\<in>set ?old. R < tb_rev t")
      case True
      then show ?thesis using max_nat_ge [of _ "map tb_rev ?old"] unfolding 2 by (auto simp: less_Suc_eq_le less_max_iff_disj intro: order.strict_implies_order order_trans less_le_trans)
    next
      case False
      from t obtain e where e: "e \<in> set (entries_at db q)" "R < ce_rev (fst e)" unfolding touched_entries by blast
      then have "e \<in> set (live_at db q) \<or> (\<exists>t\<in>set (db_tombs db). e = feed_tombstone t \<and> tb_path t = q)"
        by (auto simp: entries_at_expand)
      then have "e \<in> set (entries_at db' q)"
        using False e(2) unfolding entries_at_expand live by (auto simp: 2)
      with e(2) show ?thesis unfolding touched_entries by blast
    qed
    with live show ?thesis by (simp add: 2)
  qed simp
  then show "live_at db' q = live_at db q" "db_last_rev db' = db_last_rev db" "db_pruned_before db \<le> db_pruned_before db'"
    "touched db q (\<lambda>r. R < r) \<Longrightarrow> touched db' q (\<lambda>r. R < r) \<or> R < db_pruned_before db'" by blast+
qed

lemma feed_trace_mono:
  "feed_trace db0 db \<Longrightarrow> db_last_rev db0 \<le> db_last_rev db \<and> db_pruned_before db0 \<le> db_pruned_before db"
  by (induction rule: feed_trace.induct) (auto dest: prune_Inr(2,3))

text \<open>Every difference is visible: as an entry after the reader's revision, or as a demand to resync.\<close>

lemma feed_trace_complete:
  assumes "feed_trace db0 db"
  shows "live_at db q = live_at db0 q \<or> touched db q (\<lambda>r. db_last_rev db0 < r) \<or> db_last_rev db0 < db_pruned_before db"
  using assms
proof (induction rule: feed_trace.induct)
  case (step db db')
  have "db_last_rev db0 < Suc (db_last_rev db)" using feed_trace_mono [OF step.hyps(1)] by simp
  moreover have "entries_at db' q = entries_at db q \<or> touched db' q (\<lambda>r. r = Suc (db_last_rev db))"
    using step.hyps(2) unfolding feed_step_def by blast
  ultimately show ?case using step.IH step.hyps(4) unfolding touched_entries live_at_entries by metis
next
  case (quiet db db')
  then show ?case by (simp add: live_at_def touched_def)
next
  case (prune db cutoff u db')
  note p = prune_Inr [OF prune.hyps(2)]
  from prune.IH p(4) [of q "db_last_rev db0"] show ?case unfolding p(1) using p(3) by linarith
qed simp

end
