(* ===== verification/Chunk_Store.thy ===== *)
theory Chunk_Store
  imports Go_Paths Go_Strconv Chunk_Refs
begin

text \<open>
  The content-addressed chunk store of chunkstore.go: where a hash lives on disk (\<open>Path\<close>), the
  verified, atomic write (\<open>putUnlocked\<close> with \<open>syncWriteClose\<close> and the capacity guard of
  backing_capacity.go), reads (\<open>chunk_Get\<close>) and the ordered hash locks (\<open>lockHashes\<close>).

  BLAKE3 is a parameter. The file system answers each call as told by a \<open>chunk_io\<close>: which steps of a
  write fail or stall, what \<^verbatim>\<open>statfs\<close> and the clock read, and which paths cannot be inspected. A file
  under a chunk path is a \<open>Regular\<close> file with its bytes or something else. Temporary files are kept
  apart: they are invisible until the rename.
\<close>

section \<open>State\<close>

datatype chunk_node = Regular "byte list" | NotRegular

datatype chunk_error =
    ErrHashLen | ErrHashMismatch | ErrBackingQuota | ErrBackingStall | ErrMkdir | ErrCreateTemp | ErrChmod
  | ErrWriteChunk | ErrCloseChunk | ErrRenameChunk | ErrNotExist | ErrLstat | ErrNotRegular | ErrOpenShard | ErrUnlink

record backingCapacity =
  bc_ttl :: int
  bc_avail :: int
  bc_at :: int
  bc_sampled :: bool

record ChunkStore =
  cs_root :: string
  cs_known :: "byte list"
  cs_timeout :: int
  cs_capacity :: "backingCapacity option"
  cs_dirs :: "string list"
  cs_files :: "(string \<times> chunk_node) list"
  cs_temps :: "string list"

record chunk_io =
  io_now :: int
  io_statfs :: "int option"
  io_mkdir :: bool
  io_create :: bool
  io_tmp :: string
  io_chmod :: bool
  io_write :: bool
  io_stall :: bool
  io_close :: bool
  io_rename :: bool
  io_lstat :: "string \<Rightarrow> bool"
  io_open :: "string \<Rightarrow> bool"
  io_unlink :: "string \<Rightarrow> bool"

section \<open>Locations\<close>

definition chunk_name :: "byte list \<Rightarrow> string" where
  "chunk_name hash = hex_encode hash"

definition shard_path :: "string \<Rightarrow> string \<Rightarrow> string" where
  "shard_path root name = path_clean (root @ ''/'' @ take 2 name)"

definition Path :: "string \<Rightarrow> byte list \<Rightarrow> chunk_error + string" where
  "Path root hash =
     (if length hash \<noteq> HashLen then Inl ErrHashLen
      else let hexs = chunk_name hash in Inr (path_clean (root @ ''/'' @ take 2 hexs @ ''/'' @ hexs)))"

definition dir_shard :: "string \<Rightarrow> byte option" where
  "dir_shard name = (case hex_decode name of Some [b] \<Rightarrow> Some b | _ \<Rightarrow> None)"

text \<open>\<^verbatim>\<open>NewChunkStore\<close> over a directory whose entries are given with whether each is a directory.\<close>

definition NewChunkStore ::
  "string \<Rightarrow> int \<Rightarrow> backingCapacity option \<Rightarrow> (string \<times> bool) list \<Rightarrow> (string \<times> chunk_node) list \<Rightarrow> ChunkStore" where
  "NewChunkStore storeRoot timeout capacity entries files =
     (let root = path_clean (storeRoot @ ''/objects'')
      in \<lparr> cs_root = root,
           cs_known = List.map_filter (\<lambda>(name, isdir). if isdir then dir_shard name else None) entries,
           cs_timeout = max 0 timeout, cs_capacity = capacity,
           cs_dirs = map (\<lambda>(name, _). path_clean (root @ ''/'' @ name)) (filter snd entries),
           cs_files = files, cs_temps = [] \<rparr>)"

section \<open>The capacity guard\<close>

definition available :: "chunk_io \<Rightarrow> backingCapacity \<Rightarrow> int option \<times> backingCapacity" where
  "available io b =
     (if bc_sampled b \<and> io_now io - bc_at b < bc_ttl b then (Some (bc_avail b), b)
      else case io_statfs io of
             None \<Rightarrow> (None, b)
           | Some avail \<Rightarrow> (Some avail, b\<lparr>bc_avail := avail, bc_at := io_now io, bc_sampled := True\<rparr>))"

definition capacity_check :: "chunk_io \<Rightarrow> int \<Rightarrow> backingCapacity \<Rightarrow> bool \<times> backingCapacity" where
  "capacity_check io need b =
     (let (avail, b') = available io b
      in (case avail of None \<Rightarrow> True | Some a \<Rightarrow> \<not> a < need, b'))"

section \<open>Writing\<close>

text \<open>
  \<^verbatim>\<open>syncWriteClose\<close>: the temporary file is gone on every error except a stall, where it is left
  for the background reclaim.
\<close>

definition syncWriteClose :: "chunk_io \<Rightarrow> string \<Rightarrow> ChunkStore \<Rightarrow> (chunk_error + unit) \<times> ChunkStore" where
  "syncWriteClose io tmp cs =
     (let gone = cs\<lparr>cs_temps := removeAll tmp (cs_temps cs)\<rparr>
      in if cs_timeout cs \<le> 0 then
           (if \<not> io_write io then (Inl ErrWriteChunk, gone)
            else if \<not> io_close io then (Inl ErrCloseChunk, gone) else (Inr (), cs))
         else if io_stall io then (Inl ErrBackingStall, cs)
         else if \<not> (io_write io \<and> io_close io) then (Inl ErrWriteChunk, gone) else (Inr (), cs))"

text \<open>The temporary file, from its creation to the rename that publishes it under \<open>p\<close>.\<close>

definition publish_chunk :: "chunk_io \<Rightarrow> string \<Rightarrow> byte list \<Rightarrow> ChunkStore \<Rightarrow> (chunk_error + bool) \<times> ChunkStore" where
  "publish_chunk io p data cs =
     (if \<not> io_create io then (Inl ErrCreateTemp, cs)
      else let tmp = io_tmp io;
               cs1 = cs\<lparr>cs_temps := tmp # cs_temps cs\<rparr>;
               cleanup = (\<lambda>c. c\<lparr>cs_temps := removeAll tmp (cs_temps c)\<rparr>)
           in if \<not> io_chmod io then (Inl ErrChmod, cleanup cs1)
              else case syncWriteClose io tmp cs1 of
                     (Inl e, cs2) \<Rightarrow> (Inl e, cs2)
                   | (Inr _, cs2) \<Rightarrow>
                       if \<not> io_rename io then (Inl ErrRenameChunk, cleanup cs2)
                       else (Inr True, (cleanup cs2)\<lparr>cs_files := AList.update p (Regular data) (cs_files cs2)\<rparr>))"

definition capacity_guard :: "chunk_io \<Rightarrow> byte list \<Rightarrow> ChunkStore \<Rightarrow> bool \<times> ChunkStore" where
  "capacity_guard io data cs =
     (case cs_capacity cs of
        None \<Rightarrow> (True, cs)
      | Some b \<Rightarrow> (let (ok, b') = capacity_check io (int (length data)) b in (ok, cs\<lparr>cs_capacity := Some b'\<rparr>)))"

definition putUnlocked ::
  "(byte list \<Rightarrow> byte list) \<Rightarrow> chunk_io \<Rightarrow> byte list \<Rightarrow> byte list \<Rightarrow> ChunkStore \<Rightarrow> (chunk_error + bool) \<times> ChunkStore" where
  "putUnlocked blake3 io hash data cs =
     (if length hash \<noteq> HashLen then (Inl ErrHashLen, cs)
      else if blake3 data \<noteq> hash then (Inl ErrHashMismatch, cs)
      else let cs1 = cs\<lparr>cs_known := List.insert (hd hash) (cs_known cs)\<rparr>
           in case Path (cs_root cs) hash of
                Inl e \<Rightarrow> (Inl e, cs1)
              | Inr p \<Rightarrow>
                  if map_of (cs_files cs1) p \<noteq> None \<and> \<not> io_lstat io p then (Inr False, cs1)
                  else let (fits, cs2) = capacity_guard io data cs1
                       in if \<not> fits then (Inl ErrBackingQuota, cs2)
                          else if \<not> io_mkdir io then (Inl ErrMkdir, cs2)
                          else publish_chunk io p data
                                 (cs2\<lparr>cs_dirs := List.insert (shard_path (cs_root cs) (chunk_name hash)) (cs_dirs cs2)\<rparr>))"

section \<open>Reading\<close>

definition chunk_Get :: "chunk_io \<Rightarrow> ChunkStore \<Rightarrow> byte list \<Rightarrow> chunk_error + byte list" where
  "chunk_Get io cs hash =
     (case Path (cs_root cs) hash of
        Inl e \<Rightarrow> Inl e
      | Inr p \<Rightarrow> (case map_of (cs_files cs) p of
                   None \<Rightarrow> Inl ErrNotExist
                 | Some NotRegular \<Rightarrow> Inl ErrNotRegular
                 | Some (Regular data) \<Rightarrow> if io_lstat io p then Inl ErrLstat else Inr data))"

section \<open>Hash locks\<close>

text \<open>The indices of the 256 mutexes a batch takes, in the order it takes them.\<close>

definition lockHashes :: "byte list list \<Rightarrow> chunk_error + nat list" where
  "lockHashes hashes =
     (if \<exists>h\<in>set hashes. length h \<noteq> HashLen then Inl ErrHashLen
      else Inr (filter (\<lambda>i. \<exists>h\<in>set hashes. unat (hd h) = i) [0..<256]))"

definition lockAllHashes :: "nat list" where
  "lockAllHashes = [0..<256]"

definition chunk_Put ::
  "(byte list \<Rightarrow> byte list) \<Rightarrow> chunk_io \<Rightarrow> byte list \<Rightarrow> byte list \<Rightarrow> ChunkStore \<Rightarrow> (chunk_error + bool) \<times> ChunkStore" where
  "chunk_Put blake3 io hash data cs =
     (case lockHashes [hash] of Inl e \<Rightarrow> (Inl e, cs) | Inr _ \<Rightarrow> putUnlocked blake3 io hash data cs)"


section \<open>Distinct hashes live at distinct paths\<close>

lemma comp_ok_hex: "bs \<noteq> [] \<Longrightarrow> comp_ok (hex_encode bs)"
  unfolding comp_ok_def
proof (intro conjI)
  assume "bs \<noteq> []"
  then have ne: "hex_encode bs \<noteq> ''''" using length_hex_encode [of bs] by (metis length_0_conv mult_eq_0_iff zero_neq_numeral)
  then show "hex_encode bs \<noteq> ''''" .
  have "CHR ''.'' \<notin> set (hex_encode bs)" "slash \<notin> set (hex_encode bs)" using hex_encode_plain by blast+
  then show "hex_encode bs \<noteq> ''.''" "hex_encode bs \<noteq> ''..''" "slash \<notin> set (hex_encode bs)" by (metis list.set_intros(1))+
qed

lemma Path_render:
  assumes "canonical root" "length h = HashLen"
  shows "\<exists>rs. root = render rs \<and> (\<forall>r\<in>set rs. comp_ok r) \<and> Path root h = Inr (render (rs @ [hex_encode [hd h], hex_encode h])) \<and>
    shard_path root (chunk_name h) = render (rs @ [hex_encode [hd h]])"
proof -
  have h: "h \<noteq> []" using assms(2) by (auto simp: HashLen_def)
  let ?ws = "[hex_encode [hd h], hex_encode h]"
  have ok: "\<forall>w\<in>set ?ws. comp_ok w" using comp_ok_hex h by simp
  obtain rs where rs: "root = render rs" "\<forall>r\<in>set rs. comp_ok r" "path_clean (root @ ''/'' @ join_with slash ?ws) = render (rs @ ?ws)"
    using path_clean_join [OF assms(1) _ ok] by auto
  obtain rs' where rs': "root = render rs'" "\<forall>r\<in>set rs'. comp_ok r"
    "path_clean (root @ ''/'' @ join_with slash [hex_encode [hd h]]) = render (rs' @ [hex_encode [hd h]])"
    using path_clean_join [OF assms(1), of "[hex_encode [hd h]]"] ok by auto
  have "rs' = rs" using rs(1,2) rs'(1,2) render_inj by blast
  with rs rs' show ?thesis
    using assms(2) by (auto simp: Path_def shard_path_def chunk_name_def Let_def take2_hex_encode [OF h])
qed

lemma Path_inj:
  assumes "canonical root" "Path root h = Inr p" "Path root h' = Inr p"
  shows "h = h'"
proof -
  have len: "length h = HashLen" "length h' = HashLen" using assms(2,3) by (auto simp: Path_def split: if_splits)
  have ne: "h \<noteq> []" "h' \<noteq> []" using len by (auto simp: HashLen_def)
  obtain rs where rs: "root = render rs" "\<forall>r\<in>set rs. comp_ok r" "p = render (rs @ [hex_encode [hd h], hex_encode h])"
    using Path_render [OF assms(1) len(1)] assms(2) by auto
  obtain rs' where rs': "root = render rs'" "\<forall>r\<in>set rs'. comp_ok r" "p = render (rs' @ [hex_encode [hd h'], hex_encode h'])"
    using Path_render [OF assms(1) len(2)] assms(3) by auto
  have "rs @ [hex_encode [hd h], hex_encode h] = rs' @ [hex_encode [hd h'], hex_encode h']"
    by (rule render_inj) (use rs rs' ne comp_ok_hex in auto)
  then show ?thesis by (simp add: hex_encode_inj)
qed

section \<open>The store's invariant\<close>

text \<open>
  Every file is the content its name says, and every file's shard is known: the hint that lets
  \<^verbatim>\<open>HasMany\<close> skip whole shards never hides a chunk.
\<close>

definition chunks_ok :: "(byte list \<Rightarrow> byte list) \<Rightarrow> ChunkStore \<Rightarrow> bool" where
  "chunks_ok blake3 cs \<longleftrightarrow> canonical (cs_root cs) \<and>
     (\<forall>p n. map_of (cs_files cs) p = Some n \<longrightarrow> (\<exists>h data. n = Regular data \<and> blake3 data = h \<and> Path (cs_root cs) h = Inr p \<and>
        hd h \<in> set (cs_known cs) \<and> shard_path (cs_root cs) (chunk_name h) \<in> set (cs_dirs cs)))"

definition same_files :: "ChunkStore \<Rightarrow> ChunkStore \<Rightarrow> bool" where
  "same_files cs cs' \<longleftrightarrow> cs_files cs' = cs_files cs \<and> cs_root cs' = cs_root cs \<and> cs_known cs' = cs_known cs \<and> cs_dirs cs' = cs_dirs cs"

lemma syncWriteClose_files: "syncWriteClose io tmp cs = (res, cs') \<Longrightarrow> same_files cs cs'"
  by (auto simp: syncWriteClose_def Let_def same_files_def split: if_splits)

lemma capacity_guard_files: "capacity_guard io data cs = (ok, cs') \<Longrightarrow> same_files cs cs'"
  by (auto simp: capacity_guard_def Let_def same_files_def split: option.splits prod.splits)

lemma publish_chunk_cases:
  assumes "publish_chunk io p data cs = (res, cs')"
  shows "res = Inr True \<and> same_files (cs\<lparr>cs_files := AList.update p (Regular data) (cs_files cs)\<rparr>) cs' \<or> (\<exists>e. res = Inl e) \<and> same_files cs cs'"
proof (cases "io_create io \<and> io_chmod io")
  case False
  with assms show ?thesis by (auto simp: publish_chunk_def Let_def same_files_def split: if_splits)
next
  case True
  obtain sres cs2 where s: "syncWriteClose io (io_tmp io) (cs\<lparr>cs_temps := io_tmp io # cs_temps cs\<rparr>) = (sres, cs2)" by fastforce
  from syncWriteClose_files [OF s] True assms s show ?thesis
    by (cases sres) (auto simp: publish_chunk_def Let_def same_files_def split: if_splits)
qed

text \<open>The two ways a write ends: published under its path, or with the files as they were.\<close>

lemma putUnlocked_cases:
  assumes "putUnlocked blake3 io hash data cs = (res, cs')"
  obtains (published) p where "res = Inr True" "blake3 data = hash" "Path (cs_root cs) hash = Inr p"
      "cs_files cs' = AList.update p (Regular data) (cs_files cs)" "cs_root cs' = cs_root cs"
      "set (cs_known cs') = insert (hd hash) (set (cs_known cs))" "set (cs_dirs cs') = insert (shard_path (cs_root cs) (chunk_name hash)) (set (cs_dirs cs))"
      "map_of (cs_files cs) p = None \<or> io_lstat io p"
  | (kept) "res \<noteq> Inr True" "cs_files cs' = cs_files cs" "cs_root cs' = cs_root cs" "set (cs_known cs) \<subseteq> set (cs_known cs')"
      "set (cs_dirs cs) \<subseteq> set (cs_dirs cs')"
      "res = Inr False \<Longrightarrow> blake3 data = hash \<and> (\<exists>p. Path (cs_root cs) hash = Inr p \<and> map_of (cs_files cs) p \<noteq> None)"
proof (cases "length hash = HashLen \<and> blake3 data = hash")
  case False
  then have "(\<exists>e. res = Inl e) \<and> cs' = cs" using assms unfolding putUnlocked_def by (auto split: if_splits)
  then show thesis by (intro kept) auto
next
  case True
  then obtain p where p: "Path (cs_root cs) hash = Inr p" by (auto simp: Path_def Let_def)
  let ?cs1 = "cs\<lparr>cs_known := List.insert (hd hash) (cs_known cs)\<rparr>"
  obtain fits cs2 where cap: "capacity_guard io data ?cs1 = (fits, cs2)" by fastforce
  note s2 = capacity_guard_files [OF cap, unfolded same_files_def]
  let ?cs3 = "cs2\<lparr>cs_dirs := List.insert (shard_path (cs_root cs) (chunk_name hash)) (cs_dirs cs2)\<rparr>"
  consider (found) "map_of (cs_files cs) p \<noteq> None" "res = Inr False" "cs' = ?cs1"
    | (early) e where "res = Inl e" "cs' = cs2"
    | (wrote) "map_of (cs_files cs) p = None \<or> io_lstat io p" "publish_chunk io p data ?cs3 = (res, cs')"
    using assms True p cap by (auto simp: putUnlocked_def Let_def split: if_splits)
  then show thesis
  proof cases
    case found
    with True p show thesis by (intro kept) auto
  next
    case early
    with s2 show thesis by (intro kept) auto
  next
    case wrote
    from publish_chunk_cases [OF wrote(2)] show thesis
    proof
      assume "res = Inr True \<and> same_files (?cs3\<lparr>cs_files := AList.update p (Regular data) (cs_files ?cs3)\<rparr>) cs'"
      with s2 True p wrote(1) show thesis by (intro published [of p]) (auto simp: same_files_def)
    next
      assume "(\<exists>e. res = Inl e) \<and> same_files ?cs3 cs'"
      with s2 show thesis by (intro kept) (auto simp: same_files_def)
    qed
  qed
qed


lemma putUnlocked_ok:
  assumes "chunks_ok blake3 cs" "putUnlocked blake3 io hash data cs = (res, cs')"
  shows "chunks_ok blake3 cs'"
  using assms(2)
proof (cases rule: putUnlocked_cases)
  case (published p)
  have "\<exists>h data. n = Regular data \<and> blake3 data = h \<and> Path (cs_root cs') h = Inr q \<and>
        hd h \<in> set (cs_known cs') \<and> shard_path (cs_root cs') (chunk_name h) \<in> set (cs_dirs cs')" if "map_of (cs_files cs') q = Some n" for q n
  proof (cases "q = p")
    case True
    with that published(4) have "n = Regular data" by (simp add: update_conv')
    with True published show ?thesis by auto
  next
    case False
    then have "map_of (cs_files cs) q = Some n" using that published(4) by (simp add: update_conv')
    with assms(1) published show ?thesis by (fastforce simp: chunks_ok_def)
  qed
  with assms(1) published(5) show ?thesis by (simp add: chunks_ok_def)
next
  case kept
  with assms(1) show ?thesis unfolding chunks_ok_def by fastforce
qed

end
