(* ===== verification/Chunk_Batch.thy ===== *)
theory Chunk_Batch
  imports Chunk_Store
begin

text \<open>
  The batched presence check and delete of chunkstore.go (\<open>HasMany\<close>, \<open>DeleteMany\<close>) with the
  shard-grouping engine \<open>runChunkBatch\<close> and the platform visitors of chunkstore_batch_posix.go.
  Hashes are grouped by their first byte, exact duplicates are collapsed for presence checks, and
  shards never written to are skipped. The theory shows that none of this changes an answer.

  The groups are a Go map; the model visits them in the order they were first seen. Groups concern
  different files and different positions of the answer, so no answer depends on that order.
\<close>

datatype chunkBatchOperation = chunkBatchHas | chunkBatchDelete

type_synonym batch_item = "string \<times> nat list"
type_synonym batch_groups = "(string \<times> batch_item list) list"

section \<open>Visiting one name\<close>

definition visitChunkShard ::
  "chunk_io \<Rightarrow> chunkBatchOperation \<Rightarrow> string \<Rightarrow> string \<Rightarrow> ChunkStore \<Rightarrow> (bool \<times> chunk_error option) \<times> ChunkStore" where
  "visitChunkShard io op shard name cs =
     (let p = path_clean (shard @ ''/'' @ name)
      in case op of
           chunkBatchHas \<Rightarrow>
             if io_lstat io p then ((False, Some ErrLstat), cs)
             else (case map_of (cs_files cs) p of
                     None \<Rightarrow> ((False, None), cs)
                   | Some NotRegular \<Rightarrow> ((False, Some ErrNotRegular), cs)
                   | Some (Regular _) \<Rightarrow> ((True, None), cs))
         | chunkBatchDelete \<Rightarrow>
             (case map_of (cs_files cs) p of
                None \<Rightarrow> ((False, None), cs)
              | Some NotRegular \<Rightarrow> ((False, Some ErrUnlink), cs)
              | Some (Regular _) \<Rightarrow>
                  if io_unlink io p then ((False, Some ErrUnlink), cs)
                  else ((True, None), cs\<lparr>cs_files := AList.delete p (cs_files cs)\<rparr>)))"

definition openChunkShard :: "chunk_io \<Rightarrow> chunkBatchOperation \<Rightarrow> string \<Rightarrow> ChunkStore \<Rightarrow> chunk_error + unit" where
  "openChunkShard io op shard cs =
     (case op of
        chunkBatchHas \<Rightarrow> Inr ()
      | chunkBatchDelete \<Rightarrow> if shard \<notin> set (cs_dirs cs) then Inl ErrNotExist
                           else if io_open io shard then Inl ErrOpenShard else Inr ())"

section \<open>Grouping\<close>

definition group_of :: "batch_groups \<Rightarrow> string \<Rightarrow> batch_item list" where
  "group_of grouped shard = (case map_of grouped shard of None \<Rightarrow> [] | Some items \<Rightarrow> items)"

definition add_item ::
  "byte list \<Rightarrow> bool \<Rightarrow> chunkBatchOperation \<Rightarrow> nat \<Rightarrow> byte list \<Rightarrow> batch_groups \<times> (string \<times> nat) list \<Rightarrow>
   batch_groups \<times> (string \<times> nat) list" where
  "add_item known dedup op i hash gs =
     (let (grouped, seen) = gs; name = chunk_name hash; shard = take 2 name; items = group_of grouped shard
      in if op = chunkBatchHas \<and> hd hash \<notin> set known then (grouped, seen)
         else case (if dedup then map_of seen name else None) of
                Some off \<Rightarrow> (AList.update shard (items[off := (fst (items ! off), snd (items ! off) @ [i])]) grouped, seen)
              | None \<Rightarrow> (AList.update shard (items @ [(name, [i])]) grouped,
                         if dedup then AList.update name (length items) seen else seen))"

fun group_hashes ::
  "byte list \<Rightarrow> bool \<Rightarrow> chunkBatchOperation \<Rightarrow> nat \<Rightarrow> byte list list \<Rightarrow> batch_groups \<times> (string \<times> nat) list \<Rightarrow>
   chunk_error + batch_groups" where
  "group_hashes known dedup op i [] gs = Inr (fst gs)"
| "group_hashes known dedup op i (h # hs) gs =
     (if length h \<noteq> HashLen then Inl ErrHashLen
      else group_hashes known dedup op (Suc i) hs (add_item known dedup op i h gs))"

section \<open>Processing\<close>

type_synonym batch_state = "(bool list \<times> chunk_error option list) \<times> ChunkStore"

definition set_all :: "nat list \<Rightarrow> 'a \<Rightarrow> 'a list \<Rightarrow> 'a list" where
  "set_all is v xs = fold (\<lambda>i ys. ys[i := v]) is xs"

fun process_items :: "chunk_io \<Rightarrow> chunkBatchOperation \<Rightarrow> string \<Rightarrow> batch_item list \<Rightarrow> batch_state \<Rightarrow> batch_state" where
  "process_items io op shard [] st = st"
| "process_items io op shard ((name, is) # items) ((rs, es), cs) =
     (let ((r, e), cs') = visitChunkShard io op shard name cs
      in process_items io op shard items ((set_all is r rs, set_all is e es), cs'))"

definition process_group :: "chunk_io \<Rightarrow> chunkBatchOperation \<Rightarrow> string \<times> batch_item list \<Rightarrow> batch_state \<Rightarrow> batch_state" where
  "process_group io op gp st =
     (let (shardName, items) = gp; ((rs, es), cs) = st; shard = path_clean (cs_root cs @ ''/'' @ shardName)
      in case openChunkShard io op shard cs of
           Inl e \<Rightarrow> if e = ErrNotExist then st
                    else ((rs, fold (\<lambda>(name, is). set_all is (Some ErrOpenShard)) items es), cs)
         | Inr _ \<Rightarrow> process_items io op shard items st)"

definition runChunkBatch ::
  "chunk_io \<Rightarrow> bool \<Rightarrow> chunkBatchOperation \<Rightarrow> byte list list \<Rightarrow> ChunkStore \<Rightarrow>
   (chunk_error + bool list \<times> chunk_error option list) \<times> ChunkStore" where
  "runChunkBatch io dedup op hashes cs =
     (let rs = replicate (length hashes) False; es = replicate (length hashes) None
      in if hashes = [] then (Inr (rs, es), cs)
         else case group_hashes (cs_known cs) dedup op 0 hashes ([], []) of
                Inl e \<Rightarrow> (Inl e, cs)
              | Inr grouped \<Rightarrow> (let (out, cs') = fold (process_group io op) grouped ((rs, es), cs) in (Inr out, cs')))"

section \<open>Presence and deletion\<close>

fun all_known_unique :: "byte list \<Rightarrow> byte list list \<Rightarrow> byte list list \<Rightarrow> chunk_error + bool" where
  "all_known_unique known seen [] = Inr True"
| "all_known_unique known seen (h # hs) =
     (if length h \<noteq> HashLen then Inl ErrHashLen
      else map_sum id (\<lambda>b. h \<notin> set seen \<and> hd h \<in> set known \<and> b) (all_known_unique known (h # seen) hs))"

fun has_serial :: "chunk_io \<Rightarrow> ChunkStore \<Rightarrow> byte list list \<Rightarrow> chunk_error + bool list" where
  "has_serial io cs [] = Inr []"
| "has_serial io cs (h # hs) =
     bindE (Path (cs_root cs) h) (\<lambda>p.
     bindE (if io_lstat io p then Inl ErrLstat
            else case map_of (cs_files cs) p of None \<Rightarrow> Inr False | Some NotRegular \<Rightarrow> Inl ErrNotRegular | Some (Regular _) \<Rightarrow> Inr True) (\<lambda>b.
     bindE (has_serial io cs hs) (\<lambda>bs. Inr (b # bs))))"

definition HasMany :: "chunk_io \<Rightarrow> ChunkStore \<Rightarrow> byte list list \<Rightarrow> chunk_error + bool list" where
  "HasMany io cs hashes =
     bindE (all_known_unique (cs_known cs) [] hashes) (\<lambda>serial.
     if serial then has_serial io cs hashes
     else bindE (fst (runChunkBatch io True chunkBatchHas hashes cs)) (\<lambda>(out, errs).
            case find (\<lambda>e. e \<noteq> None) errs of Some (Some e) \<Rightarrow> Inl e | _ \<Rightarrow> Inr out))"

definition Has :: "chunk_io \<Rightarrow> ChunkStore \<Rightarrow> byte list \<Rightarrow> chunk_error + bool" where
  "Has io cs hash = bindE (HasMany io cs [hash]) (\<lambda>present. Inr (hd present))"

definition deleteManyUnlocked ::
  "chunk_io \<Rightarrow> byte list list \<Rightarrow> ChunkStore \<Rightarrow> (chunk_error + (bool \<times> chunk_error option) list) \<times> ChunkStore" where
  "deleteManyUnlocked io hashes cs =
     (case runChunkBatch io False chunkBatchDelete hashes cs of
        (Inl e, cs') \<Rightarrow> (Inl e, cs')
      | (Inr (deleted, errs), cs') \<Rightarrow> (Inr (zip deleted errs), cs'))"

definition DeleteMany ::
  "chunk_io \<Rightarrow> byte list list \<Rightarrow> ChunkStore \<Rightarrow> (chunk_error + (bool \<times> chunk_error option) list) \<times> ChunkStore" where
  "DeleteMany io hashes cs =
     (case lockHashes hashes of Inl e \<Rightarrow> (Inl e, cs) | Inr _ \<Rightarrow> deleteManyUnlocked io hashes cs)"

definition chunk_Delete :: "chunk_io \<Rightarrow> byte list \<Rightarrow> ChunkStore \<Rightarrow> (chunk_error + unit) \<times> ChunkStore" where
  "chunk_Delete io hash cs =
     (case DeleteMany io [hash] cs of
        (Inl e, cs') \<Rightarrow> (Inl e, cs')
      | (Inr results, cs') \<Rightarrow> (case snd (hd results) of None \<Rightarrow> Inr () | Some e \<Rightarrow> Inl e, cs'))"

section \<open>The reference\<close>

text \<open>What one hash should be answered with, looked at alone.\<close>

definition has_one :: "chunk_io \<Rightarrow> ChunkStore \<Rightarrow> byte list \<Rightarrow> bool \<times> chunk_error option" where
  "has_one io cs h =
     (if hd h \<notin> set (cs_known cs) then (False, None)
      else fst (visitChunkShard io chunkBatchHas (path_clean (cs_root cs @ ''/'' @ take 2 (chunk_name h))) (chunk_name h) cs))"

definition has_ref :: "chunk_io \<Rightarrow> ChunkStore \<Rightarrow> byte list list \<Rightarrow> chunk_error + bool list" where
  "has_ref io cs hashes =
     (if \<exists>h\<in>set hashes. length h \<noteq> HashLen then Inl ErrHashLen
      else case List.map_filter (\<lambda>h. snd (has_one io cs h)) hashes of
             e # _ \<Rightarrow> Inl e | [] \<Rightarrow> Inr (map (\<lambda>h. fst (has_one io cs h)) hashes))"


section \<open>Grouping loses nothing\<close>

definition item_pairs :: "batch_item list \<Rightarrow> (string \<times> nat) set" where
  "item_pairs items = (\<Union>(name, is)\<in>set items. {name} \<times> set is)"

definition batch_pairs :: "batch_groups \<Rightarrow> (string \<times> string \<times> nat) set" where
  "batch_pairs grouped = (\<Union>(shard, items)\<in>set grouped. {shard} \<times> item_pairs items)"

definition groups_ok :: "batch_groups \<times> (string \<times> nat) list \<Rightarrow> bool" where
  "groups_ok gs \<longleftrightarrow> distinct (map fst (fst gs)) \<and>
     (\<forall>name off. map_of (snd gs) name = Some off \<longrightarrow>
        off < length (group_of (fst gs) (take 2 name)) \<and> fst (group_of (fst gs) (take 2 name) ! off) = name)"

lemma item_pairs_simps [simp]:
  "item_pairs [] = {}" "item_pairs ((name, is) # items) = {name} \<times> set is \<union> item_pairs items"
  "item_pairs (items @ items') = item_pairs items \<union> item_pairs items'"
  by (auto simp: item_pairs_def)

lemma item_pairs_update:
  assumes "off < length items"
  shows "item_pairs (items[off := (fst (items ! off), snd (items ! off) @ [i])]) = insert (fst (items ! off), i) (item_pairs items)"
proof -
  obtain name "is" where x: "items ! off = (name, is)" by fastforce
  have "item_pairs items = item_pairs (take off items @ (name, is) # drop (Suc off) items)"
    using id_take_nth_drop [OF assms] x by simp
  then show ?thesis by (auto simp: upd_conv_take_nth_drop [OF assms] x)
qed

lemma batch_pairs_group:
  assumes "distinct (map fst g)"
  shows "(shard, x) \<in> batch_pairs g \<longleftrightarrow> x \<in> item_pairs (group_of g shard)"
proof -
  have "(shard, x) \<in> batch_pairs g \<longleftrightarrow> (\<exists>items. (shard, items) \<in> set g \<and> x \<in> item_pairs items)"
    unfolding batch_pairs_def by blast
  also have "\<dots> \<longleftrightarrow> (\<exists>items. map_of g shard = Some items \<and> x \<in> item_pairs items)"
    by (simp only: map_of_eq_Some_iff [OF assms])
  also have "\<dots> \<longleftrightarrow> x \<in> item_pairs (group_of g shard)"
    by (cases "map_of g shard") (simp_all add: group_of_def)
  finally show ?thesis .
qed

lemma group_of_update: "group_of (AList.update s items g) s' = (if s' = s then items else group_of g s')"
  by (simp add: group_of_def update_conv')

lemma batch_pairs_update:
  assumes "distinct (map fst g)" "item_pairs items = insert x (item_pairs (group_of g s))"
  shows "batch_pairs (AList.update s items g) = insert (s, x) (batch_pairs g)"
proof -
  have d: "distinct (map fst (AList.update s items g))" using assms(1) by (rule distinct_update)
  have "(s', y) \<in> batch_pairs (AList.update s items g) \<longleftrightarrow> (s', y) \<in> insert (s, x) (batch_pairs g)" for s' y
    unfolding batch_pairs_group [OF d] group_of_update using assms by (auto simp: batch_pairs_group)
  then show ?thesis by auto
qed

lemma groups_ok_update:
  assumes "groups_ok (g, seen)" "length (group_of g s) \<le> length items"
    and "\<And>k. k < length (group_of g s) \<Longrightarrow> fst (items ! k) = fst (group_of g s ! k)"
  shows "groups_ok (AList.update s items g, seen)"
proof -
  have "off < length (group_of (AList.update s items g) (take 2 name)) \<and> fst (group_of (AList.update s items g) (take 2 name) ! off) = name"
    if "map_of seen name = Some off" for name off
  proof -
    from assms(1) that have "off < length (group_of g (take 2 name))" "fst (group_of g (take 2 name) ! off) = name"
      by (simp_all add: groups_ok_def)
    with assms(2,3) show ?thesis by (cases "take 2 name = s") (auto simp: group_of_update elim: less_le_trans)
  qed
  with assms(1) show ?thesis by (simp add: groups_ok_def distinct_update)
qed

lemma groups_ok_seen:
  assumes "groups_ok (g, seen)" "off < length (group_of g (take 2 name))" "fst (group_of g (take 2 name) ! off) = name"
  shows "groups_ok (g, AList.update name off seen)"
  using assms by (auto simp: groups_ok_def update_conv')

lemma add_item_groups:
  assumes ok: "groups_ok (g, seen)" and run: "add_item known dedup op i h (g, seen) = (g', seen')"
  shows "groups_ok (g', seen') \<and> batch_pairs g' = (if op = chunkBatchHas \<and> hd h \<notin> set known then batch_pairs g
      else insert (take 2 (chunk_name h), chunk_name h, i) (batch_pairs g))"
proof -
  let ?n = "chunk_name h" let ?s = "take 2 ?n" let ?items = "group_of g ?s"
  have d: "distinct (map fst g)" using ok by (simp add: groups_ok_def)
  consider (skip) "op = chunkBatchHas \<and> hd h \<notin> set known" "g' = g" "seen' = seen"
    | (dup) off where "\<not> (op = chunkBatchHas \<and> hd h \<notin> set known)" "map_of seen ?n = Some off" "seen' = seen"
        "g' = AList.update ?s (?items[off := (fst (?items ! off), snd (?items ! off) @ [i])]) g"
    | (fresh) "\<not> (op = chunkBatchHas \<and> hd h \<notin> set known)" "g' = AList.update ?s (?items @ [(?n, [i])]) g"
        "seen' = seen \<or> seen' = AList.update ?n (length ?items) seen"
  proof (cases "op = chunkBatchHas \<and> hd h \<notin> set known")
    case True
    with run show thesis by (intro skip) (simp_all add: add_item_def Let_def)
  next
    case no: False
    show thesis
    proof (cases "if dedup then map_of seen ?n else None")
      case None
      with run no show thesis by (intro fresh) (auto simp: add_item_def Let_def)
    next
      case (Some off)
      with run no show thesis by (intro dup [of off]) (auto simp: add_item_def Let_def split: if_splits)
    qed
  qed
  then show ?thesis
  proof cases
    case skip
    with ok show ?thesis by simp
  next
    case dup
    let ?items' = "?items[off := (fst (?items ! off), snd (?items ! off) @ [i])]"
    have off: "off < length ?items" "fst (?items ! off) = ?n" using ok dup(2) by (auto simp: groups_ok_def)
    have "groups_ok (g', seen')"
      unfolding dup(3,4) by (rule groups_ok_update [OF ok], simp) (use off in \<open>auto simp: nth_list_update\<close>)
    moreover have "batch_pairs g' = insert (?s, ?n, i) (batch_pairs g)"
      unfolding dup(4) by (rule batch_pairs_update [OF d]) (use item_pairs_update [OF off(1), of i] off(2) in simp)
    ultimately show ?thesis using dup(1) by auto
  next
    case fresh
    have ok1: "groups_ok (g', seen)"
      unfolding fresh(2) by (rule groups_ok_update [OF ok]) (auto simp: nth_append)
    then have "groups_ok (g', AList.update ?n (length ?items) seen)"
      by (rule groups_ok_seen) (simp_all add: fresh(2) group_of_update)
    with ok1 fresh(3) have "groups_ok (g', seen')" by auto
    moreover have "batch_pairs g' = insert (?s, ?n, i) (batch_pairs g)"
      unfolding fresh(2) by (rule batch_pairs_update [OF d]) simp
    ultimately show ?thesis using fresh(1) by auto
  qed
qed

text \<open>The positions a batch visits: every hash, except those in shards a presence check may skip.\<close>

definition visited :: "byte list \<Rightarrow> chunkBatchOperation \<Rightarrow> byte list \<Rightarrow> bool" where
  "visited known op h \<longleftrightarrow> op = chunkBatchDelete \<or> hd h \<in> set known"

fun hash_pairs :: "byte list \<Rightarrow> chunkBatchOperation \<Rightarrow> nat \<Rightarrow> byte list list \<Rightarrow> (string \<times> string \<times> nat) set" where
  "hash_pairs known op i [] = {}"
| "hash_pairs known op i (h # hs) =
     (if visited known op h then {(take 2 (chunk_name h), chunk_name h, i)} else {}) \<union> hash_pairs known op (Suc i) hs"

lemma hash_pairs_iff:
  "(s, n, j) \<in> hash_pairs known op i hs \<longleftrightarrow>
     i \<le> j \<and> j < i + length hs \<and> visited known op (hs ! (j - i)) \<and> n = chunk_name (hs ! (j - i)) \<and> s = take 2 n"
proof (induction hs arbitrary: i)
  case (Cons h hs)
  show ?case
  proof (cases "j \<le> i")
    case True
    with Cons show ?thesis by (cases "j = i") auto
  next
    case False
    then have "(h # hs) ! (j - i) = hs ! (j - Suc i)" by (simp add: nth_Cons')
    with False Cons show ?thesis by auto
  qed
qed simp

lemma group_hashes_pairs:
  "groups_ok gs \<Longrightarrow> group_hashes known dedup op i hs gs = Inr g \<Longrightarrow>
   distinct (map fst g) \<and> batch_pairs g = batch_pairs (fst gs) \<union> hash_pairs known op i hs"
proof (induction hs arbitrary: i gs)
  case Nil
  then show ?case by (auto simp: groups_ok_def)
next
  case (Cons h hs)
  obtain ga seen where gs: "gs = (ga, seen)" by fastforce
  obtain g1 seen1 where a: "add_item known dedup op i h (ga, seen) = (g1, seen1)" by fastforce
  note ai = add_item_groups [OF Cons.prems(1) [unfolded gs] a]
  have "group_hashes known dedup op (Suc i) hs (g1, seen1) = Inr g" using Cons.prems(2) a gs by (auto split: if_splits)
  from Cons.IH [OF conjunct1 [OF ai] this] ai gs show ?case by (cases op) (auto simp: visited_def)
qed

lemma group_hashes_ok:
  "group_hashes known dedup op i hs gs = (if \<exists>h\<in>set hs. length h \<noteq> HashLen then Inl ErrHashLen
     else Inr (fst (fold (\<lambda>(k, h). add_item known dedup op k h) (zip [i..<i + length hs] hs) gs)))"
proof (induction hs arbitrary: i gs)
  case (Cons h hs)
  have "[i..<Suc (i + length hs)] = i # [Suc i..<Suc (i + length hs)]" by (rule upt_rec [THEN trans]) simp
  with Cons show ?case by simp
qed simp


section \<open>Presence answers\<close>

lemma length_set_all [simp]: "length (set_all is v xs) = length xs"
  by (induction "is" arbitrary: xs) (simp_all add: set_all_def)

lemma nth_set_all: "j < length xs \<Longrightarrow> set_all is v xs ! j = (if j \<in> set is then v else xs ! j)"
  by (induction "is" arbitrary: xs) (auto simp: set_all_def nth_list_update)

text \<open>The answers at the positions \<open>S\<close> have been filled in as \<open>f\<close> says; the others are untouched.\<close>

definition filled :: "(nat \<Rightarrow> bool \<times> chunk_error option) \<Rightarrow> nat set \<Rightarrow>
    bool list \<times> chunk_error option list \<Rightarrow> bool list \<times> chunk_error option list \<Rightarrow> bool" where
  "filled f S a b \<longleftrightarrow> length (fst b) = length (fst a) \<and> length (snd b) = length (snd a) \<and>
     (\<forall>j<length (fst a). fst b ! j = (if j \<in> S then fst (f j) else fst a ! j)) \<and>
     (\<forall>j<length (snd a). snd b ! j = (if j \<in> S then snd (f j) else snd a ! j))"

lemma filled_trans: "filled f S a b \<Longrightarrow> filled f T b c \<Longrightarrow> filled f (S \<union> T) a c"
  by (simp add: filled_def)

lemma filled_empty [simp]: "filled f {} a a"
  by (simp add: filled_def)

lemma visit_has_store [simp]: "snd (visitChunkShard io chunkBatchHas shard name cs) = cs"
  by (simp add: visitChunkShard_def Let_def split: option.splits chunk_node.splits)

definition item_pos :: "batch_item list \<Rightarrow> nat set" where
  "item_pos items = {j. \<exists>name. (name, j) \<in> item_pairs items}"

definition batch_pos :: "batch_groups \<Rightarrow> nat set" where
  "batch_pos grouped = {j. \<exists>shard name. (shard, name, j) \<in> batch_pairs grouped}"

lemma process_items_has:
  assumes "\<And>name j. (name, j) \<in> item_pairs items \<Longrightarrow> fst (visitChunkShard io chunkBatchHas shard name cs) = f j"
  shows "\<exists>out. process_items io chunkBatchHas shard items (ans, cs) = (out, cs) \<and> filled f (item_pos items) ans out"
  using assms
proof (induction items arbitrary: ans)
  case Nil
  then show ?case by (simp add: item_pos_def)
next
  case (Cons item items)
  obtain name "is" where item: "item = (name, is)" by fastforce
  obtain rs es where ans: "ans = (rs, es)" by fastforce
  obtain r e where v: "visitChunkShard io chunkBatchHas shard name cs = ((r, e), cs)"
    using visit_has_store [of io shard name cs] by (metis prod.collapse)
  have f: "f j = (r, e)" if "j \<in> set is" for j
    using Cons.prems [of name j] that v by (simp add: item)
  let ?mid = "(set_all is r rs, set_all is e es)"
  have 1: "filled f (set is) ans ?mid"
    using f by (simp add: filled_def nth_set_all ans)
  obtain out where 2: "process_items io chunkBatchHas shard items (?mid, cs) = (out, cs)" "filled f (item_pos items) ?mid out"
    using Cons.IH [of ?mid] Cons.prems item by auto
  have "item_pos (item # items) = set is \<union> item_pos items"
    by (auto simp: item item_pos_def)
  with filled_trans [OF 1 2(2)] 2(1) v show ?case by (simp add: item ans)
qed

lemma process_groups_has:
  assumes "\<And>shard name j. (shard, name, j) \<in> batch_pairs grouped \<Longrightarrow>
    fst (visitChunkShard io chunkBatchHas (path_clean (cs_root cs @ ''/'' @ shard)) name cs) = f j"
  shows "\<exists>out. fold (process_group io chunkBatchHas) grouped (ans, cs) = (out, cs) \<and> filled f (batch_pos grouped) ans out"
  using assms
proof (induction grouped arbitrary: ans)
  case Nil
  then show ?case by (simp add: batch_pairs_def batch_pos_def)
next
  case (Cons gp grouped)
  obtain shard items where gp: "gp = (shard, items)" by fastforce
  let ?p = "path_clean (cs_root cs @ ''/'' @ shard)"
  have pairs: "(s, n, j) \<in> batch_pairs (gp # grouped) \<longleftrightarrow> s = shard \<and> (n, j) \<in> item_pairs items \<or> (s, n, j) \<in> batch_pairs grouped" for s n j
    by (auto simp: batch_pairs_def gp)
  obtain out where 1: "process_items io chunkBatchHas ?p items (ans, cs) = (out, cs)" "filled f (item_pos items) ans out"
    using process_items_has [of items io ?p cs f ans] Cons.prems pairs by blast
  have run: "process_group io chunkBatchHas gp (ans, cs) = (out, cs)"
    using 1(1) by (cases ans) (simp add: process_group_def gp openChunkShard_def Let_def)
  obtain out' where 2: "fold (process_group io chunkBatchHas) grouped (out, cs) = (out', cs)" "filled f (batch_pos grouped) out out'"
    using Cons.IH [of out] Cons.prems pairs by blast
  have "batch_pos (gp # grouped) = item_pos items \<union> batch_pos grouped"
    unfolding batch_pos_def item_pos_def pairs by blast
  with filled_trans [OF 1(2) 2(2)] run 2(1) show ?case by simp
qed

lemma runChunkBatch_has:
  assumes "\<forall>h\<in>set hashes. length h = HashLen"
  shows "runChunkBatch io True chunkBatchHas hashes cs =
    (Inr (map (\<lambda>h. fst (has_one io cs h)) hashes, map (\<lambda>h. snd (has_one io cs h)) hashes), cs)"
proof (cases "hashes = []")
  case False
  let ?f = "\<lambda>j. has_one io cs (hashes ! j)"
  let ?init = "(replicate (length hashes) False, replicate (length hashes) (None :: chunk_error option))"
  obtain g where g: "group_hashes (cs_known cs) True chunkBatchHas 0 hashes ([], []) = Inr g"
    using assms by (simp add: group_hashes_ok)
  have "groups_ok ([], [])" by (simp add: groups_ok_def)
  from group_hashes_pairs [OF this g] have pairs: "batch_pairs g = hash_pairs (cs_known cs) chunkBatchHas 0 hashes"
    by (simp add: batch_pairs_def)
  have f: "fst (visitChunkShard io chunkBatchHas (path_clean (cs_root cs @ ''/'' @ shard)) name cs) = ?f j"
    if "(shard, name, j) \<in> batch_pairs g" for shard name j
    using that unfolding pairs hash_pairs_iff by (simp add: has_one_def visited_def)
  obtain out where out: "fold (process_group io chunkBatchHas) g (?init, cs) = (out, cs)" "filled ?f (batch_pos g) ?init out"
    using process_groups_has [of g io cs ?f ?init, OF f] by blast
  have cov: "j \<in> batch_pos g \<longleftrightarrow> hd (hashes ! j) \<in> set (cs_known cs)" if "j < length hashes" for j
    unfolding batch_pos_def pairs hash_pairs_iff using that by (simp add: visited_def)
  have skip: "hd h \<notin> set (cs_known cs) \<Longrightarrow> has_one io cs h = (False, None)" for h by (simp add: has_one_def)
  have "fst out = map (\<lambda>h. fst (has_one io cs h)) hashes"
    by (rule nth_equalityI) (use out(2) cov skip in \<open>simp_all add: filled_def\<close>)
  moreover have "snd out = map (\<lambda>h. snd (has_one io cs h)) hashes"
    by (rule nth_equalityI) (use out(2) cov skip in \<open>simp_all add: filled_def\<close>)
  ultimately show ?thesis using False g out(1) by (cases out) (simp add: runChunkBatch_def Let_def)
qed (simp add: runChunkBatch_def)


lemma visit_path:
  assumes "canonical root" "length h = HashLen"
  shows "Path root h = Inr (path_clean (path_clean (root @ ''/'' @ take 2 (chunk_name h)) @ ''/'' @ chunk_name h))"
proof -
  obtain rs where rs: "\<forall>r\<in>set rs. comp_ok r" "Path root h = Inr (render (rs @ [hex_encode [hd h], hex_encode h]))"
    "shard_path root (chunk_name h) = render (rs @ [hex_encode [hd h]])"
    using Path_render [OF assms] by blast
  have h: "h \<noteq> []" using assms(2) by (auto simp: HashLen_def)
  have ok: "\<forall>r\<in>set (rs @ [hex_encode [hd h]]). comp_ok r" using rs(1) comp_ok_hex by simp
  obtain rs' where rs': "render (rs @ [hex_encode [hd h]]) = render rs'" "\<forall>r\<in>set rs'. comp_ok r"
    "path_clean (render (rs @ [hex_encode [hd h]]) @ ''/'' @ join_with slash [hex_encode h]) = render (rs' @ [hex_encode h])"
    using path_clean_join [OF canonical_render [OF ok], of "[hex_encode h]"] comp_ok_hex [OF h] by auto
  have eq: "rs' = rs @ [hex_encode [hd h]]" using render_inj [OF rs'(2) ok rs'(1) [symmetric]] .
  have "path_clean (root @ ''/'' @ take 2 (chunk_name h)) = render (rs @ [hex_encode [hd h]])"
    using rs(3) unfolding shard_path_def .
  moreover have "path_clean (render (rs @ [hex_encode [hd h]]) @ ''/'' @ chunk_name h) = render (rs @ [hex_encode [hd h], hex_encode h])"
    using rs'(3) unfolding eq chunk_name_def by simp
  ultimately show ?thesis using rs(2) by (simp only:)
qed

lemma has_one_lookup:
  assumes "canonical (cs_root cs)" "length h = HashLen" "hd h \<in> set (cs_known cs)" "Path (cs_root cs) h = Inr p"
  shows "has_one io cs h = (if io_lstat io p then (False, Some ErrLstat)
    else case map_of (cs_files cs) p of None \<Rightarrow> (False, None) | Some NotRegular \<Rightarrow> (False, Some ErrNotRegular) | Some (Regular _) \<Rightarrow> (True, None))"
  using assms visit_path [OF assms(1,2)]
  by (auto simp: has_one_def visitChunkShard_def Let_def split: option.splits chunk_node.splits)

lemma all_known_unique_spec:
  "all_known_unique known seen hs = Inl e \<longleftrightarrow> e = ErrHashLen \<and> (\<exists>h\<in>set hs. length h \<noteq> HashLen)"
  "all_known_unique known seen hs = Inr True \<Longrightarrow> \<forall>h\<in>set hs. hd h \<in> set known"
proof (induction hs arbitrary: seen)
  case (Cons h hs)
  { case 1 show ?case using Cons(1) [of "h # seen"] by (cases "all_known_unique known (h # seen) hs") auto }
  { case 2 then show ?case using Cons(2) [of "h # seen"] by (cases "all_known_unique known (h # seen) hs") (auto split: if_splits) }
qed auto

lemma has_serial_ref:
  assumes "canonical (cs_root cs)" "\<forall>h\<in>set hs. length h = HashLen" "\<forall>h\<in>set hs. hd h \<in> set (cs_known cs)"
  shows "has_serial io cs hs = (case List.map_filter (\<lambda>h. snd (has_one io cs h)) hs of
             e # _ \<Rightarrow> Inl e | [] \<Rightarrow> Inr (map (\<lambda>h. fst (has_one io cs h)) hs))"
  using assms(2,3)
proof (induction hs)
  case (Cons h hs)
  from Cons.prems obtain p where p: "Path (cs_root cs) h = Inr p" by (auto simp: Path_def Let_def)
  have one: "has_one io cs h = (if io_lstat io p then (False, Some ErrLstat)
    else case map_of (cs_files cs) p of None \<Rightarrow> (False, None) | Some NotRegular \<Rightarrow> (False, Some ErrNotRegular) | Some (Regular _) \<Rightarrow> (True, None))"
    using Cons.prems p by (intro has_one_lookup [OF assms(1)]) auto
  from Cons have IH: "has_serial io cs hs = (case List.map_filter (\<lambda>h. snd (has_one io cs h)) hs of
             e # _ \<Rightarrow> Inl e | [] \<Rightarrow> Inr (map (\<lambda>h. fst (has_one io cs h)) hs))" by simp
  show ?case
    by (cases "List.map_filter (\<lambda>h. snd (has_one io cs h)) hs")
      (auto simp: p one IH List.map_filter_def split: option.splits chunk_node.splits)
qed simp

lemma find_first_error:
  "(case find (\<lambda>e. e \<noteq> None) (map f hs) of Some (Some e) \<Rightarrow> Inl e | _ \<Rightarrow> Inr out) =
   (case List.map_filter f hs of e # _ \<Rightarrow> Inl e | [] \<Rightarrow> Inr out)"
  by (induction hs) (auto simp: List.map_filter_def split: option.splits)

lemma HasMany_ref:
  assumes "canonical (cs_root cs)"
  shows "HasMany io cs hashes = has_ref io cs hashes"
proof (cases "\<exists>h\<in>set hashes. length h \<noteq> HashLen")
  case True
  then have "all_known_unique (cs_known cs) [] hashes = Inl ErrHashLen" by (simp add: all_known_unique_spec(1))
  with True show ?thesis by (simp add: HasMany_def has_ref_def)
next
  case False
  then obtain b where b: "all_known_unique (cs_known cs) [] hashes = Inr b"
    using all_known_unique_spec(1) [of "cs_known cs" "[]" hashes] by (cases "all_known_unique (cs_known cs) [] hashes") auto
  show ?thesis
  proof (cases b)
    case True
    with b False all_known_unique_spec(2) has_serial_ref [OF assms] show ?thesis
      by (simp add: HasMany_def has_ref_def)
  next
    case False
    with b \<open>\<not> (\<exists>h\<in>set hashes. length h \<noteq> HashLen)\<close> runChunkBatch_has [of hashes io cs] show ?thesis
      unfolding HasMany_def has_ref_def by (simp add: find_first_error [simplified])
  qed
qed

text \<open>With every shard hint in place and no I/O error, the answer is what is on disk.\<close>

lemma has_ref_present:
  assumes "chunks_ok blake3 cs" "\<forall>h\<in>set hashes. length h = HashLen" "\<forall>p. \<not> io_lstat io p"
  shows "has_ref io cs hashes = Inr (map (\<lambda>h. \<exists>data. chunk_Get io cs h = Inr data) hashes)"
proof -
  have one: "has_one io cs h = (\<exists>data. chunk_Get io cs h = Inr data, None)" if "h \<in> set hashes" for h
  proof -
    have len: "length h = HashLen" using that assms(2) by blast
    have can: "canonical (cs_root cs)" using assms(1) unfolding chunks_ok_def by (rule conjunct1)
    obtain p where p: "Path (cs_root cs) h = Inr p" using len by (auto simp: Path_def Let_def)
    have known: "\<exists>data. n = Regular data \<and> hd h \<in> set (cs_known cs)" if "map_of (cs_files cs) p = Some n" for n
    proof -
      from assms(1) that obtain data where d: "n = Regular data" "Path (cs_root cs) (blake3 data) = Inr p" "hd (blake3 data) \<in> set (cs_known cs)"
        unfolding chunks_ok_def by blast
      from Path_inj [OF can p d(2)] d show ?thesis by auto
    qed
    show ?thesis
    proof (cases "map_of (cs_files cs) p")
      case None
      then have "\<not> (\<exists>data. chunk_Get io cs h = Inr data)" by (simp add: chunk_Get_def p)
      moreover have "has_one io cs h = (False, None)"
      proof (cases "hd h \<in> set (cs_known cs)")
        case True
        from has_one_lookup [OF can len True p] None assms(3) show ?thesis by simp
      qed (simp add: has_one_def)
      ultimately show ?thesis by simp
    next
      case (Some n)
      from known [OF Some] obtain data where n: "n = Regular data" "hd h \<in> set (cs_known cs)" by blast
      have "chunk_Get io cs h = Inr data" using Some n(1) assms(3) by (simp add: chunk_Get_def p)
      moreover from has_one_lookup [OF can len n(2) p] Some n(1) assms(3) have "has_one io cs h = (True, None)" by simp
      ultimately show ?thesis by simp
    qed
  qed
  have "List.map_filter (\<lambda>h. snd (has_one io cs h)) hashes = []"
    unfolding List.map_filter_def by (simp add: filter_empty_conv one)
  moreover have "\<not> (\<exists>h\<in>set hashes. length h \<noteq> HashLen)" using assms(2) by blast
  moreover have "map (\<lambda>h. fst (has_one io cs h)) hashes = map (\<lambda>h. \<exists>data. chunk_Get io cs h = Inr data) hashes"
    by (rule map_cong) (simp_all add: one)
  ultimately show ?thesis by (simp only: has_ref_def if_False list.case)
qed


section \<open>Deletion\<close>

text \<open>Exactly the regular files among \<open>Q\<close> whose unlink does not fail are gone.\<close>

definition del_step :: "chunk_io \<Rightarrow> string set \<Rightarrow> ChunkStore \<Rightarrow> ChunkStore \<Rightarrow> bool" where
  "del_step io Q cs cs' \<longleftrightarrow> cs_root cs' = cs_root cs \<and> cs_known cs' = cs_known cs \<and> cs_dirs cs' = cs_dirs cs \<and>
     (\<forall>p. map_of (cs_files cs') p =
        (if p \<in> Q \<and> (\<exists>d. map_of (cs_files cs) p = Some (Regular d)) \<and> \<not> io_unlink io p then None else map_of (cs_files cs) p))"

lemma del_step_empty [simp]: "del_step io {} cs cs"
  by (simp add: del_step_def)

lemma del_step_trans:
  assumes "del_step io Q a b" "del_step io R b c"
  shows "del_step io (Q \<union> R) a c"
proof -
  have "cs_root c = cs_root a \<and> cs_known c = cs_known a \<and> cs_dirs c = cs_dirs a" using assms by (simp add: del_step_def)
  moreover have "map_of (cs_files c) p =
        (if p \<in> Q \<union> R \<and> (\<exists>d. map_of (cs_files a) p = Some (Regular d)) \<and> \<not> io_unlink io p then None else map_of (cs_files a) p)" for p
  proof -
    have b: "map_of (cs_files b) p = (if p \<in> Q \<and> (\<exists>d. map_of (cs_files a) p = Some (Regular d)) \<and> \<not> io_unlink io p then None else map_of (cs_files a) p)"
      and c: "map_of (cs_files c) p = (if p \<in> R \<and> (\<exists>d. map_of (cs_files b) p = Some (Regular d)) \<and> \<not> io_unlink io p then None else map_of (cs_files b) p)"
      using assms unfolding del_step_def by blast+
    show ?thesis unfolding c b by (cases "p \<in> Q"; cases "p \<in> R") simp_all
  qed
  ultimately show ?thesis unfolding del_step_def by blast
qed

lemma visit_delete_step:
  "del_step io {path_clean (shard @ ''/'' @ name)} cs (snd (visitChunkShard io chunkBatchDelete shard name cs))"
  by (simp add: visitChunkShard_def Let_def del_step_def delete_conv' split: option.splits chunk_node.splits)

definition item_paths :: "string \<Rightarrow> batch_item list \<Rightarrow> string set" where
  "item_paths shard items = {p. \<exists>name is. (name, is) \<in> set items \<and> p = path_clean (shard @ ''/'' @ name)}"

lemma process_items_delete: "del_step io (item_paths shard items) cs (snd (process_items io chunkBatchDelete shard items (ans, cs)))"
proof (induction items arbitrary: ans cs)
  case Nil
  then show ?case by (simp add: item_paths_def)
next
  case (Cons item items)
  obtain name "is" where item: "item = (name, is)" by fastforce
  obtain rs es where ans: "ans = (rs, es)" by fastforce
  obtain r e cs1 where v: "visitChunkShard io chunkBatchDelete shard name cs = ((r, e), cs1)" by (metis prod.collapse)
  have "del_step io {path_clean (shard @ ''/'' @ name)} cs cs1" using visit_delete_step [of io shard name cs] v by simp
  note step = del_step_trans [OF this Cons.IH [where cs = cs1]]
  have "item_paths shard (item # items) = {path_clean (shard @ ''/'' @ name)} \<union> item_paths shard items"
    by (auto simp: item_paths_def item)
  with step v show ?case by (simp add: item ans)
qed

definition group_paths :: "chunk_io \<Rightarrow> ChunkStore \<Rightarrow> batch_groups \<Rightarrow> string set" where
  "group_paths io cs grouped = {p. \<exists>s items. (s, items) \<in> set grouped \<and> path_clean (cs_root cs @ ''/'' @ s) \<in> set (cs_dirs cs) \<and>
     \<not> io_open io (path_clean (cs_root cs @ ''/'' @ s)) \<and> p \<in> item_paths (path_clean (cs_root cs @ ''/'' @ s)) items}"

lemma group_paths_upd: "del_step io Q cs cs' \<Longrightarrow> group_paths io cs' g = group_paths io cs g"
  by (simp add: del_step_def group_paths_def)

lemma process_groups_delete: "del_step io (group_paths io cs g) cs (snd (fold (process_group io chunkBatchDelete) g (ans, cs)))"
proof (induction g arbitrary: ans cs)
  case Nil
  then show ?case by (simp add: group_paths_def)
next
  case (Cons gp g)
  obtain shardName items where gp: "gp = (shardName, items)" by fastforce
  obtain ans1 cs1 where run: "process_group io chunkBatchDelete gp (ans, cs) = (ans1, cs1)" by fastforce
  have step: "del_step io (group_paths io cs [gp]) cs cs1"
    using run process_items_delete [of io "path_clean (cs_root cs @ ''/'' @ shardName)" items cs ans]
    by (cases ans) (auto simp: process_group_def gp openChunkShard_def group_paths_def Let_def split: if_splits)
  have "group_paths io cs (gp # g) = group_paths io cs [gp] \<union> group_paths io cs g" unfolding group_paths_def by auto
  with del_step_trans [OF step Cons.IH] run show ?case by (simp add: group_paths_upd [OF step])
qed


lemma item_paths_pairs:
  assumes "\<And>name is. (name, is) \<in> set items \<Longrightarrow> is \<noteq> []"
  shows "p \<in> item_paths shard items \<longleftrightarrow> (\<exists>name j. (name, j) \<in> item_pairs items \<and> p = path_clean (shard @ ''/'' @ name))"
proof
  assume "p \<in> item_paths shard items"
  then obtain name "is" where i: "(name, is) \<in> set items" "p = path_clean (shard @ ''/'' @ name)" by (auto simp: item_paths_def)
  from assms [OF i(1)] have "hd is \<in> set is" by simp
  with i show "\<exists>name j. (name, j) \<in> item_pairs items \<and> p = path_clean (shard @ ''/'' @ name)" unfolding item_pairs_def by blast
qed (auto simp: item_pairs_def item_paths_def)

definition filled_groups :: "batch_groups \<Rightarrow> bool" where
  "filled_groups g \<longleftrightarrow> (\<forall>s items name is. (s, items) \<in> set g \<longrightarrow> (name, is) \<in> set items \<longrightarrow> is \<noteq> [])"

lemma filled_groups_of: "filled_groups g \<Longrightarrow> (name, is) \<in> set (group_of g s) \<Longrightarrow> is \<noteq> []"
  unfolding filled_groups_def group_of_def by (cases "map_of g s") (auto dest: map_of_SomeD)

lemma filled_groups_update:
  assumes "filled_groups g" "\<And>name is. (name, is) \<in> set items \<Longrightarrow> is \<noteq> []"
  shows "filled_groups (AList.update s items g)"
proof -
  have "set (AList.update s items g) \<subseteq> insert (s, items) (set g)" by (induction g) auto
  with assms show ?thesis unfolding filled_groups_def by blast
qed

lemma add_item_filled:
  assumes "filled_groups g" "add_item known False op i h (g, seen) = (g', seen')"
  shows "filled_groups g'"
proof -
  let ?items = "group_of g (take 2 (chunk_name h)) @ [(chunk_name h, [i])]"
  have "(name, is) \<in> set ?items \<Longrightarrow> is \<noteq> []" for name "is" using filled_groups_of [OF assms(1), of name "is"] by auto
  then have "filled_groups (AList.update (take 2 (chunk_name h)) ?items g)" by (rule filled_groups_update [OF assms(1)])
  with assms show ?thesis by (auto simp: add_item_def Let_def split: if_splits)
qed

lemma filled_groups_paths:
  assumes "filled_groups g"
  shows "(\<exists>s items. (s, items) \<in> set g \<and> B s \<and> p \<in> item_paths (f s) items) \<longleftrightarrow>
    (\<exists>s name j. (s, name, j) \<in> batch_pairs g \<and> B s \<and> p = path_clean (f s @ ''/'' @ name))" (is "?L \<longleftrightarrow> ?R")
proof
  assume ?L
  then obtain s items where s: "(s, items) \<in> set g" "B s" "p \<in> item_paths (f s) items" by blast
  have "\<And>name is. (name, is) \<in> set items \<Longrightarrow> is \<noteq> []" using assms s(1) unfolding filled_groups_def by blast
  then have "p \<in> item_paths (f s) items \<longleftrightarrow> (\<exists>name j. (name, j) \<in> item_pairs items \<and> p = path_clean (f s @ ''/'' @ name))"
    by (rule item_paths_pairs)
  with s(3) obtain name j where "(name, j) \<in> item_pairs items" "p = path_clean (f s @ ''/'' @ name)" by blast
  with s show ?R unfolding batch_pairs_def by blast
next
  assume ?R
  then obtain s name j items where s: "(s, items) \<in> set g" "(name, j) \<in> item_pairs items" "B s" "p = path_clean (f s @ ''/'' @ name)"
    unfolding batch_pairs_def by blast
  from s(2,4) have "p \<in> item_paths (f s) items" unfolding item_pairs_def item_paths_def by blast
  with s show ?L by blast
qed

lemma group_hashes_filled:
  "filled_groups (fst gs) \<Longrightarrow> group_hashes known False op i hs gs = Inr g \<Longrightarrow> filled_groups g"
proof (induction hs arbitrary: i gs)
  case (Cons h hs)
  obtain g0 s0 where gs: "gs = (g0, s0)" by fastforce
  obtain g1 s1 where a: "add_item known False op i h (g0, s0) = (g1, s1)" by fastforce
  have "filled_groups (fst (g1, s1))" using add_item_filled [OF _ a] Cons.prems(1) gs by simp
  with Cons.IH [of "(g1, s1)" "Suc i"] Cons.prems(2) a gs show ?case by (auto split: if_splits)
qed simp

text \<open>The paths a batch delete visits: those of its hashes, in shards that exist and open.\<close>

lemma deleteMany_run:
  assumes can: "canonical (cs_root cs)" and len: "\<forall>h\<in>set hashes. length h = HashLen"
  obtains res cs' Q where "deleteManyUnlocked io hashes cs = (Inr res, cs')" "del_step io Q cs cs'"
    "Q = {p. \<exists>h\<in>set hashes. Path (cs_root cs) h = Inr p \<and> shard_path (cs_root cs) (chunk_name h) \<in> set (cs_dirs cs) \<and>
        \<not> io_open io (shard_path (cs_root cs) (chunk_name h))}"
proof (cases "hashes = []")
  case True
  then show thesis by (intro that [of "[]" cs "{}"]) (simp_all add: deleteManyUnlocked_def runChunkBatch_def)
next
  case False
  let ?init = "(replicate (length hashes) False, replicate (length hashes) (None :: chunk_error option))"
  obtain g where g: "group_hashes (cs_known cs) False chunkBatchDelete 0 hashes ([], []) = Inr g"
    using len by (simp add: group_hashes_ok)
  have "groups_ok ([], [])" by (simp add: groups_ok_def)
  from group_hashes_pairs [OF this g] have pairs: "batch_pairs g = hash_pairs (cs_known cs) chunkBatchDelete 0 hashes"
    by (simp add: batch_pairs_def)
  have fill: "filled_groups g" using group_hashes_filled [OF _ g] by (simp add: filled_groups_def)
  obtain out cs' where run: "fold (process_group io chunkBatchDelete) g (?init, cs) = (out, cs')" by fastforce
  have step: "del_step io (group_paths io cs g) cs cs'" using process_groups_delete [of io cs g ?init] run by simp
  let ?sh = "\<lambda>s. path_clean (cs_root cs @ ''/'' @ s)"
  let ?B = "\<lambda>s. ?sh s \<in> set (cs_dirs cs) \<and> \<not> io_open io (?sh s)"
  have mem: "p \<in> group_paths io cs g \<longleftrightarrow> (\<exists>h\<in>set hashes. Path (cs_root cs) h = Inr p \<and> shard_path (cs_root cs) (chunk_name h) \<in> set (cs_dirs cs) \<and>
      \<not> io_open io (shard_path (cs_root cs) (chunk_name h)))" for p
  proof -
    have "p \<in> group_paths io cs g \<longleftrightarrow> (\<exists>s items. (s, items) \<in> set g \<and> ?B s \<and> p \<in> item_paths (?sh s) items)"
      unfolding group_paths_def by blast
    also have "\<dots> \<longleftrightarrow> (\<exists>s name j. (s, name, j) \<in> batch_pairs g \<and> ?B s \<and> p = path_clean (?sh s @ ''/'' @ name))"
      by (rule filled_groups_paths [OF fill])
    also have "\<dots> \<longleftrightarrow> (\<exists>j<length hashes. ?B (take 2 (chunk_name (hashes ! j))) \<and>
        p = path_clean (?sh (take 2 (chunk_name (hashes ! j))) @ ''/'' @ chunk_name (hashes ! j)))"
      unfolding pairs hash_pairs_iff visited_def by auto
    also have "\<dots> \<longleftrightarrow> (\<exists>h\<in>set hashes. ?B (take 2 (chunk_name h)) \<and> p = path_clean (?sh (take 2 (chunk_name h)) @ ''/'' @ chunk_name h))"
      unfolding in_set_conv_nth Bex_def by blast
    finally show ?thesis using visit_path [OF can] len unfolding shard_path_def by auto
  qed
  obtain rs es where out: "out = (rs, es)" by fastforce
  show thesis
  proof (rule that)
    show "deleteManyUnlocked io hashes cs = (Inr (zip rs es), cs')"
      using False g run out by (simp add: deleteManyUnlocked_def runChunkBatch_def Let_def)
    show "group_paths io cs g = {p. \<exists>h\<in>set hashes. Path (cs_root cs) h = Inr p \<and> shard_path (cs_root cs) (chunk_name h) \<in> set (cs_dirs cs) \<and>
        \<not> io_open io (shard_path (cs_root cs) (chunk_name h))}" by (rule set_eqI) (simp only: mem mem_Collect_eq)
  qed (rule step)
qed

lemma deleteMany_step:
  assumes ok: "chunks_ok blake3 cs" and len: "\<forall>h\<in>set hashes. length h = HashLen"
    and io: "\<forall>s. \<not> io_open io s"
  shows "\<exists>res cs'. deleteManyUnlocked io hashes cs = (Inr res, cs') \<and>
    cs_root cs' = cs_root cs \<and> cs_known cs' = cs_known cs \<and> cs_dirs cs' = cs_dirs cs \<and>
    (\<forall>p. map_of (cs_files cs') p =
      (if (\<exists>h\<in>set hashes. Path (cs_root cs) h = Inr p) \<and> \<not> io_unlink io p then None else map_of (cs_files cs) p))"
proof -
  have can: "canonical (cs_root cs)" using ok unfolding chunks_ok_def by (rule conjunct1)
  from can len obtain res cs' Q where run: "deleteManyUnlocked io hashes cs = (Inr res, cs')" and step: "del_step io Q cs cs'"
    and Q: "Q = {p. \<exists>h\<in>set hashes. Path (cs_root cs) h = Inr p \<and> shard_path (cs_root cs) (chunk_name h) \<in> set (cs_dirs cs) \<and>
        \<not> io_open io (shard_path (cs_root cs) (chunk_name h))}" by (rule deleteMany_run [where io = io])
  have "map_of (cs_files cs') p = (if (\<exists>h\<in>set hashes. Path (cs_root cs) h = Inr p) \<and> \<not> io_unlink io p then None else map_of (cs_files cs) p)" for p
  proof (cases "map_of (cs_files cs) p")
    case None
    with step show ?thesis by (simp add: del_step_def)
  next
    case (Some n)
    then obtain data where d: "n = Regular data" "Path (cs_root cs) (blake3 data) = Inr p"
        "shard_path (cs_root cs) (chunk_name (blake3 data)) \<in> set (cs_dirs cs)"
      using ok unfolding chunks_ok_def by blast
    have "p \<in> Q \<longleftrightarrow> (\<exists>h\<in>set hashes. Path (cs_root cs) h = Inr p)"
      unfolding Q using Path_inj [OF can _ d(2)] d(3) io by blast
    with step Some d(1) show ?thesis by (simp add: del_step_def)
  qed
  with run step show ?thesis by (auto simp: del_step_def)
qed

text \<open>Whatever fails, a batch delete keeps the invariant and touches no path but those of its hashes.\<close>

lemma deleteMany_ok:
  assumes ok: "chunks_ok blake3 cs" and len: "\<forall>h\<in>set hashes. length h = HashLen"
    and run: "deleteManyUnlocked io hashes cs = (res, cs')"
  shows "chunks_ok blake3 cs'" "cs_root cs' = cs_root cs"
    "map_of (cs_files cs') p \<noteq> map_of (cs_files cs) p \<Longrightarrow> \<exists>h\<in>set hashes. Path (cs_root cs) h = Inr p"
proof -
  have can: "canonical (cs_root cs)" using ok unfolding chunks_ok_def by (rule conjunct1)
  from can len obtain res' cs1 Q where run1: "deleteManyUnlocked io hashes cs = (Inr res', cs1)" and step1: "del_step io Q cs cs1"
    and Q: "Q = {p. \<exists>h\<in>set hashes. Path (cs_root cs) h = Inr p \<and> shard_path (cs_root cs) (chunk_name h) \<in> set (cs_dirs cs) \<and>
        \<not> io_open io (shard_path (cs_root cs) (chunk_name h))}" by (rule deleteMany_run [where io = io])
  from run run1 step1 have step: "del_step io Q cs cs'" by simp
  have same: "cs_root cs' = cs_root cs" "cs_known cs' = cs_known cs" "cs_dirs cs' = cs_dirs cs" using step by (simp_all add: del_step_def)
  have files: "map_of (cs_files cs') q = map_of (cs_files cs) q \<or> map_of (cs_files cs') q = None \<and> q \<in> Q" for q
    using step unfolding del_step_def by metis
  show "cs_root cs' = cs_root cs" by (rule same)
  show "chunks_ok blake3 cs'"
    unfolding chunks_ok_def same
  proof (intro conjI allI impI can)
    fix q n assume "map_of (cs_files cs') q = Some n"
    then have "map_of (cs_files cs) q = Some n" using files [of q] by simp
    then show "\<exists>h data. n = Regular data \<and> blake3 data = h \<and> Path (cs_root cs) h = Inr q \<and> hd h \<in> set (cs_known cs) \<and>
        shard_path (cs_root cs) (chunk_name h) \<in> set (cs_dirs cs)"
      using ok unfolding chunks_ok_def by blast
  qed
  assume "map_of (cs_files cs') p \<noteq> map_of (cs_files cs) p"
  then have "p \<in> Q" using files [of p] by blast
  then show "\<exists>h\<in>set hashes. Path (cs_root cs) h = Inr p" unfolding Q by blast
qed

end
