(* ===== verification/Gc.thy ===== *)
theory Gc
  imports Chunk_Batch Change_Feed
begin

text \<open>
  The chunk garbage collector of gc.go: choosing candidates (\<open>selectGCCandidates\<close>), the guarded batch
  delete (\<open>deleteGCBatch\<close>), the budgeted sweep of one tenant (\<open>sweepTenant\<close>) and a tick over a tenant
  (\<open>gc_tick\<close>), which also prunes tombstones.

  One turn of the sweep's loop is a \<open>gc_turn\<close>: the clock reading it is admitted by, whether the
  context is cancelled, what other writers commit between the sweep's SELECT and its locks, whether
  the delete transaction commits, and how the disk answers the unlinks. A sweep is given as many turns
  as fit its budget; the empty list is a clock past the deadline.
\<close>

section \<open>Rows\<close>

record gcCandidate =
  gc_hash :: hash
  gc_size :: "64 word"

definition gc_eligible :: "int \<Rightarrow> chunk_row \<Rightarrow> bool" where
  "gc_eligible cutoff r \<longleftrightarrow> ck_refcount r = 0 \<and> ck_added_at r < cutoff"

definition selectGCCandidates :: "tenant_db \<Rightarrow> int \<Rightarrow> nat \<Rightarrow> gcCandidate list" where
  "selectGCCandidates db cutoff lim =
     map (\<lambda>r. \<lparr> gc_hash = ck_hash r, gc_size = of_int (ck_size r) \<rparr>)
       (take lim (sort_key ck_added_at (filter (gc_eligible cutoff) (db_chunks db))))"

fun gc_delete_rows :: "int \<Rightarrow> gcCandidate list \<Rightarrow> chunk_row list \<Rightarrow> gcCandidate list \<times> 64 word \<times> chunk_row list" where
  "gc_delete_rows cutoff [] rows = ([], 0, rows)"
| "gc_delete_rows cutoff (c # cs) rows =
     (let hit = (\<lambda>r. ck_hash r = gc_hash c \<and> gc_eligible cutoff r);
          (deleted, freed, rows') = gc_delete_rows cutoff cs (tbl_delete hit rows)
      in if 0 < tbl_count hit rows then (c # deleted, gc_size c + freed, rows') else (deleted, freed, rows'))"

definition deleteGCBatch ::
  "bool \<Rightarrow> gcCandidate list \<Rightarrow> int \<Rightarrow> tenant_db \<Rightarrow> (store_error + gcCandidate list \<times> 64 word) \<times> tenant_db" where
  "deleteGCBatch commit_ok candidates cutoff db =
     (let (deleted, freed, rows) = gc_delete_rows cutoff candidates (db_chunks db)
      in if commit_ok then (Inr (deleted, freed), db\<lparr>db_chunks := rows\<rparr>) else (Inl ErrCommit, db))"

section \<open>The sweep\<close>

record gcConfig =
  gcc_retention :: int
  gcc_budget :: int
  gcc_batch :: nat
  gcc_dry_run :: bool

record gc_turn =
  gt_now :: int
  gt_cancelled :: bool
  gt_between :: "tenant_db \<Rightarrow> tenant_db"
  gt_commit :: bool
  gt_io :: chunk_io

record sweepResult =
  sr_count :: "64 word"
  sr_bytes :: "64 word"
  sr_dry_run :: bool

record gc_tenant =
  gs_db :: tenant_db
  gs_chunks :: ChunkStore

definition candidate_hashes :: "gcCandidate list \<Rightarrow> byte list list" where
  "candidate_hashes cands = map (\<lambda>c. be_put HashLen (gc_hash c)) cands"

text \<open>
  One batch, from the locks to the unlinks. The locks are held throughout, so no manifest commit
  that names one of the hashes runs in between.
\<close>

definition gc_batch :: "gc_turn \<Rightarrow> int \<Rightarrow> gcCandidate list \<Rightarrow> gc_tenant \<Rightarrow> (store_error + gcCandidate list \<times> 64 word) \<times> gc_tenant" where
  "gc_batch turn cutoff candidates t =
     (case lockHashes (candidate_hashes candidates) of
        Inl _ \<Rightarrow> (Inl ErrBadArgument, t)
      | Inr _ \<Rightarrow>
          (case deleteGCBatch (gt_commit turn) candidates cutoff (gs_db t) of
             (Inl e, db') \<Rightarrow> (Inl e, t\<lparr>gs_db := db'\<rparr>)
           | (Inr (deleted, freed), db') \<Rightarrow>
               (Inr (deleted, freed),
                t\<lparr>gs_db := db', gs_chunks := snd (deleteManyUnlocked (gt_io turn) (candidate_hashes deleted) (gs_chunks t))\<rparr>)))"

fun sweep_loop :: "gcConfig \<Rightarrow> int \<Rightarrow> int \<Rightarrow> gc_turn list \<Rightarrow> sweepResult \<Rightarrow> gc_tenant \<Rightarrow> (store_error + sweepResult) \<times> gc_tenant" where
  "sweep_loop cfg cutoff deadline [] result t = (Inr result, t)"
| "sweep_loop cfg cutoff deadline (turn # turns) result t =
     (if \<not> gt_now turn < deadline \<or> gt_cancelled turn then (Inr result, t)
      else let candidates = selectGCCandidates (gs_db t) cutoff (gcc_batch cfg)
           in if candidates = [] then (Inr result, t)
              else if gcc_dry_run cfg then
                (Inr (result\<lparr>sr_count := sr_count result + of_nat (length candidates),
                             sr_bytes := sr_bytes result + sum_list (map gc_size candidates)\<rparr>), t)
              else case gc_batch turn cutoff candidates (t\<lparr>gs_db := gt_between turn (gs_db t)\<rparr>) of
                     (Inl e, t') \<Rightarrow> (Inl e, t')
                   | (Inr (deleted, freed), t') \<Rightarrow>
                       sweep_loop cfg cutoff deadline turns
                         (result\<lparr>sr_count := sr_count result + of_nat (length deleted), sr_bytes := sr_bytes result + freed\<rparr>) t')"

definition sweepTenant :: "gcConfig \<Rightarrow> int \<Rightarrow> int \<Rightarrow> gc_turn list \<Rightarrow> gc_tenant \<Rightarrow> (store_error + sweepResult) \<times> gc_tenant" where
  "sweepTenant cfg cutoff deadline turns t =
     sweep_loop cfg cutoff deadline turns \<lparr> sr_count = 0, sr_bytes = 0, sr_dry_run = gcc_dry_run cfg \<rparr> t"

text \<open>
  The body of \<^verbatim>\<open>tick\<close> for one tenant, in milliseconds for the tombstones and seconds for the chunks:
  \<open>start\<close>, \<open>at\<close> and \<open>later\<close> are the three readings of the clock around the sweep.
\<close>

definition gc_tick :: "env \<Rightarrow> gcConfig \<Rightarrow> int \<Rightarrow> int \<Rightarrow> int \<Rightarrow> gc_turn list \<Rightarrow> gc_tenant \<Rightarrow> gc_tenant" where
  "gc_tick E cfg start begun later turns t =
     (case sweepTenant cfg (start div 1000 - gcc_retention cfg) (begun + gcc_budget cfg) turns t of
        (Inl _, t') \<Rightarrow> t'
      | (Inr _, t') \<Rightarrow>
          if gcc_dry_run cfg then t'
          else t'\<lparr>gs_db := snd (pruneTombstones E (later - gcc_retention cfg * 1000) (gs_db t'))\<rparr>)"

section \<open>What a batch deletes\<close>

lemma gc_delete_rows_spec:
  assumes "gc_delete_rows cutoff cands rows = (deleted, freed, rows')"
  shows "set rows' \<subseteq> set rows" "distinct (map ck_hash rows) \<Longrightarrow> distinct (map ck_hash rows')" "set deleted \<subseteq> set cands"
    "\<And>c. c \<in> set deleted \<Longrightarrow> \<exists>r\<in>set rows. ck_hash r = gc_hash c \<and> gc_eligible cutoff r"
    "\<And>r. r \<in> set rows \<Longrightarrow> r \<notin> set rows' \<Longrightarrow> gc_eligible cutoff r \<and> ck_hash r \<in> gc_hash ` set deleted"
proof -
  have "set rows' \<subseteq> set rows \<and> (distinct (map ck_hash rows) \<longrightarrow> distinct (map ck_hash rows')) \<and> set deleted \<subseteq> set cands \<and>
    (\<forall>c\<in>set deleted. \<exists>r\<in>set rows. ck_hash r = gc_hash c \<and> gc_eligible cutoff r) \<and>
    (\<forall>r\<in>set rows. r \<notin> set rows' \<longrightarrow> gc_eligible cutoff r \<and> ck_hash r \<in> gc_hash ` set deleted)"
    using assms
  proof (induction cands arbitrary: rows deleted freed rows')
    case (Cons c cs)
    let ?hit = "\<lambda>r. ck_hash r = gc_hash c \<and> gc_eligible cutoff r"
    obtain deleted1 freed1 where run: "gc_delete_rows cutoff cs (tbl_delete ?hit rows) = (deleted1, freed1, rows')"
      and d: "deleted = (if 0 < tbl_count ?hit rows then c # deleted1 else deleted1)"
      using Cons.prems by (auto simp: Let_def split: prod.splits if_splits)
    note IH = Cons.IH [OF run]
    have hit: "0 < tbl_count ?hit rows \<longleftrightarrow> (\<exists>r\<in>set rows. ?hit r)" unfolding neq0_conv [symmetric] tbl_count_0 by blast
    have "distinct (map ck_hash rows) \<longrightarrow> distinct (map ck_hash rows')" using IH by simp
    moreover have "\<forall>r\<in>set rows. r \<notin> set rows' \<longrightarrow> gc_eligible cutoff r \<and> ck_hash r \<in> gc_hash ` set deleted"
    proof (intro ballI impI)
      fix r assume r: "r \<in> set rows" "r \<notin> set rows'"
      show "gc_eligible cutoff r \<and> ck_hash r \<in> gc_hash ` set deleted"
      proof (cases "?hit r")
        case True
        with r(1) hit d show ?thesis by auto
      next
        case False
        with r IH d show ?thesis by auto
      qed
    qed
    moreover have "\<forall>c\<in>set deleted. \<exists>r\<in>set rows. ck_hash r = gc_hash c \<and> gc_eligible cutoff r" using IH d hit by auto
    moreover have "set rows' \<subseteq> set rows" using conjunct1 [OF IH] by auto
    moreover have "set deleted \<subseteq> set (c # cs)" using conjunct1 [OF conjunct2 [OF conjunct2 [OF IH]]] d by auto
    ultimately show ?case by (intro conjI)
  qed simp
  then show "set rows' \<subseteq> set rows" "distinct (map ck_hash rows) \<Longrightarrow> distinct (map ck_hash rows')" "set deleted \<subseteq> set cands"
    "\<And>c. c \<in> set deleted \<Longrightarrow> \<exists>r\<in>set rows. ck_hash r = gc_hash c \<and> gc_eligible cutoff r"
    "\<And>r. r \<in> set rows \<Longrightarrow> r \<notin> set rows' \<Longrightarrow> gc_eligible cutoff r \<and> ck_hash r \<in> gc_hash ` set deleted"
    by simp_all
qed

lemma gc_delete_refcount:
  assumes "gc_delete_rows cutoff cands rows = (deleted, freed, rows')" "distinct (map ck_hash rows)"
  shows "refcount_of rows' h = refcount_of rows h"
proof -
  note s = gc_delete_rows_spec [OF assms(1)]
  have d': "distinct (map ck_hash rows')" using s(2) [OF assms(2)] .
  show ?thesis
  proof (cases "tbl_get ck_hash rows h")
    case None
    then have "tbl_get ck_hash rows' h = None" using s(1) unfolding tbl_get_None by auto
    with None show ?thesis by (simp add: refcount_of_def)
  next
    case (Some r)
    then have r: "r \<in> set rows" "ck_hash r = h" by (auto dest: tbl_get_SomeD)
    show ?thesis
    proof (cases "r \<in> set rows'")
      case True
      with r tbl_get_unique [OF d' True] Some show ?thesis by (simp add: refcount_of_def)
    next
      case False
      have "h \<notin> tbl_keys ck_hash rows'"
      proof
        assume "h \<in> tbl_keys ck_hash rows'"
        then obtain r' where "r' \<in> set rows'" "ck_hash r' = h" by auto
        with s(1) r assms(2) have "r' = r" unfolding distinct_map inj_on_def by blast
        with \<open>r' \<in> set rows'\<close> False show False by simp
      qed
      with s(5) [OF r(1) False] Some show ?thesis
        by (simp add: refcount_of_def gc_eligible_def tbl_get_None [symmetric])
    qed
  qed
qed

lemma deleteGCBatch_inv:
  assumes "db_inv db" "deleteGCBatch c cands cutoff db = (res, db')"
  shows "db_inv db'" "db' = db\<lparr>db_chunks := db_chunks db'\<rparr>"
    "res = Inr (deleted, freed) \<Longrightarrow> gcand \<in> set deleted \<Longrightarrow> live_refs (db_manifests db') (gc_hash gcand) = 0"
proof -
  obtain deleted1 freed1 rows where run: "gc_delete_rows cutoff cands (db_chunks db) = (deleted1, freed1, rows)" by (metis prod_cases3)
  note s = gc_delete_rows_spec [OF run] and rc = gc_delete_refcount [OF run db_invD(2) [OF assms(1)]]
  have "db_inv (db\<lparr>db_chunks := rows\<rparr>)"
    using assms(1) s(2) rc by (simp add: db_inv_def keys_ok_def refs_ok_def revs_ok_ball)
  with assms run show "db_inv db'" "db' = db\<lparr>db_chunks := db_chunks db'\<rparr>"
    by (auto simp: deleteGCBatch_def split: if_splits)
  assume r: "res = Inr (deleted, freed)" "gcand \<in> set deleted"
  with assms(2) run have "gcand \<in> set deleted1" "db_manifests db' = db_manifests db" by (auto simp: deleteGCBatch_def split: if_splits)
  with s(4) obtain row where row: "row \<in> set (db_chunks db)" "ck_hash row = gc_hash gcand" "gc_eligible cutoff row" by blast
  have "refcount_of (db_chunks db) (gc_hash gcand) = 0"
    using tbl_get_unique [OF db_invD(2) [OF assms(1)] row(1)] row(2,3) by (simp add: refcount_of_def gc_eligible_def)
  with db_invD(8) [OF assms(1), of "gc_hash gcand"] \<open>db_manifests db' = db_manifests db\<close>
  show "live_refs (db_manifests db') (gc_hash gcand) = 0" by simp
qed

end
