(* ===== verification/Store_Machine.thy ===== *)
theory Store_Machine
  imports Manifest_Props Feed_Rename Gc
begin

text \<open>
  The manifest store as a state machine. A \<open>mutation\<close> is one call that changes a tenant's database;
  \<open>apply_mutation\<close> runs it. The states reachable from the empty store by any sequence of calls, with
  any clocks, encoders and commit failures, satisfy \<open>store_inv\<close>: the database invariant, and the
  doorbell having been rung exactly once per revision, in order.
\<close>

section \<open>Calls\<close>

datatype mutation =
    MPut string nat Manifest string string string
  | MLink string string string string string
  | MDelete string nat string string string
  | MRename string string nat nat bool string string string
  | MDirCreate string "32 word"
  | MDirRemove string
  | MSymlink string string "32 word"
  | MMknod string "32 word" "64 word"
  | MSetMode string "32 word" string string string string
  | MSetOwner string "32 word" "32 word"
  | MSetAtime string int
  | MNoteChunk hash int int
  | MRegisterDir string string
  | MDeleteRow string nat
  | MPrune int
  | MCollect "gcCandidate list" int

definition on_db :: "(tenant_db \<Rightarrow> tenant_db) \<Rightarrow> mstore \<Rightarrow> mstore" where
  "on_db f st = st\<lparr>ms_db := f (ms_db st)\<rparr>"

definition drop_result :: "(store_error + 'a) \<times> mstore \<Rightarrow> (store_error + unit) \<times> mstore" where
  "drop_result r = (map_sum id (\<lambda>_. ()) (fst r), snd r)"

fun apply_mutation :: "env \<Rightarrow> mutation \<Rightarrow> mstore \<Rightarrow> (store_error + unit) \<times> mstore" where
  "apply_mutation E (MPut p n mf s a g) st = drop_result (Put E p n mf s a g st)"
| "apply_mutation E (MLink src dst s a g) st = drop_result (Link E src dst s a g st)"
| "apply_mutation E (MDelete p n s a g) st = Delete E p n s a g st"
| "apply_mutation E (MRename src dst ef et nr s a g) st = drop_result (renameOpt E src dst ef et nr s a g st)"
| "apply_mutation E (MDirCreate p m) st = DirCreate E p m st"
| "apply_mutation E (MDirRemove p) st = DirRemove E p st"
| "apply_mutation E (MSymlink p t m) st = Symlink E p t m st"
| "apply_mutation E (MMknod p m d) st = Mknod E p m d st"
| "apply_mutation E (MSetMode p m s a g l) st = SetMode E p m s a g l st"
| "apply_mutation E (MSetOwner p u g) st = SetOwner E p u g st"
| "apply_mutation E (MSetAtime p t) st = SetAtime E p t st"
| "apply_mutation E (MNoteChunk h sz t) st = (Inr (), on_db (\<lambda>db. db\<lparr>db_chunks := NoteChunkStored h sz t (db_chunks db)\<rparr>) st)"
| "apply_mutation E (MRegisterDir q w) st = (Inr (), on_db (RegisterDir q w) st)"
| "apply_mutation E (MDeleteRow s k) st = (Inr (), on_db (DeleteRow s k) st)"
| "apply_mutation E (MPrune c) st =
     (let (r, db) = pruneTombstones E c (ms_db st) in (map_sum id (\<lambda>_. ()) r, st\<lparr>ms_db := db\<rparr>))"
| "apply_mutation E (MCollect cs c) st =
     (let (r, db) = deleteGCBatch (e_commit E) cs c (ms_db st) in (map_sum id (\<lambda>_. ()) r, st\<lparr>ms_db := db\<rparr>))"

inductive reachable :: "mstore \<Rightarrow> bool" where
  init: "reachable empty_store"
| step: "reachable st \<Longrightarrow> apply_mutation E m st = (res, st') \<Longrightarrow> reachable st'"

text \<open>A history as a list of calls, for running concrete ones.\<close>

fun run_calls :: "(env \<times> mutation) list \<Rightarrow> mstore \<Rightarrow> mstore" where
  "run_calls [] st = st"
| "run_calls ((E, m) # cs) st = run_calls cs (snd (apply_mutation E m st))"

lemma reachable_run: "reachable st \<Longrightarrow> reachable (run_calls cs st)"
proof (induction cs st rule: run_calls.induct)
  case (2 E m cs st)
  from step [OF 2(2), of E m "fst (apply_mutation E m st)" "snd (apply_mutation E m st)"] show ?case
    using 2(1) by simp
qed simp

section \<open>The invariant\<close>

definition store_inv :: "mstore \<Rightarrow> bool" where
  "store_inv st \<longleftrightarrow> db_inv (ms_db st) \<and> ms_notified st = [1..<Suc (db_last_rev (ms_db st))]"

text \<open>A call either changes nothing, or commits one revision and rings for it.\<close>

definition one_step :: "mstore \<Rightarrow> mstore \<Rightarrow> bool" where
  "one_step st st' \<longleftrightarrow> db_inv (ms_db st') \<and>
     (st' = st \<or> db_last_rev (ms_db st') = Suc (db_last_rev (ms_db st)) \<and>
        ms_notified st' = ms_notified st @ [db_last_rev (ms_db st')])"

lemma one_step_inv: "store_inv st \<Longrightarrow> one_step st st' \<Longrightarrow> store_inv st'"
  by (auto simp: store_inv_def one_step_def)

lemma one_step_refl: "db_inv (ms_db st) \<Longrightarrow> one_step st st"
  by (simp add: one_step_def)

context store_op
begin

lemma run_one_step: "db_inv (ms_db st) \<Longrightarrow> run_store E op st = (res, st') \<Longrightarrow> one_step st st' \<and> ((\<exists>e. res = Inl e) \<longrightarrow> st' = st)"
  using run_inv run_rev run_error unfolding one_step_def by blast

end

lemmas run_steps = put.run_one_step link.run_one_step del_special.run_one_step del_symlink.run_one_step
  del_manifest.run_one_step dir_create.run_one_step dir_remove.run_one_step symlink.run_one_step
  mknod.run_one_step set_mode.run_one_step set_owner.run_one_step set_atime.run_one_step rename.run_one_step

text \<open>What every call that reports through \<open>run_store\<close> satisfies.\<close>

definition call_ok :: "mstore \<Rightarrow> (store_error + 'a) \<times> mstore \<Rightarrow> bool" where
  "call_ok st r \<longleftrightarrow> one_step st (snd r) \<and> ((\<exists>e. fst r = Inl e) \<longrightarrow> snd r = st)"

lemma call_okI: "(\<And>res st'. r = (res, st') \<Longrightarrow> one_step st st' \<and> ((\<exists>e. res = Inl e) \<longrightarrow> st' = st)) \<Longrightarrow> call_ok st r"
  by (cases r) (simp add: call_ok_def)

lemma call_ok_Inl [simp]: "db_inv (ms_db st) \<Longrightarrow> call_ok st (Inl e, st)"
  by (simp add: call_ok_def one_step_refl)

lemma call_ok_drop [simp]: "call_ok st (drop_result r) = call_ok st r"
  by (cases "fst r") (simp_all add: call_ok_def drop_result_def)

lemma Put_call: "db_inv (ms_db st) \<Longrightarrow> call_ok st (Put E p n mf s a g st)"
  by (auto simp: Put_def split: sum.splits intro!: call_okI dest: put.run_one_step)

lemma Link_call: "db_inv (ms_db st) \<Longrightarrow> call_ok st (Link E src dst s a g st)"
  by (auto simp: Link_def intro!: call_okI dest: link.run_one_step)

lemma rename_call: "db_inv (ms_db st) \<Longrightarrow> call_ok st (renameOpt E src dst ef et nr s a g st)"
  by (auto simp: renameOpt_def intro!: call_okI dest: rename.run_one_step)

lemma Delete_call:
  assumes inv: "db_inv (ms_db st)"
  shows "call_ok st (Delete E p n s a g st)"
proof (cases "s \<noteq> '''' \<and> a = ''''")
  case True
  with inv show ?thesis by (simp add: Delete_def)
next
  case False
  obtain r1 st1 where 1: "run_store E (deleteSpecialNode_tx E p) st = (r1, st1)" by fastforce
  obtain r2 st2 where 2: "run_store E (deleteSymlink_tx E p) st = (r2, st2)" by fastforce
  obtain r3 st3 where 3: "run_store E (Delete_tx E p n s a g) st = (r3, st3)" by fastforce
  note s1 = del_special.run_one_step [OF inv 1] and s2 = del_symlink.run_one_step [OF inv 2]
    and s3 = del_manifest.run_one_step [OF inv 3]
  from s1 s2 s3 1 2 3 False show ?thesis
    by (cases r1; cases r2) (auto simp: Delete_def call_ok_def)
qed

lemma SetMode_call:
  assumes inv: "db_inv (ms_db st)"
  shows "call_ok st (SetMode E p m s a g l st)"
proof (cases "Get (ms_db st) p")
  case (Inl e)
  then show ?thesis using inv by (auto simp: SetMode_def Let_def intro!: call_okI dest: set_mode.run_one_step)
next
  case (Inr mf)
  let ?put = "PutWithLeaseCheck E p (m_version mf) (mf\<lparr>m_mode := m AND perm_mask\<rparr>) s a g l st"
  have "call_ok st ?put"
    using inv Put_call by (auto simp: PutWithLeaseCheck_def split: sum.splits)
  then show ?thesis using Inr by (cases "fst ?put") (auto simp: SetMode_def Let_def call_ok_def split: prod.splits)
qed


text \<open>Calls that are one statement or one small transaction without a revision of their own.\<close>

definition quiet_step :: "mstore \<Rightarrow> mstore \<Rightarrow> bool" where
  "quiet_step st st' \<longleftrightarrow> db_inv (ms_db st') \<and> db_last_rev (ms_db st') = db_last_rev (ms_db st) \<and>
     ms_notified st' = ms_notified st \<and> ms_broadcasts st' = ms_broadcasts st"

lemma note_chunk_inv: "db_inv db \<Longrightarrow> db_inv (db\<lparr>db_chunks := NoteChunkStored h sz t (db_chunks db)\<rparr>)"
  by (simp add: db_inv_def keys_ok_def refs_ok_def revs_ok_ball NoteChunkStored_def)

lemma register_dir_inv: "db_inv db \<Longrightarrow> db_inv (RegisterDir q w db)"
  using inv_revs(1) [of db] unfolding RegisterDir_def
  by (intro inv_dirs) (auto simp: keys_okD tbl_insert_def dir_default_def)

lemma delete_row_inv: "db_inv db \<Longrightarrow> db_inv (DeleteRow s k db)"
  by (simp add: DeleteRow_def db_inv_def keys_ok_def refs_ok_def revs_ok_ball)

lemma prune_inv:
  assumes inv: "db_inv db" and run: "pruneTombstones_tx cutoff db = Inr (u, db')"
  shows "db_inv db'" "db_last_rev db' = db_last_rev db"
proof -
  let ?old = "filter (\<lambda>t. tb_ts t < cutoff) (db_tombs db)"
  consider "db' = db" | "db' = db\<lparr>db_tombs := tbl_delete (\<lambda>t. tb_ts t < cutoff) (db_tombs db),
      db_pruned_before := max (db_pruned_before db) (max_nat (map tb_rev ?old) + 1)\<rparr>"
    using run by (auto simp: pruneTombstones_tx_def split: if_splits)
  then have "db_inv db' \<and> db_last_rev db' = db_last_rev db"
  proof cases
    case 2
    have "max_nat (map tb_rev ?old) \<le> db_last_rev db"
      by (rule max_nat_le) (use inv_revs(4) [OF inv] in auto)
    with inv show ?thesis by (simp add: 2 db_inv_def keys_ok_def refs_ok_def revs_ok_ball)
  qed (use inv in simp)
  then show "db_inv db'" "db_last_rev db' = db_last_rev db" by blast+
qed

lemma pruneTombstones_quiet:
  assumes inv: "db_inv (ms_db st)"
  shows "quiet_step st (st\<lparr>ms_db := snd (pruneTombstones E c (ms_db st))\<rparr>)"
proof (cases "pruneTombstones_tx c (ms_db st)")
  case (Inl e)
  with inv show ?thesis by (simp add: pruneTombstones_def quiet_step_def)
next
  case (Inr x)
  obtain n b db' where x: "x = ((n, b), db')" by (metis prod.collapse)
  from prune_inv [OF inv Inr [unfolded x]] inv Inr x show ?thesis
    by (simp add: pruneTombstones_def quiet_step_def)
qed

lemma collect_quiet:
  assumes inv: "db_inv (ms_db st)"
  shows "quiet_step st (st\<lparr>ms_db := snd (deleteGCBatch b cs c (ms_db st))\<rparr>)"
proof -
  obtain res db' where run: "deleteGCBatch b cs c (ms_db st) = (res, db')" by fastforce
  note r = deleteGCBatch_inv(1,2) [OF inv run]
  have "db_last_rev db' = db_last_rev (ms_db st)" by (subst r(2)) simp
  with r(1) run show ?thesis by (simp add: quiet_step_def)
qed

lemma apply_mutation_step:
  assumes inv: "db_inv (ms_db st)" and run: "apply_mutation E m st = (res, st')"
  shows "one_step st st' \<or> quiet_step st st'"
proof -
  have quiet: "quiet_step st (on_db f st)" if "db_inv (f (ms_db st))" "db_last_rev (f (ms_db st)) = db_last_rev (ms_db st)" for f
    using that by (simp add: quiet_step_def on_db_def)
  have call: "one_step st st'" if "call_ok st (apply_mutation E m st)" using that run by (simp add: call_ok_def)
  show ?thesis
  proof (cases m)
    case (MNoteChunk h sz t)
    with run show ?thesis using quiet note_chunk_inv [OF inv] by auto
  next
    case (MRegisterDir q w)
    with run show ?thesis using quiet [of "RegisterDir q w"] register_dir_inv [OF inv] by (auto simp: RegisterDir_def)
  next
    case (MDeleteRow s k)
    with run show ?thesis using quiet [of "DeleteRow s k"] delete_row_inv [OF inv] by (auto simp: DeleteRow_def)
  next
    case (MPrune c)
    with run show ?thesis using pruneTombstones_quiet [OF inv, of E c] by (auto split: prod.splits)
  next
    case (MCollect cs c)
    with run show ?thesis using collect_quiet [OF inv, of "e_commit E" cs c] by (auto split: prod.splits)
  next
    case (MPut p n mf s a g)
    with call Put_call [OF inv] show ?thesis by simp
  next
    case (MLink src dst s a g)
    with call Link_call [OF inv] show ?thesis by simp
  next
    case (MDelete p n s a g)
    with call Delete_call [OF inv] show ?thesis by simp
  next
    case (MRename src dst ef et nr s a g)
    with call rename_call [OF inv] show ?thesis by simp
  next
    case (MSetMode p m s a g l)
    with call SetMode_call [OF inv] show ?thesis by simp
  next
    case (MDirCreate p m)
    with run show ?thesis using dir_create.run_one_step [OF inv] by (auto simp: DirCreate_def)
  next
    case (MDirRemove p)
    with run show ?thesis using dir_remove.run_one_step [OF inv] by (auto simp: DirRemove_def)
  next
    case (MSymlink p t m)
    with run show ?thesis using symlink.run_one_step [OF inv] by (auto simp: Symlink_def)
  next
    case (MMknod p m d)
    with run show ?thesis using mknod.run_one_step [OF inv] by (auto simp: Mknod_def)
  next
    case (MSetOwner p u g)
    with run show ?thesis using set_owner.run_one_step [OF inv] by (auto simp: SetOwner_def)
  next
    case (MSetAtime p t)
    with run show ?thesis using set_atime.run_one_step [OF inv] by (auto simp: SetAtime_def)
  qed
qed

lemma store_inv_empty: "store_inv empty_store"
  by (simp add: store_inv_def empty_store_def db_inv_empty) (simp add: empty_db_def)

lemma store_inv_step: "store_inv st \<Longrightarrow> apply_mutation E m st = (res, st') \<Longrightarrow> store_inv st'"
  using apply_mutation_step [of st E m res st'] one_step_inv [of st st'] by (auto simp: store_inv_def quiet_step_def)

lemma reachable_store_inv: "reachable st \<Longrightarrow> store_inv st"
  by (induction rule: reachable.induct) (auto intro: store_inv_empty store_inv_step)

lemma reachable_db_inv: "reachable st \<Longrightarrow> db_inv (ms_db st)"
  using reachable_store_inv by (simp add: store_inv_def)

lemma run_calls_inv: "db_inv (ms_db (run_calls cs empty_store))"
  by (rule reachable_db_inv [OF reachable_run [OF reachable.init]])

lemma failed_call_unchanged:
  assumes inv: "db_inv (ms_db st)" and run: "apply_mutation E m st = (Inl e, st')"
  shows "st' = st"
proof -
  have call: "st' = st" if "call_ok st (apply_mutation E m st)" using that run by (simp add: call_ok_def)
  show ?thesis
  proof (cases m)
    case (MPut p n mf s a g)
    with call Put_call [OF inv] show ?thesis by simp
  next
    case (MLink src dst s a g)
    with call Link_call [OF inv] show ?thesis by simp
  next
    case (MDelete p n s a g)
    with call Delete_call [OF inv] show ?thesis by simp
  next
    case (MRename src dst ef et nr s a g)
    with call rename_call [OF inv] show ?thesis by simp
  next
    case (MSetMode p m s a g l)
    with call SetMode_call [OF inv] show ?thesis by simp
  next
    case (MPrune c)
    with run show ?thesis by (auto simp: pruneTombstones_def split: sum.splits if_splits)
  next
    case (MCollect cs c)
    with run show ?thesis by (auto simp: deleteGCBatch_def split: prod.splits if_splits)
  qed (use run in \<open>auto simp: DirCreate_def DirRemove_def Symlink_def Mknod_def SetOwner_def SetAtime_def
      dest: dir_create.run_error dir_remove.run_error symlink.run_error mknod.run_error set_owner.run_error set_atime.run_error\<close>)
qed

end
