(* ===== verification/Store_Props.thy ===== *)
theory Store_Props
  imports Store_Machine
begin

text \<open>
  What the manifest store promises its callers, over \<open>apply_mutation\<close> and the calls themselves, with a
  concrete history (\<open>demo_calls\<close>) the properties are instantiated at.
\<close>

section \<open>A concrete history\<close>

definition demo_env :: env where
  "demo_env = \<lparr> e_now = 1000, e_now_tomb = 1000, e_commit = True, e_marshal = (\<lambda>_. Some [1]), e_unmarshal = (\<lambda>_. None), e_has_many = None \<rparr>"

definition demo_chunk :: "hash \<Rightarrow> ChunkRef" where
  "demo_chunk h = \<lparr> cr_hash = h, cr_offset = 0, cr_len = 4 \<rparr>"

definition demo_file :: "string \<Rightarrow> ChunkRef list \<Rightarrow> Manifest" where
  "demo_file p cs = \<lparr> m_path = p, m_inode = 0, m_nlink = 0, m_size = 4, m_mode = 420, m_mtime = 7, m_version = 0,
     m_chunks = cs, m_uid = 0, m_gid = 0, m_atime = 0 \<rparr>"

text \<open>A directory, a file in it, a second name of the file, and another file.\<close>

definition demo_calls :: "(env \<times> mutation) list" where
  "demo_calls =
     [(demo_env, MDirCreate ''/d'' 493),
      (demo_env, MPut ''/d/a'' 0 (demo_file ''/d/a'' [demo_chunk 5]) ''s1'' ''al'' ''ag''),
      (demo_env, MLink ''/d/a'' ''/d/b'' ''s1'' ''al'' ''ag''),
      (demo_env, MPut ''/c'' 0 (demo_file ''/c'' [demo_chunk 5, demo_chunk 6]) '''' '''' '''')]"

definition demo_store :: mstore where
  "demo_store = run_calls demo_calls empty_store"

text \<open>The state that history leads to, written out.\<close>

definition demo_blob :: "byte \<Rightarrow> byte list" where
  "demo_blob h = replicate 31 0 @ [h] @ replicate 11 0 @ [4]"

lemma demo_store_code [code]:
  "demo_store =
     \<lparr> ms_db =
         \<lparr> db_chunks = [\<lparr> ck_hash = 5, ck_size = 0, ck_refcount = 2, ck_added_at = 0 \<rparr>,
                         \<lparr> ck_hash = 6, ck_size = 0, ck_refcount = 1, ck_added_at = 0 \<rparr>],
           db_manifests =
             [\<lparr> mf_path = ''/d/a'', mf_inode = 1, mf_size = 4, mf_mode = 420, mf_mtime = 7, mf_version = 1,
                 mf_chunks = demo_blob 5, mf_uid = 0, mf_gid = 0, mf_atime = 7, mf_rev = 3 \<rparr>,
              \<lparr> mf_path = ''/d/b'', mf_inode = 1, mf_size = 4, mf_mode = 420, mf_mtime = 7, mf_version = 1,
                 mf_chunks = demo_blob 5, mf_uid = 0, mf_gid = 0, mf_atime = 7, mf_rev = 3 \<rparr>,
              \<lparr> mf_path = ''/c'', mf_inode = 2, mf_size = 4, mf_mode = 420, mf_mtime = 7, mf_version = 1,
                 mf_chunks = demo_blob 5 @ demo_blob 6, mf_uid = 0, mf_gid = 0, mf_atime = 7, mf_rev = 4 \<rparr>],
           db_dirs =
             [\<lparr> de_parent = ''/'', de_name = ''d'', de_mode = 493, de_mtime = 0, de_uid = 0, de_gid = 0, de_atime = 0, de_rev = 1 \<rparr>,
              \<lparr> de_parent = ''/d'', de_name = ''a'', de_mode = 493, de_mtime = 0, de_uid = 0, de_gid = 0, de_atime = 0, de_rev = 0 \<rparr>,
              \<lparr> de_parent = ''/d'', de_name = ''b'', de_mode = 493, de_mtime = 0, de_uid = 0, de_gid = 0, de_atime = 0, de_rev = 0 \<rparr>,
              \<lparr> de_parent = ''/'', de_name = ''c'', de_mode = 493, de_mtime = 0, de_uid = 0, de_gid = 0, de_atime = 0, de_rev = 0 \<rparr>],
           db_symlinks = [], db_specials = [], db_tombs = [],
           db_journal =
             [\<lparr> j_rowid = 1, j_session = ''s1'', j_seq = 1, j_path = ''/d/a'', j_op = SessionOpCreate, j_before_version = None,
                 j_before_manifest = None, j_rename_from = None, j_ts = 1000, j_after_version = Some 1, j_agent = ''ag'', j_alloc = ''al'' \<rparr>,
              \<lparr> j_rowid = 2, j_session = ''s1'', j_seq = 2, j_path = ''/d/b'', j_op = SessionOpCreate, j_before_version = None,
                 j_before_manifest = None, j_rename_from = None, j_ts = 1000, j_after_version = Some 1, j_agent = ''ag'', j_alloc = ''al'' \<rparr>],
           db_next_inode = 2, db_last_rev = 4, db_pruned_before = 0 \<rparr>,
       ms_broadcasts =
         [\<lparr> je_session = ''s1'', je_alloc = ''al'', je_agent = ''ag'', je_seq = 1, je_path = ''/d/a'', je_op = SessionOpCreate,
             je_before_version = None, je_after_version = Some 1, je_before_manifest = None, je_rename_from = '''', je_ts = 1000 \<rparr>,
          \<lparr> je_session = ''s1'', je_alloc = ''al'', je_agent = ''ag'', je_seq = 2, je_path = ''/d/b'', je_op = SessionOpCreate,
             je_before_version = None, je_after_version = Some 1, je_before_manifest = None, je_rename_from = '''', je_ts = 1000 \<rparr>],
       ms_notified = [1, 2, 3, 4] \<rparr>"
  by code_simp

lemma demo_store_inv: "db_inv (ms_db demo_store)"
  unfolding demo_store_def by (rule run_calls_inv)

section \<open>Every reachable state\<close>

text \<open>
  C1. In every state reachable from an empty store by any sequence of mutating calls (with any clocks,
  arguments and commit failures) the database invariant holds and the change notifier has been rung
  exactly once per revision, in increasing order.
\<close>

theorem reachable_states_ok: "reachable st \<Longrightarrow> db_inv (ms_db st) \<and> ms_notified st = [1..<Suc (db_last_rev (ms_db st))]"
  using reachable_store_inv [of st] by (simp add: store_inv_def)

theorem reachable_states_ok_witness: "db_inv (ms_db demo_store) \<and> ms_notified demo_store = [1, 2, 3, 4]"
proof -
  have "reachable demo_store" unfolding demo_store_def by (rule reachable_run [OF reachable.init])
  from reachable_states_ok [OF this] have "db_inv (ms_db demo_store)" by (rule conjunct1)
  moreover have "ms_notified demo_store = [1, 2, 3, 4]" by code_simp
  ultimately show ?thesis by (rule conjI)
qed

text \<open>
  C2. The reference count of every chunk is exact: in every reachable state the stored count of a hash
  (0 when it has no row) is the number of references the distinct live files hold on it, hard links
  counted once.
\<close>

theorem refcounts_exact: "reachable st \<Longrightarrow> refcount_of (db_chunks (ms_db st)) h = int (live_refs (db_manifests (ms_db st)) h)"
  using db_invD(8) [OF reachable_db_inv] by simp

theorem refcounts_exact_witness:
  "refcount_of (db_chunks (ms_db demo_store)) 5 = 2 \<and> live_refs (db_manifests (ms_db demo_store)) 5 = 2"
proof -
  have "reachable demo_store" unfolding demo_store_def by (rule reachable_run [OF reachable.init])
  note r = refcounts_exact [OF this, of 5]
  have "refcount_of (db_chunks (ms_db demo_store)) 5 = 2" by code_simp
  with r show ?thesis by simp
qed

section \<open>Writing a file\<close>

text \<open>A call that answered \<open>Inr v\<close>, as a pair.\<close>

lemma answered: "fst r = Inr v \<Longrightarrow> r = (Inr v, snd r)"
  by (simp add: prod_eq_iff)

text \<open>
  C3. Read your write, through every name: after a successful Put against version n, the path and every
  hard link of the file read back the written size, mode, mtime and chunk list at version n + 1, which
  is the version the call returned, and n was the stored version.
\<close>

theorem put_then_get:
  assumes "db_inv (ms_db st)" "Put E p n mf s a g st = (Inr v, st')" "q = p \<or> same_file (ms_db st) p q"
  shows "v = Suc n \<and> stored_version (ms_db st) p = n \<and>
    (\<exists>m. Get (ms_db st') q = Inr m \<and> m_path m = q \<and> m_size m = m_size mf \<and> m_mode m = m_mode mf \<and>
       m_mtime m = m_mtime mf \<and> m_version m = v \<and> m_chunks m = m_chunks mf)"
proof -
  obtain r where r: "tbl_get mf_path (db_manifests (ms_db st')) q = Some r" "mf_path r = q" "mf_size r = m_size mf"
    "mf_mode r = m_mode mf" "mf_mtime r = m_mtime mf" "mf_version r = v" "mf_chunks r = packChunks (m_chunks mf)"
    using Put_rows(1) [OF assms(1,2,3)] by blast
  have "Get (ms_db st') q = Inr (row_manifest (ms_db st') r)"
    using r(1) by (simp add: Get_row [OF Put_inv [OF assms(1,2)]])
  moreover have "chunks_of (mf_chunks r) = m_chunks mf" by (simp add: r(7) chunks_of_def)
  ultimately show ?thesis using Put_version [OF assms(1,2)] r by (simp add: row_manifest_def)
qed

theorem put_then_get_witness:
  "\<exists>m. Get (ms_db (snd (Put demo_env ''/d/a'' 1 (demo_file ''/d/a'' [demo_chunk 9]) '''' '''' '''' demo_store))) ''/d/b'' = Inr m \<and>
     m_path m = ''/d/b'' \<and> m_version m = 2 \<and> m_chunks m = [demo_chunk 9]"
proof -
  have run: "fst (Put demo_env ''/d/a'' 1 (demo_file ''/d/a'' [demo_chunk 9]) '''' '''' '''' demo_store) = Inr 2" by code_simp
  have other: "''/d/b'' = ''/d/a'' \<or> same_file (ms_db demo_store) ''/d/a'' ''/d/b''" by code_simp
  from put_then_get [OF demo_store_inv answered [OF run] other] obtain m where
    "Get (ms_db (snd (Put demo_env ''/d/a'' 1 (demo_file ''/d/a'' [demo_chunk 9]) '''' '''' '''' demo_store))) ''/d/b'' = Inr m"
    "m_path m = ''/d/b''" "m_version m = 2" "m_chunks m = m_chunks (demo_file ''/d/a'' [demo_chunk 9])" by blast
  moreover have "m_chunks (demo_file ''/d/a'' [demo_chunk 9]) = [demo_chunk 9]" by (simp add: demo_file_def)
  ultimately show ?thesis by metis
qed

text \<open>
  C4. A write touches one file: after a successful Put every path that is neither the written path nor
  another name of the same file answers Get exactly as before.
\<close>

theorem put_frame:
  assumes "db_inv (ms_db st)" "Put E p n mf s a g st = (Inr v, st')" "q \<noteq> p" "\<not> same_file (ms_db st) p q"
  shows "Get (ms_db st') q = Get (ms_db st) q"
  using assms by (rule Put_get_frame)

theorem put_frame_witness:
  "Get (ms_db (snd (Put demo_env ''/d/a'' 1 (demo_file ''/d/a'' [demo_chunk 9]) '''' '''' '''' demo_store))) ''/c'' = Get (ms_db demo_store) ''/c''"
proof -
  have run: "fst (Put demo_env ''/d/a'' 1 (demo_file ''/d/a'' [demo_chunk 9]) '''' '''' '''' demo_store) = Inr 2" by code_simp
  have other: "\<not> same_file (ms_db demo_store) ''/d/a'' ''/c''" by code_simp
  from put_frame [OF demo_store_inv answered [OF run] _ other] show ?thesis by simp
qed

text \<open>
  C6. Lost updates are refused: when the chunks are present and the parent exists, a Put against any
  version other than the stored one (0 for no file) answers a version conflict that names the stored
  version, and changes nothing.
\<close>

theorem put_conflict:
  assumes "db_inv (ms_db st)" "m_path mf = p" "s = '''' \<or> a \<noteq> ''''" "lockAndValidateChunks E (m_chunks mf) = Inr ()"
    "parent_ok (ms_db st) p" "stored_version (ms_db st) p \<noteq> n"
  shows "Put E p n mf s a g st = (Inl (ErrVersionConflict (Some (stored_version (ms_db st) p))), st)"
proof -
  have "run_store E (Put_tx E p n mf s a g) st = (Inl (ErrVersionConflict (Some (stored_version (ms_db st) p))), st)"
    by (simp add: run_store_def Put_tx_conflict [OF assms(1,5,6)])
  with assms(2-4) show ?thesis by (auto simp: Put_def)
qed

theorem put_conflict_witness:
  "Put demo_env ''/d/a'' 7 (demo_file ''/d/a'' []) ''s1'' ''al'' '''' demo_store = (Inl (ErrVersionConflict (Some 1)), demo_store)"
proof -
  have v: "stored_version (ms_db demo_store) ''/d/a'' = 1" by code_simp
  have p: "parent_ok (ms_db demo_store) ''/d/a''" by code_simp
  have l: "lockAndValidateChunks demo_env (m_chunks (demo_file ''/d/a'' [])) = Inr ()" by code_simp
  show ?thesis
    using put_conflict [OF demo_store_inv _ _ l p, where n = 7 and s = "''s1''" and a = "''al''" and g = "''''"] v
    by (simp add: demo_file_def)
qed

text \<open>
  C7. A write that should succeed does: with the stored version as expected version, the chunks present,
  the parent there, a size that fits the column, an encoder that encodes and a commit that succeeds,
  Put answers the next version.
\<close>

theorem put_succeeds:
  assumes "db_inv (ms_db st)" "m_path mf = p" "s = '''' \<or> a \<noteq> ''''" "lockAndValidateChunks E (m_chunks mf) = Inr ()"
    "parent_ok (ms_db st) p" "stored_version (ms_db st) p = n" "bind_uint64 (m_size mf)" "\<forall>b. e_marshal E b \<noteq> None" "e_commit E"
  shows "\<exists>st'. Put E p n mf s a g st = (Inr (Suc n), st')"
  by (rule Put_defined [OF assms(1-7,9)]) (use assms(8) in \<open>simp_all add: encodeJournalManifest_def\<close>)

theorem put_succeeds_witness:
  "\<exists>st'. Put demo_env ''/d/a'' 1 (demo_file ''/d/a'' []) ''s1'' ''al'' '''' demo_store = (Inr (Suc 1), st')"
proof (rule put_succeeds [OF demo_store_inv])
  show "stored_version (ms_db demo_store) ''/d/a'' = 1" "parent_ok (ms_db demo_store) ''/d/a''"
    "lockAndValidateChunks demo_env (m_chunks (demo_file ''/d/a'' [])) = Inr ()" "bind_uint64 (m_size (demo_file ''/d/a'' []))" by code_simp+
qed (simp_all add: demo_file_def demo_env_def)



section \<open>Names of a file\<close>

text \<open>
  C9. A hard link is another name of the same file: a successful Link needs a free target, raises the
  link count by one for both names, makes the new name read as the old one, and no other file reads
  differently.
\<close>

theorem link_shares_file:
  assumes "db_inv (ms_db st)" "Link E src dst s a g st = (Inr n, st')"
  shows "Get (ms_db st) dst = Inl ErrManifestNotFound \<and>
    (\<exists>m. Get (ms_db st) src = Inr m \<and> n = Suc (m_nlink m) \<and> Get (ms_db st') src = Inr (m\<lparr>m_nlink := n\<rparr>) \<and>
       Get (ms_db st') dst = Inr (m\<lparr>m_path := dst, m_nlink := n\<rparr>)) \<and>
    (\<forall>q. q \<noteq> dst \<and> \<not> same_file (ms_db st) src q \<longrightarrow> Get (ms_db st') q = Get (ms_db st) q)"
  using assms by (rule Link_get) blast

theorem link_shares_file_witness:
  "\<exists>m. Get (ms_db demo_store) ''/c'' = Inr m \<and>
     Get (ms_db (snd (Link demo_env ''/c'' ''/d/e'' '''' '''' '''' demo_store))) ''/d/e'' = Inr (m\<lparr>m_path := ''/d/e'', m_nlink := 2\<rparr>)"
proof -
  have run: "fst (Link demo_env ''/c'' ''/d/e'' '''' '''' '''' demo_store) = Inr 2" by code_simp
  from link_shares_file [OF demo_store_inv answered [OF run]] show ?thesis by blast
qed

text \<open>
  C10. Deleting a name removes that name only: with the stored version given, the path of a regular file
  is gone, its other names survive with a link count one lower and otherwise unchanged, and every other
  file reads as before.
\<close>

theorem delete_removes_name:
  assumes "db_inv (ms_db st)" "Delete E p n s a g st = (Inr u, st')"
    "p \<notin> tbl_keys sn_path (db_specials (ms_db st))" "p \<notin> tbl_keys sl_path (db_symlinks (ms_db st))"
  shows "Get (ms_db st') p = Inl ErrManifestNotFound \<and>
    (\<exists>m. Get (ms_db st) p = Inr m \<and> m_version m = n \<and>
      (\<forall>q mq. q \<noteq> p \<and> same_file (ms_db st) p q \<and> Get (ms_db st) q = Inr mq \<longrightarrow>
         Get (ms_db st') q = Inr (mq\<lparr>m_nlink := m_nlink m - 1\<rparr>))) \<and>
    (\<forall>q. q \<noteq> p \<and> \<not> same_file (ms_db st) p q \<longrightarrow> Get (ms_db st') q = Get (ms_db st) q)"
  using assms by (rule Delete_get) blast

theorem delete_removes_name_witness:
  "Get (ms_db (snd (Delete demo_env ''/d/a'' 1 ''s1'' ''al'' '''' demo_store))) ''/d/a'' = Inl ErrManifestNotFound \<and>
   Get (ms_db (snd (Delete demo_env ''/d/a'' 1 ''s1'' ''al'' '''' demo_store))) ''/c'' = Get (ms_db demo_store) ''/c''"
proof -
  have run: "fst (Delete demo_env ''/d/a'' 1 ''s1'' ''al'' '''' demo_store) = Inr ()" by code_simp
  have kind: "''/d/a'' \<notin> tbl_keys sn_path (db_specials (ms_db demo_store))" "''/d/a'' \<notin> tbl_keys sl_path (db_symlinks (ms_db demo_store))"
    by code_simp+
  have other: "''/c'' \<noteq> ''/d/a'' \<and> \<not> same_file (ms_db demo_store) ''/d/a'' ''/c''" by code_simp
  note d = delete_removes_name [OF demo_store_inv answered [OF run] kind]
  show ?thesis
    by (rule conjI [OF conjunct1 [OF d] mp [OF spec [OF conjunct2 [OF conjunct2 [OF d]]] other]])
qed

section \<open>The journal\<close>

text \<open>
  C11. Reading the journal page by page returns every row exactly once, newest first: a reader that follows
  nextCursor from the empty cursor to the end gets the rows of its scope in full, whatever the page
  size, when row ids are unique and timestamps positive and within 64 bits.
\<close>

theorem journal_pages_complete:
  assumes "journal_stamps_ok db" "a \<noteq> '''' \<or> us \<noteq> []" "length (query_rows a us db) < fuel"
  shows "query_walk E db a lim fuel '''' us = map (scanJournalRow E db) (query_rows a us db)"
  using query_walk_from [OF assms(1,2) cursor_at_start] assms(3) by simp

theorem journal_pages_complete_witness:
  "query_walk demo_env (ms_db demo_store) ''al'' 1 3 '''' [] =
     map (scanJournalRow demo_env (ms_db demo_store)) (query_rows ''al'' [] (ms_db demo_store))"
proof -
  have ok: "journal_stamps_ok (ms_db demo_store)" by code_simp
  have len: "length (query_rows ''al'' [] (ms_db demo_store)) < 3" by code_simp
  show ?thesis by (rule journal_pages_complete [OF ok _ len]) simp
qed

text \<open>
  C12. The cursor token survives its trip through the client: decoding an encoded (timestamp, row id)
  pair gives the pair back, for all 64-bit values.
\<close>

theorem cursor_roundtrip:
  assumes "int64_range ts" "int64_range rid"
  shows "decodeJournalCursor (encodeJournalCursor ts rid) = (ts, rid)"
  using assms by (rule decode_encode_cursor)

theorem cursor_roundtrip_witness: "decodeJournalCursor (encodeJournalCursor (- 1700) 42) = (- 1700, 42)"
  by (rule cursor_roundtrip) (simp_all add: int64_range_def)

text \<open>
  C13. The undo blob of a journal row restores what it saved: decoding the encoded prior manifest returns
  its size, mode, mtime, version and chunk list unchanged (ownership and access time are not saved and
  come back as zero), for any msgpack codec whose decoder inverts its encoder.
\<close>

theorem journal_blob_roundtrip:
  assumes "msgpack_ok E" "encodeJournalManifest E mf = Some blob"
  shows "decodeJournalManifest E p blob =
    Some (mf\<lparr>m_path := p, m_inode := 0, m_nlink := 0, m_uid := 0, m_gid := 0, m_atime := 0\<rparr>)"
  using assms by (rule decode_encode_journal)

text \<open>A codec that encodes one value, and decodes what it encodes.\<close>

definition demo_jblob :: journalManifestBlob where
  "demo_jblob = \<lparr> jb_size = 4, jb_mode = 420, jb_mtime = 7, jb_version = 0, jb_chunks = [] \<rparr>"

definition demo_codec :: env where
  "demo_codec = demo_env\<lparr>e_marshal := (\<lambda>b. if b = demo_jblob then Some [1] else None),
     e_unmarshal := (\<lambda>bs. if bs = [1] then Some demo_jblob else None)\<rparr>"

theorem journal_blob_roundtrip_witness:
  "msgpack_ok demo_codec \<and> decodeJournalManifest demo_codec ''/x'' [1] = Some (demo_file ''/x'' [])"
proof -
  have ok: "msgpack_ok demo_codec" by (simp add: msgpack_ok_def demo_codec_def)
  have enc: "encodeJournalManifest demo_codec (demo_file ''/y'' []) = Some [1]"
    by (simp add: encodeJournalManifest_def demo_codec_def demo_jblob_def demo_file_def)
  from journal_blob_roundtrip [OF ok enc, of "''/x''"] ok show ?thesis by (simp add: demo_file_def)
qed

text \<open>
  C14. Chunk lists are stored without loss, and nothing else decodes: a blob unpacks to a chunk list
  exactly when it is that list's packed form, so every list round-trips and a truncated or padded blob
  is an error.
\<close>

theorem chunk_blob_exact: "unpackChunks blob = Some cs \<longleftrightarrow> blob = packChunks cs"
  using pack_unpack by auto

end
