(* ===== verification/Chunk_Props.thy ===== *)
theory Chunk_Props
  imports Gc
begin

text \<open>
  What the chunk store and the garbage collector promise: batched presence checks answer as single
  lookups do, a stored chunk reads back as the bytes of its hash, and deletes remove what they were
  asked to.
\<close>

section \<open>A concrete store\<close>

definition demo_io :: chunk_io where
  "demo_io = \<lparr> io_now = 0, io_statfs = Some 1000, io_mkdir = True, io_create = True, io_tmp = ''t'', io_chmod = True, io_write = True,
     io_stall = False, io_close = True, io_rename = True, io_lstat = (\<lambda>_. False), io_open = (\<lambda>_. False), io_unlink = (\<lambda>_. False) \<rparr>"

text \<open>A hash function for evaluation: the first byte of the data, repeated.\<close>

definition demo_hash :: "byte list \<Rightarrow> byte list" where
  "demo_hash data = replicate 32 (case data of [] \<Rightarrow> 0 | b # _ \<Rightarrow> b)"

definition demo_disk :: ChunkStore where
  "demo_disk = NewChunkStore ''/srv'' 0 None [] []"

lemma demo_disk_ok: "chunks_ok demo_hash demo_disk"
proof -
  have "canonical (cs_root demo_disk)" by code_simp
  moreover have "cs_files demo_disk = []" by code_simp
  ultimately show ?thesis by (simp add: chunks_ok_def)
qed

definition demo_disk1 :: ChunkStore where
  "demo_disk1 = snd (putUnlocked demo_hash demo_io (demo_hash [7]) [7, 8] demo_disk)"

lemma demo_put: "putUnlocked demo_hash demo_io (demo_hash [7]) [7, 8] demo_disk = (Inr True, demo_disk1)"
proof -
  have "fst (putUnlocked demo_hash demo_io (demo_hash [7]) [7, 8] demo_disk) = Inr True" by code_simp
  then show ?thesis by (simp only: demo_disk1_def prod_eq_iff fst_conv snd_conv)
qed

lemma demo_disk1_ok: "chunks_ok demo_hash demo_disk1"
  by (rule putUnlocked_ok [OF demo_disk_ok demo_put])

section \<open>Presence\<close>

text \<open>
  C15. The batched presence check is an optimisation only: with its serial fast path, grouping by shard,
  collapsing of duplicates and skipping of unwritten shards, HasMany answers exactly what looking at
  each hash alone would, errors included.
\<close>

theorem has_many_is_reference:
  assumes "canonical (cs_root cs)"
  shows "HasMany io cs hashes = has_ref io cs hashes"
  using assms by (rule HasMany_ref)

theorem has_many_is_reference_witness:
  "HasMany demo_io demo_disk1 [demo_hash [7], demo_hash [9], demo_hash [7]] =
     has_ref demo_io demo_disk1 [demo_hash [7], demo_hash [9], demo_hash [7]]"
proof (rule has_many_is_reference)
  show "canonical (cs_root demo_disk1)" using demo_disk1_ok unfolding chunks_ok_def by (rule conjunct1)
qed

section \<open>Content addressing\<close>

text \<open>
  C16. A stored chunk reads back: after Put reports success, whether it wrote the file or found it, Get of
  the hash returns bytes that hash to it, the written bytes when the file is new; and no other hash
  reads differently.
\<close>

theorem chunk_put_get:
  assumes ok: "chunks_ok blake3 cs" and run: "putUnlocked blake3 io h data cs = (Inr new, cs')" and io: "\<forall>p. \<not> io_lstat io' p"
  shows "(\<exists>d. chunk_Get io' cs' h = Inr d \<and> blake3 d = h \<and> (new \<longrightarrow> d = data)) \<and>
    (\<forall>h'. h' \<noteq> h \<longrightarrow> chunk_Get io' cs' h' = chunk_Get io' cs h')"
  using run
proof (cases rule: putUnlocked_cases)
  case (published p)
  have can: "canonical (cs_root cs)" using ok unfolding chunks_ok_def by (rule conjunct1)
  have "chunk_Get io' cs' h' = chunk_Get io' cs h'" if "h' \<noteq> h" for h'
    using Path_inj [OF can _ published(3), of h'] that published(4,5)
    by (auto simp: chunk_Get_def update_conv' split: sum.splits)
  with published io show ?thesis by (auto simp: chunk_Get_def update_conv')
next
  case kept
  from kept(1) have new: "\<not> new" by simp
  with kept(6) obtain p where p: "blake3 data = h" "Path (cs_root cs) h = Inr p" "map_of (cs_files cs) p \<noteq> None" by auto
  then obtain d where d: "map_of (cs_files cs) p = Some (Regular d)" "Path (cs_root cs) (blake3 d) = Inr p"
    using ok unfolding chunks_ok_def by blast
  have can: "canonical (cs_root cs)" using ok unfolding chunks_ok_def by (rule conjunct1)
  have same: "chunk_Get io' cs' h' = chunk_Get io' cs h'" for h' unfolding chunk_Get_def kept(2,3) ..
  have "chunk_Get io' cs h = Inr d" using d(1) p(2) io by (simp add: chunk_Get_def)
  with Path_inj [OF can d(2) p(2)] new show ?thesis unfolding same by blast
qed

theorem chunk_put_get_witness:
  "\<exists>d. chunk_Get demo_io demo_disk1 (demo_hash [7]) = Inr d \<and> demo_hash d = demo_hash [7] \<and> d = [7, 8]"
  using chunk_put_get [OF demo_disk_ok demo_put, of demo_io] by (simp add: demo_io_def)

text \<open>
  C17. The store only ever holds content under its own name: every successful or failed write, and every
  batch delete with any I/O failures, keeps each file the content its path names and each file's shard
  in the presence hint.
\<close>

theorem chunk_store_invariant:
  assumes "chunks_ok blake3 cs" "\<forall>h\<in>set hashes. length h = HashLen"
  shows "chunks_ok blake3 (snd (putUnlocked blake3 io h data cs)) \<and> chunks_ok blake3 (snd (deleteManyUnlocked io hashes cs))"
  using putUnlocked_ok [OF assms(1), of io h data "fst (putUnlocked blake3 io h data cs)"]
    deleteMany_ok(1) [OF assms, of io "fst (deleteManyUnlocked io hashes cs)"] by simp

theorem chunk_store_invariant_witness:
  "chunks_ok demo_hash (snd (deleteManyUnlocked demo_io [demo_hash [7], demo_hash [9]] demo_disk1))"
  using chunk_store_invariant [OF demo_disk1_ok, of "[demo_hash [7], demo_hash [9]]"] by (simp add: demo_hash_def HashLen_def)

text \<open>
  C18. A batch delete is exact: when the shards can be opened, precisely the files of the given hashes
  whose unlink succeeds are gone, and every other file is untouched.
\<close>

theorem delete_many_exact:
  assumes "chunks_ok blake3 cs" "\<forall>h\<in>set hashes. length h = HashLen" "\<forall>s. \<not> io_open io s"
  shows "\<exists>res cs'. deleteManyUnlocked io hashes cs = (Inr res, cs') \<and>
    (\<forall>p. map_of (cs_files cs') p =
      (if (\<exists>h\<in>set hashes. Path (cs_root cs) h = Inr p) \<and> \<not> io_unlink io p then None else map_of (cs_files cs) p))"
  using deleteMany_step [OF assms] by blast

theorem delete_many_exact_witness:
  "\<exists>res cs'. deleteManyUnlocked demo_io [demo_hash [7]] demo_disk1 = (Inr res, cs') \<and>
     (\<forall>p. map_of (cs_files cs') p = (if Path (cs_root demo_disk1) (demo_hash [7]) = Inr p then None else map_of (cs_files demo_disk1) p))"
  using delete_many_exact [OF demo_disk1_ok, of "[demo_hash [7]]" demo_io] by (simp add: demo_hash_def HashLen_def demo_io_def)

end
