(* ===== verification/Tx_Relations.thy ===== *)
theory Tx_Relations
  imports Manifest_Rename
begin

text \<open>
  Facts that hold of every step of a transaction. \<open>tx_rel R m\<close> says that whenever \<open>m\<close> succeeds, the
  databases before and after are related by \<open>R\<close>. For a preorder the relation passes through the ways
  the source composes statements (locale \<open>tx_preorder\<close>), so a whole mutation is covered by its
  single statements. Two preorders are needed: the retention watermark stays where it is
  (\<open>same_mark\<close>), and no file content appears that was not there (\<open>no_new_blobs\<close>).
\<close>

definition tx_rel :: "(tenant_db \<Rightarrow> tenant_db \<Rightarrow> bool) \<Rightarrow> 'a tx \<Rightarrow> bool" where
  "tx_rel R m \<longleftrightarrow> (\<forall>db v db'. m db = Inr (v, db') \<longrightarrow> R db db')"

lemma tx_relD: "tx_rel R m \<Longrightarrow> m db = Inr (v, db') \<Longrightarrow> R db db'"
  by (auto simp: tx_rel_def)

lemma tx_relI: "(\<And>db v db'. m db = Inr (v, db') \<Longrightarrow> R db db') \<Longrightarrow> tx_rel R m"
  by (auto simp: tx_rel_def)

locale tx_preorder =
  fixes R :: "tenant_db \<Rightarrow> tenant_db \<Rightarrow> bool"
  assumes R_refl: "R db db" and R_trans: "R a b \<Longrightarrow> R b c \<Longrightarrow> R a c"
begin

lemma rel_pure: "tx_rel R (tx_return v)" "tx_rel R (tx_fail e)" "tx_rel R (tx_read q)" "tx_rel R (tx_guard b e)" "tx_rel R (tx_lift e x)"
  by (auto simp: tx_rel_def R_refl)

lemma rel_bind: "tx_rel R m \<Longrightarrow> (\<And>v. tx_rel R (f v)) \<Longrightarrow> tx_rel R (tx_bind m f)"
  unfolding tx_rel_def tx_bind_Inr by (blast intro: R_trans)

lemma rel_seq: "tx_rel R m \<Longrightarrow> tx_rel R k \<Longrightarrow> tx_rel R (tx_seq m k)"
  unfolding tx_seq_def by (rule rel_bind)

lemma rel_when: "tx_rel R m \<Longrightarrow> tx_rel R (tx_when b m)"
  by (simp add: tx_when_def rel_pure)

lemma rel_if: "tx_rel R m \<Longrightarrow> tx_rel R k \<Longrightarrow> tx_rel R (if b then m else k)"
  by simp

lemma rel_option: "tx_rel R m \<Longrightarrow> (\<And>v. tx_rel R (f v)) \<Longrightarrow> tx_rel R (case x of None \<Rightarrow> m | Some v \<Rightarrow> f v)"
  by (cases x) simp_all

lemma rel_prod: "(\<And>a b. tx_rel R (f a b)) \<Longrightarrow> tx_rel R (case x of (a, b) \<Rightarrow> f a b)"
  by (cases x) simp

lemma rel_let: "(\<And>v. tx_rel R (f v)) \<Longrightarrow> tx_rel R (let v = x in f v)"
  by simp

lemma rel_kind:
  "tx_rel R a \<Longrightarrow> tx_rel R b \<Longrightarrow> tx_rel R c \<Longrightarrow> tx_rel R d \<Longrightarrow> tx_rel R e \<Longrightarrow>
   tx_rel R (case k of nodeAbsent \<Rightarrow> a | nodeRegular \<Rightarrow> b | nodeSymlink \<Rightarrow> c | nodeSpecial \<Rightarrow> d | nodeDir \<Rightarrow> e)"
  by (cases k) simp_all

lemma rel_exec: "(\<And>db. R db (f db)) \<Longrightarrow> tx_rel R (tx_exec f)"
  by (simp add: tx_rel_def)

lemma rel_try: "(\<And>db db'. f db = Inr db' \<Longrightarrow> R db db') \<Longrightarrow> tx_rel R (tx_try f)"
  by (simp add: tx_rel_def)

lemmas rel_intros = rel_pure rel_seq rel_bind rel_when rel_if rel_option rel_prod rel_let rel_kind rel_exec rel_try

end

section \<open>The watermark\<close>

definition same_mark :: "tenant_db \<Rightarrow> tenant_db \<Rightarrow> bool" where
  "same_mark db db' \<longleftrightarrow> db_pruned_before db' = db_pruned_before db"

interpretation mark: tx_preorder same_mark
  by unfold_locales (simp_all add: same_mark_def)

lemma mark_alloc: "tx_rel same_mark allocChangeRevTx" "tx_rel same_mark allocInodeTx"
  by (auto simp: tx_rel_def allocChangeRevTx_def allocInodeTx_def same_mark_def)

lemmas tx_parts = checkParentExists_def refs_tx_def insert_dir_entry_def removeDirEntryTx_def journal_if_def journalBeforeWrite_def
  appendJournal_def upsertTombstoneTx_def clearTombstoneTx_def clearTombstoneSubtreeTx_def tombstoneSubtreeTx_def
  insert_manifest_new_def insert_dir_new_def insert_symlink_new_def insert_special_new_def delete_alias_tx_def
  put_insert_def put_update_def set_meta_rest_def set_meta_tx_def
  rekey_manifests_def rekey_symlinks_def rekey_specials_def rekey_dirs_def

lemmas mark_simps = same_mark_def restamp_inode_def tomb_all_def

lemma mark_Put: "tx_rel same_mark (Put_tx E p n mf s a g)"
  unfolding Put_tx_def tx_parts
  by (intro mark.rel_intros mark_alloc) (auto simp: mark_simps split: option.splits sum.splits if_splits)

lemma mark_Link: "tx_rel same_mark (Link_tx E src dst s a g)"
  unfolding Link_tx_def tx_parts
  by (intro mark.rel_intros mark_alloc) (auto simp: mark_simps split: option.splits sum.splits if_splits)

lemma mark_Delete: "tx_rel same_mark (Delete_tx E p n s a g)" "tx_rel same_mark (deleteSpecialNode_tx E p)" "tx_rel same_mark (deleteSymlink_tx E p)"
  unfolding Delete_tx_def deleteSpecialNode_tx_def deleteSymlink_tx_def tx_parts
  by (intro mark.rel_intros mark_alloc, auto simp: mark_simps split: option.splits sum.splits if_splits)+

lemma mark_meta:
  "tx_rel same_mark (DirCreate_tx p m)" "tx_rel same_mark (DirRemove_tx E p)" "tx_rel same_mark (Symlink_tx p t m)"
  "tx_rel same_mark (Mknod_tx p m d)" "tx_rel same_mark (SetMode_tx p m)" "tx_rel same_mark (SetOwner_tx p u gid)" "tx_rel same_mark (SetAtime_tx p at)"
  unfolding DirCreate_tx_def DirRemove_tx_def Symlink_tx_def Mknod_tx_def SetMode_tx_def SetOwner_tx_def SetAtime_tx_def tx_parts
  by (intro mark.rel_intros mark_alloc, auto simp: mark_simps split: option.splits sum.splits if_splits)+

lemma mark_rename: "tx_rel same_mark (renameOpt_tx E src dst ef et nr s a g)"
  unfolding renameOpt_tx_def rename_apply_def resolveRenameDestTx_def deleteDestTx_def moveRenameSourceTx_def reparentDescendantsTx_def
    rewriteRenameDirEntriesTx_def readRenameSourceTx_def journalRenameTx_def tx_parts
  by (intro mark.rel_intros mark_alloc) (auto simp: mark_simps split: option.splits sum.splits if_splits)

section \<open>File contents\<close>

text \<open>Every chunk list after the step was some file's chunk list before it.\<close>

definition no_new_blobs :: "tenant_db \<Rightarrow> tenant_db \<Rightarrow> bool" where
  "no_new_blobs db db' \<longleftrightarrow> mf_chunks ` set (db_manifests db') \<subseteq> mf_chunks ` set (db_manifests db)"

interpretation blobs: tx_preorder no_new_blobs
  by unfold_locales (auto simp: no_new_blobs_def)

lemma blobs_alloc: "tx_rel no_new_blobs allocChangeRevTx" "tx_rel no_new_blobs allocInodeTx"
  by (auto simp: tx_rel_def allocChangeRevTx_def allocInodeTx_def no_new_blobs_def)

lemma blobs_update: "(\<And>r. mf_chunks (f r) = mf_chunks r) \<Longrightarrow> mf_chunks ` set (tbl_update P f rows) = mf_chunks ` set rows"
  by (metis list.set_map tbl_keys_update)

lemma blobs_rekey: "(\<And>r. mf_chunks (f r) = mf_chunks r) \<Longrightarrow> tx_rel no_new_blobs (rekey_manifests P f)"
  unfolding rekey_manifests_def
  by (rule blobs.rel_try) (auto simp: no_new_blobs_def blobs_update dest!: tbl_rekey_rows split: sum.splits)

lemmas blob_simps = no_new_blobs_def restamp_inode_def tomb_all_def blobs_update

lemma blobs_Delete:
  "tx_rel no_new_blobs (Delete_tx E p n s a g)" "tx_rel no_new_blobs (deleteSpecialNode_tx E p)" "tx_rel no_new_blobs (deleteSymlink_tx E p)"
  unfolding Delete_tx_def deleteSpecialNode_tx_def deleteSymlink_tx_def tx_parts
  by (intro blobs.rel_intros blobs_alloc, auto simp: blob_simps split: option.splits sum.splits if_splits)+

lemma blobs_meta:
  "tx_rel no_new_blobs (DirCreate_tx p m)" "tx_rel no_new_blobs (DirRemove_tx E p)" "tx_rel no_new_blobs (Symlink_tx p t m)"
  "tx_rel no_new_blobs (Mknod_tx p m d)" "tx_rel no_new_blobs (SetMode_tx p m)" "tx_rel no_new_blobs (SetOwner_tx p u gid)"
  "tx_rel no_new_blobs (SetAtime_tx p at)"
  unfolding DirCreate_tx_def DirRemove_tx_def Symlink_tx_def Mknod_tx_def SetMode_tx_def SetOwner_tx_def SetAtime_tx_def tx_parts
  by (intro blobs.rel_intros blobs_alloc, auto simp: blob_simps split: option.splits sum.splits if_splits)+

lemma blobs_rename: "tx_rel no_new_blobs (renameOpt_tx E src dst ef et nr s a g)"
  unfolding renameOpt_tx_def rename_apply_def resolveRenameDestTx_def deleteDestTx_def moveRenameSourceTx_def reparentDescendantsTx_def
    rewriteRenameDirEntriesTx_def readRenameSourceTx_def journalRenameTx_def
  unfolding checkParentExists_def refs_tx_def removeDirEntryTx_def insert_dir_entry_def journalBeforeWrite_def
    appendJournal_def upsertTombstoneTx_def clearTombstoneTx_def clearTombstoneSubtreeTx_def tombstoneSubtreeTx_def
    rekey_symlinks_def rekey_specials_def rekey_dirs_def
  by (intro blobs_rekey blobs.rel_intros blobs_alloc) (auto simp: blob_simps split: option.splits sum.splits if_splits)

lemma blobs_Link: "tx_rel no_new_blobs (Link_tx E src dst s a g)"
proof (rule tx_relI)
  fix db v db'
  assume "Link_tx E src dst s a g db = Inr (v, db')"
  then obtain x rv where x: "tbl_get mf_path (db_manifests db) src = Some x"
    and rows: "db_manifests db' = stamp_inode rv (mf_inode x) (db_manifests db @ [x\<lparr>mf_path := dst, mf_rev := rv\<rparr>])"
    by (auto elim!: Link_Commit)
  from x have "x \<in> set (db_manifests db)" by (auto dest: tbl_get_SomeD)
  then show "no_new_blobs db db'" unfolding no_new_blobs_def rows by (simp add: blobs_update del: set_tbl_update)
qed

lemma blobs_Put:
  assumes "Put_tx E p n mf s a g db = Inr (v, db')"
  shows "mf_chunks ` set (db_manifests db') \<subseteq> insert (packChunks (m_chunks mf)) (mf_chunks ` set (db_manifests db))"
proof (cases "n = 0")
  case True
  with assms show ?thesis by (auto elim!: Put_insert_Commit simp: new_manifest_row_def)
next
  case False
  with assms show ?thesis by (auto elim!: Put_update_Commit simp: rewrite_manifest_row_def)
qed

end
