(* ===== verification/Tenant_Server.thy ===== *)
theory Tenant_Server
  imports Store_Props Chunk_Props Tx_Relations
begin

text \<open>
  One tenant of the server: its manifest store and its chunk store together, as the data plane and the
  collector use them. A manifest write checks its chunks against the disk under their locks
  (\<open>disk_has\<close> is what \<^verbatim>\<open>lockAndValidateChunks\<close> asks), \<open>putChunk\<close> stores bytes unless the tenant is gone,
  and the collector deletes rows before files. The theory shows that in every reachable state each
  chunk a live file refers to is on disk with the right content.
\<close>

section \<open>State and steps\<close>

record tenantState =
  ts_store :: mstore
  ts_chunks :: ChunkStore
  ts_closed :: bool

definition disk_has :: "chunk_io \<Rightarrow> ChunkStore \<Rightarrow> hash list \<Rightarrow> bool list option" where
  "disk_has io cs hs =
     (case HasMany io cs (map (be_put HashLen) hs) of Inl _ \<Rightarrow> None | Inr present \<Rightarrow> Some present)"

text \<open>\<^verbatim>\<open>tenantState.putChunk\<close>; None is \<^verbatim>\<open>errTenantGone\<close>.\<close>

definition putChunk ::
  "(byte list \<Rightarrow> byte list) \<Rightarrow> chunk_io \<Rightarrow> byte list \<Rightarrow> byte list \<Rightarrow> tenantState \<Rightarrow> (chunk_error + bool) option \<times> tenantState" where
  "putChunk blake3 io hash data t =
     (if ts_closed t then (None, t)
      else let (r, cs) = chunk_Put blake3 io hash data (ts_chunks t) in (Some r, t\<lparr>ts_chunks := cs\<rparr>))"

definition markClosed :: "tenantState \<Rightarrow> tenantState" where
  "markClosed t = t\<lparr>ts_closed := True\<rparr>"

definition maxChunkBytes :: int where "maxChunkBytes = 20 * 2 ^ 20"

datatype chunk_reply = TooLarge | TenantGone | ChunkFailed chunk_error | Stored bool

text \<open>
  \<^verbatim>\<open>handleChunkPut\<close> past its decoding: the bytes, then the refcount-0 row, whether or not the chunk was
  new. \<open>noted\<close> says whether that statement succeeds; its failure is only logged.
\<close>

definition handleChunkPut ::
  "(byte list \<Rightarrow> byte list) \<Rightarrow> chunk_io \<Rightarrow> bool \<Rightarrow> int \<Rightarrow> byte list \<Rightarrow> byte list \<Rightarrow> tenantState \<Rightarrow> chunk_reply \<times> tenantState" where
  "handleChunkPut blake3 io noted now hash data t =
     (if maxChunkBytes < int (length data) then (TooLarge, t)
      else case putChunk blake3 io hash data t of
             (None, t1) \<Rightarrow> (TenantGone, t1)
           | (Some (Inl e), t1) \<Rightarrow> (ChunkFailed e, t1)
           | (Some (Inr stored), t1) \<Rightarrow>
               (Stored stored,
                if noted then t1\<lparr>ts_store := on_db (\<lambda>db. db\<lparr>db_chunks := NoteChunkStored (be_get hash) (int (length data)) now (db_chunks db)\<rparr>) (ts_store t1)\<rparr>
                else t1))"

datatype tenant_event =
    TMutate env chunk_io mutation
  | TChunkPut chunk_io bool int "byte list" "byte list"
  | TCollect gc_turn int "gcCandidate list"
  | TClose

definition is_collect :: "mutation \<Rightarrow> bool" where
  "is_collect m = (case m of MCollect _ _ \<Rightarrow> True | _ \<Rightarrow> False)"

text \<open>
  A step of the tenant. Collection happens through \<open>gc_batch\<close>, which also unlinks; every other
  mutation runs with the disk behind its chunk check.
\<close>

fun tenant_step :: "(byte list \<Rightarrow> byte list) \<Rightarrow> tenant_event \<Rightarrow> tenantState \<Rightarrow> tenantState" where
  "tenant_step blake3 (TMutate E io m) t =
     (if is_collect m then t
      else t\<lparr>ts_store := snd (apply_mutation (E\<lparr>e_has_many := Some (disk_has io (ts_chunks t))\<rparr>) m (ts_store t))\<rparr>)"
| "tenant_step blake3 (TChunkPut io noted now hash data) t = snd (handleChunkPut blake3 io noted now hash data t)"
| "tenant_step blake3 (TCollect turn cutoff cands) t =
     (let g = snd (gc_batch turn cutoff cands \<lparr> gs_db = ms_db (ts_store t), gs_chunks = ts_chunks t \<rparr>)
      in t\<lparr>ts_store := (ts_store t)\<lparr>ms_db := gs_db g\<rparr>, ts_chunks := gs_chunks g\<rparr>)"
| "tenant_step blake3 TClose t = markClosed t"

section \<open>What is on disk\<close>

definition on_disk :: "ChunkStore \<Rightarrow> hash \<Rightarrow> bool" where
  "on_disk cs h \<longleftrightarrow> (\<exists>p d. Path (cs_root cs) (be_put HashLen h) = Inr p \<and> map_of (cs_files cs) p = Some (Regular d))"

definition no_dangling :: "tenant_db \<Rightarrow> ChunkStore \<Rightarrow> bool" where
  "no_dangling db cs \<longleftrightarrow> (\<forall>r\<in>set (db_manifests db). \<forall>c\<in>set (chunks_of (mf_chunks r)). on_disk cs (cr_hash c))"

definition tenant_ok :: "(byte list \<Rightarrow> byte list) \<Rightarrow> tenantState \<Rightarrow> bool" where
  "tenant_ok blake3 t \<longleftrightarrow> db_inv (ms_db (ts_store t)) \<and> chunks_ok blake3 (ts_chunks t) \<and> no_dangling (ms_db (ts_store t)) (ts_chunks t)"

lemma has_ref_nth:
  assumes can: "canonical (cs_root cs)" and ref: "has_ref io cs hashes = Inr bs" and i: "i < length hashes" "bs ! i"
  shows "\<exists>p d. Path (cs_root cs) (hashes ! i) = Inr p \<and> map_of (cs_files cs) p = Some (Regular d)"
proof -
  let ?h = "hashes ! i"
  have len: "\<forall>h\<in>set hashes. length h = HashLen" using ref by (auto simp: has_ref_def split: if_splits)
  then have h: "length ?h = HashLen" using i(1) by simp
  then obtain p where p: "Path (cs_root cs) ?h = Inr p" by (auto simp: Path_def Let_def)
  have "bs = map (\<lambda>h. fst (has_one io cs h)) hashes" using ref by (auto simp: has_ref_def split: if_splits list.splits)
  with i have one: "fst (has_one io cs ?h)" by simp
  then have known: "hd ?h \<in> set (cs_known cs)" by (auto simp: has_one_def split: if_splits)
  from one show ?thesis unfolding has_one_lookup [OF can h known p]
    using p by (auto split: if_splits option.splits chunk_node.splits)
qed

lemma disk_has_sound:
  assumes can: "canonical (cs_root cs)" and has: "disk_has io cs hs = Some bs"
  shows "length bs = length hs" "i < length hs \<Longrightarrow> bs ! i \<Longrightarrow> on_disk cs (hs ! i)"
proof -
  have ref: "has_ref io cs (map (be_put HashLen) hs) = Inr bs"
    using has HasMany_ref [OF can] by (auto simp: disk_has_def split: sum.splits)
  then show "length bs = length hs" by (auto simp: has_ref_def split: if_splits list.splits)
  assume "i < length hs" "bs ! i"
  with has_ref_nth [OF can ref, of i] show "on_disk cs (hs ! i)" by (simp add: on_disk_def)
qed

lemma validated_on_disk:
  assumes can: "canonical (cs_root cs)" and ok: "lockAndValidateChunks (E\<lparr>e_has_many := Some (disk_has io cs)\<rparr>) chunks = Inr ()"
    and c: "c \<in> set chunks"
  shows "on_disk cs (cr_hash c)"
proof -
  let ?hs = "map cr_hash chunks"
  from ok c obtain bs where bs: "disk_has io cs ?hs = Some bs" "find (\<lambda>hp. \<not> snd hp) (zip ?hs bs) = None"
    by (auto simp: lockAndValidateChunks_def Let_def split: option.splits if_splits)
  obtain i where i: "i < length chunks" "chunks ! i = c" using c by (auto simp: in_set_conv_nth)
  have len: "length bs = length ?hs" using disk_has_sound(1) [OF can bs(1)] .
  have "(?hs ! i, bs ! i) \<in> set (zip ?hs bs)" using i len by (auto simp: in_set_zip intro!: exI [of _ i])
  with bs(2) have "bs ! i" by (auto simp: find_None_iff)
  with disk_has_sound(2) [OF can bs(1), of i] i show ?thesis by simp
qed

section \<open>Every step keeps it\<close>

lemma no_dangling_mono:
  assumes "no_dangling db cs" "mf_chunks ` set (db_manifests db') \<subseteq> mf_chunks ` set (db_manifests db)"
  shows "no_dangling db' cs"
  unfolding no_dangling_def
proof (intro ballI)
  fix r c assume r: "r \<in> set (db_manifests db')" and c: "c \<in> set (chunks_of (mf_chunks r))"
  have "mf_chunks r \<in> mf_chunks ` set (db_manifests db)" by (rule subsetD [OF assms(2) imageI [OF r]])
  then obtain r0 where "r0 \<in> set (db_manifests db)" "mf_chunks r = mf_chunks r0" by (rule imageE)
  with assms(1) c show "on_disk cs (cr_hash c)" by (simp add: no_dangling_def)
qed

lemma run_store_blobs:
  assumes "tx_rel no_new_blobs m" "no_dangling (ms_db st) cs"
  shows "no_dangling (ms_db (snd (run_store E m st))) cs"
proof -
  obtain res st' where run: "run_store E m st = (res, st')" by fastforce
  have "ms_db st' = ms_db st \<or> (\<exists>v. m (ms_db st) = Inr (v, ms_db st'))"
    using run by (auto simp: run_store_def notifyChange_def broadcast_def split: sum.splits outcome.splits if_splits option.splits)
  then show ?thesis
  proof
    assume "\<exists>v. m (ms_db st) = Inr (v, ms_db st')"
    then have "no_new_blobs (ms_db st) (ms_db st')" using tx_relD [OF assms(1)] by blast
    then show ?thesis using no_dangling_mono [OF assms(2)] run by (simp add: no_new_blobs_def)
  qed (use run assms(2) in simp)
qed

lemma Put_dangling:
  assumes can: "canonical (cs_root cs)" and nd: "no_dangling (ms_db st) cs" and E: "e_has_many E = Some (disk_has io cs)"
  shows "no_dangling (ms_db (snd (Put E p n mf s a g st))) cs"
proof (cases "fst (Put E p n mf s a g st)")
  case (Inl e)
  then have "snd (Put E p n mf s a g st) = st"
    by (auto simp: Put_def run_store_def split: sum.splits outcome.splits if_splits)
  with nd show ?thesis by simp
next
  case (Inr v)
  let ?st' = "snd (Put E p n mf s a g st)"
  from Inr have run: "Put E p n mf s a g st = (Inr v, ?st')" by (simp add: prod_eq_iff)
  then obtain je rv where tx: "Put_tx E p n mf s a g (ms_db st) = Inr (Commit v je rv, ms_db ?st')" by (rule Put_Inr)
  have valid: "lockAndValidateChunks (E\<lparr>e_has_many := Some (disk_has io cs)\<rparr>) (m_chunks mf) = Inr ()"
    using run E [symmetric] by (auto simp: Put_def split: if_splits sum.splits)
  show ?thesis
    unfolding no_dangling_def
  proof (intro ballI)
    fix r c assume r: "r \<in> set (db_manifests (ms_db ?st'))" and c: "c \<in> set (chunks_of (mf_chunks r))"
    from r blobs_Put [OF tx] consider "mf_chunks r = packChunks (m_chunks mf)" | "mf_chunks r \<in> mf_chunks ` set (db_manifests (ms_db st))" by blast
    then show "on_disk cs (cr_hash c)"
    proof cases
      case 1
      with c have "c \<in> set (m_chunks mf)" by (simp add: chunks_of_def)
      then show ?thesis by (rule validated_on_disk [OF can valid])
    next
      case 2
      with c nd show ?thesis unfolding no_dangling_def by force
    qed
  qed
qed

lemma SetMode_dangling:
  assumes can: "canonical (cs_root cs)" and nd: "no_dangling (ms_db st) cs" and E: "e_has_many E = Some (disk_has io cs)"
  shows "no_dangling (ms_db (snd (SetMode E p m s a g l st))) cs"
proof (cases "Get (ms_db st) p")
  case (Inl e)
  with nd run_store_blobs [OF blobs_meta(5) nd] show ?thesis by (auto simp: SetMode_def Let_def)
next
  case (Inr mf)
  let ?mf = "mf\<lparr>m_mode := m AND perm_mask\<rparr>"
  have put: "no_dangling (ms_db (snd (PutWithLeaseCheck E p (m_version mf) ?mf s a g l st))) cs"
    using nd Put_dangling [OF can nd E] by (simp add: PutWithLeaseCheck_def split: sum.splits)
  obtain r st1 where "PutWithLeaseCheck E p (m_version mf) ?mf s a g l st = (r, st1)" by fastforce
  with Inr put show ?thesis by (cases r) (simp_all add: SetMode_def Let_def)
qed

lemma Delete_dangling: "no_dangling (ms_db st) cs \<Longrightarrow> no_dangling (ms_db (snd (Delete E p n s a g st))) cs"
proof -
  assume nd: "no_dangling (ms_db st) cs"
  obtain r1 st1 where 1: "run_store E (deleteSpecialNode_tx E p) st = (r1, st1)" by fastforce
  obtain r2 st2 where 2: "run_store E (deleteSymlink_tx E p) st1 = (r2, st2)" by fastforce
  have nd1: "no_dangling (ms_db st1) cs" using run_store_blobs [OF blobs_Delete(2) nd, of E E p] 1 by simp
  have nd2: "no_dangling (ms_db st2) cs" using run_store_blobs [OF blobs_Delete(3) nd1, of E E p] 2 by simp
  note nd3 = run_store_blobs [OF blobs_Delete(1) nd2, of E E p n s a g]
  from nd nd1 nd2 nd3 1 2 show ?thesis by (cases r1; cases r2) (auto simp: Delete_def)
qed

lemma mutate_dangling:
  assumes can: "canonical (cs_root cs)" and nd: "no_dangling (ms_db st) cs" and E: "e_has_many E = Some (disk_has io cs)"
  shows "no_dangling (ms_db (snd (apply_mutation E m st))) cs"
proof (cases m)
  case (MPut p n mf s a g)
  with Put_dangling [OF assms] show ?thesis by (simp add: drop_result_def)
next
  case (MSetMode p m s a g l)
  with SetMode_dangling [OF assms] show ?thesis by simp
next
  case (MDelete p n s a g)
  with Delete_dangling [OF nd] show ?thesis by simp
next
  case (MLink src dst s a g)
  with nd run_store_blobs [OF blobs_Link nd] show ?thesis by (simp add: drop_result_def Link_def)
next
  case (MRename src dst ef et nr s a g)
  with nd run_store_blobs [OF blobs_rename nd] show ?thesis by (simp add: drop_result_def renameOpt_def)
next
  case (MPrune c)
  have "db_manifests (snd (pruneTombstones E c db)) = db_manifests db" for db
    by (auto simp: pruneTombstones_def pruneTombstones_tx_def split: sum.splits prod.splits if_splits)
  with nd MPrune show ?thesis by (simp add: no_dangling_def split: prod.splits) (metis snd_conv)
next
  case (MCollect cands c)
  have "db_manifests (snd (deleteGCBatch b cands c db)) = db_manifests db" for b db
    by (simp add: deleteGCBatch_def split: prod.splits)
  with nd MCollect show ?thesis by (simp add: no_dangling_def split: prod.splits) (metis snd_conv)
qed (use nd run_store_blobs [OF blobs_meta(1) nd] run_store_blobs [OF blobs_meta(2) nd] run_store_blobs [OF blobs_meta(3) nd]
      run_store_blobs [OF blobs_meta(4) nd] run_store_blobs [OF blobs_meta(6) nd] run_store_blobs [OF blobs_meta(7) nd] in
      \<open>simp_all add: DirCreate_def DirRemove_def Symlink_def Mknod_def SetOwner_def SetAtime_def on_db_def no_dangling_def RegisterDir_def DeleteRow_def\<close>)

lemma on_disk_kept:
  assumes "cs_root cs' = cs_root cs" "on_disk cs h"
    "\<And>p. Path (cs_root cs) (be_put HashLen h) = Inr p \<Longrightarrow> map_of (cs_files cs) p \<noteq> None \<Longrightarrow>
       map_of (cs_files cs') p = map_of (cs_files cs) p \<or> (\<exists>d. map_of (cs_files cs') p = Some (Regular d))"
  shows "on_disk cs' h"
  using assms unfolding on_disk_def by fastforce

lemma put_on_disk:
  assumes "putUnlocked blake3 io hash data cs = (res, cs')" "on_disk cs h"
  shows "on_disk cs' h"
  using assms(1)
proof (cases rule: putUnlocked_cases)
  case (published p)
  show ?thesis by (rule on_disk_kept [OF published(5) assms(2)]) (simp add: published(4) update_conv')
next
  case kept
  show ?thesis by (rule on_disk_kept [OF kept(3) assms(2)]) (simp add: kept(2))
qed

lemma be_put_inj: "be_put HashLen h = be_put HashLen h' \<Longrightarrow> h = (h' :: hash)"
proof -
  have dec: "be_get (be_put HashLen v) = v" for v :: hash by (rule be_get_put) (simp add: HashLen_def)
  assume "be_put HashLen h = be_put HashLen h'"
  then have "be_get (be_put HashLen h) = (be_get (be_put HashLen h') :: hash)" by simp
  then show "h = h'" by (simp only: dec)
qed

lemma gc_batch_ok:
  assumes inv: "db_inv db" and ok: "chunks_ok blake3 cs" and nd: "no_dangling db cs"
    and run: "gc_batch turn cutoff cands \<lparr> gs_db = db, gs_chunks = cs \<rparr> = (res, t)"
  shows "db_inv (gs_db t) \<and> chunks_ok blake3 (gs_chunks t) \<and> no_dangling (gs_db t) (gs_chunks t)"
proof -
  obtain res1 db' where del: "deleteGCBatch (gt_commit turn) cands cutoff db = (res1, db')" by fastforce
  note inv' = deleteGCBatch_inv(1) [OF inv del]
  have same: "db_manifests db' = db_manifests db" by (subst deleteGCBatch_inv(2) [OF inv del]) simp
  consider "t = \<lparr> gs_db = db, gs_chunks = cs \<rparr>" | "t = \<lparr> gs_db = db', gs_chunks = cs \<rparr>"
    | deleted freed where "res1 = Inr (deleted, freed)"
        "t = \<lparr> gs_db = db', gs_chunks = snd (deleteManyUnlocked (gt_io turn) (candidate_hashes deleted) cs) \<rparr>"
    using run del by (auto simp: gc_batch_def split: sum.splits)
  then show ?thesis
  proof cases
    case (3 deleted freed)
    obtain r cs' where dm: "deleteManyUnlocked (gt_io turn) (candidate_hashes deleted) cs = (r, cs')" by fastforce
    have len: "\<forall>h\<in>set (candidate_hashes deleted). length h = HashLen" by (auto simp: candidate_hashes_def)
    note d = deleteMany_ok [OF ok len dm]
    have "on_disk cs' (cr_hash c)" if r: "r \<in> set (db_manifests db)" "c \<in> set (chunks_of (mf_chunks r))" for r c
    proof (rule on_disk_kept [OF d(2)])
      show "on_disk cs (cr_hash c)" using nd r unfolding no_dangling_def by blast
      fix p assume p: "Path (cs_root cs) (be_put HashLen (cr_hash c)) = Inr p"
      show "map_of (cs_files cs') p = map_of (cs_files cs) p \<or> (\<exists>d. map_of (cs_files cs') p = Some (Regular d))"
      proof (rule ccontr)
        assume "\<not> ?thesis"
        then have "map_of (cs_files cs') p \<noteq> map_of (cs_files cs) p" by blast
        then obtain g where g: "g \<in> set deleted" "Path (cs_root cs) (be_put HashLen (gc_hash g)) = Inr p"
          using d(3) by (auto simp: candidate_hashes_def)
        have can: "canonical (cs_root cs)" using ok unfolding chunks_ok_def by (rule conjunct1)
        have h: "gc_hash g = cr_hash c" using Path_inj [OF can g(2) p] by (rule be_put_inj)
        have "live_refs (db_manifests db) (gc_hash g) = 0" using deleteGCBatch_inv(3) [OF inv del 3(1) g(1)] same by simp
        with live_refs_mono [OF r(1), of "gc_hash g"] r(2) h show False by (auto simp: refs_def filter_empty_conv)
      qed
    qed
    with 3 inv' d(1) dm same show ?thesis by (simp add: no_dangling_def)
  qed (use inv inv' ok nd same in \<open>simp_all add: no_dangling_def\<close>)
qed

lemma chunk_put_tenant:
  assumes ok: "tenant_ok blake3 t" and run: "handleChunkPut blake3 io noted now hash data t = (r, t')"
  shows "tenant_ok blake3 t'"
proof -
  obtain res cs' where put: "chunk_Put blake3 io hash data (ts_chunks t) = (res, cs')" by fastforce
  consider "t' = t" | "t' = t\<lparr>ts_chunks := cs'\<rparr>"
    | "t' = t\<lparr>ts_chunks := cs', ts_store := on_db (\<lambda>db. db\<lparr>db_chunks := NoteChunkStored (be_get hash) (int (length data)) now (db_chunks db)\<rparr>) (ts_store t)\<rparr>"
    using run put by (auto simp: handleChunkPut_def putChunk_def split: if_splits sum.splits)
  moreover have "chunks_ok blake3 cs' \<and> no_dangling (ms_db (ts_store t)) cs'"
  proof (cases "lockHashes [hash]")
    case (Inl e)
    with put ok show ?thesis by (simp add: chunk_Put_def tenant_ok_def)
  next
    case (Inr held)
    then have "putUnlocked blake3 io hash data (ts_chunks t) = (res, cs')" using put by (simp add: chunk_Put_def)
    with putUnlocked_ok put_on_disk ok show ?thesis unfolding tenant_ok_def no_dangling_def by blast
  qed
  ultimately show ?thesis using ok
    by cases (auto simp: tenant_ok_def on_db_def no_dangling_def note_chunk_inv)
qed

lemma tenant_step_ok:
  assumes ok: "tenant_ok blake3 t"
  shows "tenant_ok blake3 (tenant_step blake3 e t)"
proof (cases e)
  case (TMutate E io m)
  let ?E = "E\<lparr>e_has_many := Some (disk_has io (ts_chunks t))\<rparr>"
  have can: "canonical (cs_root (ts_chunks t))" using ok unfolding tenant_ok_def chunks_ok_def by blast
  have "no_dangling (ms_db (snd (apply_mutation ?E m (ts_store t)))) (ts_chunks t)"
    by (rule mutate_dangling [OF can, where io = io]) (use ok in \<open>simp_all add: tenant_ok_def\<close>)
  moreover have "db_inv (ms_db (snd (apply_mutation ?E m (ts_store t))))"
    using apply_mutation_step [of "ts_store t" ?E m, OF _ prod.collapse [symmetric]] ok
    by (auto simp: tenant_ok_def one_step_def quiet_step_def)
  ultimately show ?thesis using ok TMutate by (simp add: tenant_ok_def)
next
  case (TChunkPut io noted now hash data)
  with chunk_put_tenant [OF ok] show ?thesis by (metis prod.collapse tenant_step.simps(2))
next
  case (TCollect turn cutoff cands)
  obtain res g where g: "gc_batch turn cutoff cands \<lparr> gs_db = ms_db (ts_store t), gs_chunks = ts_chunks t \<rparr> = (res, g)" by fastforce
  have "db_inv (gs_db g) \<and> chunks_ok blake3 (gs_chunks g) \<and> no_dangling (gs_db g) (gs_chunks g)"
    by (rule gc_batch_ok [OF _ _ _ g]) (use ok in \<open>simp_all add: tenant_ok_def\<close>)
  with g TCollect show ?thesis by (simp add: tenant_ok_def Let_def)
next
  case TClose
  with ok show ?thesis by (simp add: tenant_ok_def markClosed_def)
qed

definition fresh_tenant :: "ChunkStore \<Rightarrow> tenantState" where
  "fresh_tenant cs = \<lparr> ts_store = empty_store, ts_chunks = cs, ts_closed = False \<rparr>"

definition run_tenant :: "(byte list \<Rightarrow> byte list) \<Rightarrow> tenant_event list \<Rightarrow> tenantState \<Rightarrow> tenantState" where
  "run_tenant blake3 es t = fold (tenant_step blake3) es t"

lemma run_tenant_ok: "tenant_ok blake3 t \<Longrightarrow> tenant_ok blake3 (run_tenant blake3 es t)"
  by (induction es arbitrary: t) (simp_all add: run_tenant_def tenant_step_ok)

lemma fresh_tenant_ok: "chunks_ok blake3 cs \<Longrightarrow> tenant_ok blake3 (fresh_tenant cs)"
  using db_inv_empty by (simp add: tenant_ok_def fresh_tenant_def empty_store_def no_dangling_def) (simp add: empty_db_def)

section \<open>Properties\<close>

text \<open>
  C19. No file loses its data: after any interleaving of manifest calls, chunk uploads (with any disk
  failures), garbage-collection batches (with any candidate lists, cutoffs and failures) and tenant
  removal, every chunk of every manifest Get returns can be read from the chunk store, and its bytes
  hash to the name the manifest gives.
\<close>

theorem live_chunks_readable:
  assumes "chunks_ok blake3 cs" "t = run_tenant blake3 es (fresh_tenant cs)" "Get (ms_db (ts_store t)) p = Inr m"
    "c \<in> set (m_chunks m)" "\<forall>q. \<not> io_lstat io q"
  shows "\<exists>d. chunk_Get io (ts_chunks t) (be_put HashLen (cr_hash c)) = Inr d \<and> blake3 d = be_put HashLen (cr_hash c)"
proof -
  have ok: "tenant_ok blake3 t" unfolding assms(2) by (rule run_tenant_ok [OF fresh_tenant_ok [OF assms(1)]])
  then have inv: "db_inv (ms_db (ts_store t))" and cok: "chunks_ok blake3 (ts_chunks t)" by (simp_all add: tenant_ok_def)
  from assms(3) obtain r where r: "tbl_get mf_path (db_manifests (ms_db (ts_store t))) p = Some r" "m = row_manifest (ms_db (ts_store t)) r"
    by (auto simp: Get_row [OF inv] split: option.splits)
  then have "r \<in> set (db_manifests (ms_db (ts_store t)))" "c \<in> set (chunks_of (mf_chunks r))"
    using assms(4) by (auto simp: row_manifest_def dest: tbl_get_SomeD)
  with ok have "on_disk (ts_chunks t) (cr_hash c)" by (simp add: tenant_ok_def no_dangling_def)
  then obtain q d where q: "Path (cs_root (ts_chunks t)) (be_put HashLen (cr_hash c)) = Inr q" "map_of (cs_files (ts_chunks t)) q = Some (Regular d)"
    by (auto simp: on_disk_def)
  obtain d' where d': "d = d'" "Path (cs_root (ts_chunks t)) (blake3 d') = Inr q"
    using cok q(2) unfolding chunks_ok_def by blast
  have can: "canonical (cs_root (ts_chunks t))" using cok unfolding chunks_ok_def by (rule conjunct1)
  from Path_inj [OF can d'(2) q(1)] q assms(5) d'(1) show ?thesis by (auto simp: chunk_Get_def)
qed

definition demo_events :: "tenant_event list" where
  "demo_events =
     [TChunkPut demo_io True 0 (demo_hash [0]) [0, 8],
      TMutate demo_env demo_io (MPut ''/c'' 0 (demo_file ''/c'' [demo_chunk 0]) '''' '''' '''')]"

lemma demo_tenant_get:
  "\<exists>m. Get (ms_db (ts_store (run_tenant demo_hash demo_events (fresh_tenant demo_disk)))) ''/c'' = Inr m \<and>
     m_chunks m = [demo_chunk 0]"
proof -
  have "map_sum id m_chunks (Get (ms_db (ts_store (run_tenant demo_hash demo_events (fresh_tenant demo_disk)))) ''/c'') =
      Inr [demo_chunk 0]" by code_simp
  then show ?thesis by (cases "Get (ms_db (ts_store (run_tenant demo_hash demo_events (fresh_tenant demo_disk)))) ''/c''") auto
qed


theorem live_chunks_readable_witness:
  "\<exists>d. chunk_Get demo_io (ts_chunks (run_tenant demo_hash demo_events (fresh_tenant demo_disk))) (be_put HashLen (cr_hash (demo_chunk 0))) = Inr d \<and>
     demo_hash d = be_put HashLen (cr_hash (demo_chunk 0))"
proof -
  obtain m where m: "Get (ms_db (ts_store (run_tenant demo_hash demo_events (fresh_tenant demo_disk)))) ''/c'' = Inr m" "m_chunks m = [demo_chunk 0]"
    using demo_tenant_get by blast
  show ?thesis by (rule live_chunks_readable [OF demo_disk_ok refl m(1)]) (simp_all add: m(2) demo_io_def)
qed

end
