(* ===== verification/Feed_History.thy ===== *)
theory Feed_History
  imports Store_Props Tx_Relations
begin

text \<open>
  The change feed over whole histories of calls. \<open>feed_guard\<close> says which calls the feed follows: paths
  are canonical, a rename moves something other than a directory, a directory is not created over an
  existing node, and directories are not registered behind the feed's back. Under it every call is a
  step of \<open>feed_trace\<close>, so a reader that was up to date at some point learns of every later
  difference, or is told to start over.
\<close>

fun feed_guard :: "mutation \<Rightarrow> tenant_db \<Rightarrow> bool" where
  "feed_guard (MPut p n mf s a g) db = canonical p"
| "feed_guard (MLink src dst s a g) db = canonical dst"
| "feed_guard (MDelete p n s a g) db = canonical p"
| "feed_guard (MRename src dst ef et nr s a g) db = (canonical src \<and> canonical dst \<and> resolveKind db src \<noteq> nodeDir)"
| "feed_guard (MDirCreate p m) db =
     (canonical p \<and> \<not> tbl_has mf_path (db_manifests db) p \<and> \<not> tbl_has sl_path (db_symlinks db) p \<and> \<not> tbl_has sn_path (db_specials db) p)"
| "feed_guard (MDirRemove p) db = canonical p"
| "feed_guard (MSymlink p t m) db = canonical p"
| "feed_guard (MMknod p m d) db = canonical p"
| "feed_guard (MSetMode p m s a g l) db = canonical p"
| "feed_guard (MSetOwner p u g) db = canonical p"
| "feed_guard (MSetAtime p t) db = canonical p"
| "feed_guard (MRegisterDir q w) db = False"
| "feed_guard m db = True"

fun feed_guarded :: "(env \<times> mutation) list \<Rightarrow> mstore \<Rightarrow> bool" where
  "feed_guarded [] st = True"
| "feed_guarded ((E, m) # cs) st = (feed_guard m (ms_db st) \<and> feed_guarded cs (snd (apply_mutation E m st)))"

context store_op
begin

lemma run_trace:
  assumes inv: "db_inv (ms_db st)" and mk: "tx_rel same_mark op"
    and feed: "\<And>v je rv db'. op (ms_db st) = Inr (Commit v je rv, db') \<Longrightarrow> feed_step (ms_db st) db' rv"
    and tr: "feed_trace db0 (ms_db st)"
  shows "feed_trace db0 (ms_db (snd (run_store E op st)))"
proof (cases "\<exists>v je rv db'. op (ms_db st) = Inr (Commit v je rv, db') \<and> e_commit E")
  case True
  then obtain v je rv db' where c: "op (ms_db st) = Inr (Commit v je rv, db')" "e_commit E" by blast
  have "same_mark (ms_db st) db'" by (rule tx_relD [OF mk c(1)])
  moreover have rv: "rv = Suc (db_last_rev (ms_db st)) \<and> db_last_rev db' = rv" by (rule commit_rev [OF inv c(1)])
  moreover have "feed_step (ms_db st) db' rv" by (rule feed [OF c(1)])
  ultimately have "feed_trace db0 db'" using feed_trace.step [OF tr, of db'] by (simp add: same_mark_def)
  with c show ?thesis by (simp add: run_store_def notifyChange_def broadcast_def split: option.split)
next
  case False
  then have "snd (run_store E op st) = st" by (auto simp: run_store_def split: sum.splits outcome.splits)
  with tr show ?thesis by simp
qed

end

lemma trace_quiet:
  assumes "feed_trace db0 db" "db_manifests db' = db_manifests db" "db_symlinks db' = db_symlinks db" "db_specials db' = db_specials db"
    "db_dirs db' = db_dirs db" "db_tombs db' = db_tombs db" "db_last_rev db' = db_last_rev db" "db_pruned_before db' = db_pruned_before db"
  shows "feed_trace db0 db'"
proof -
  have live: "feed_live db' = feed_live db"
    using assms(2-5) by (simp add: feed_live_def feed_file_def nlink_of_def dir_primary_def [abs_def])
  with assms show ?thesis using feed_trace.quiet [of db0 db db'] by (simp add: feed_def)
qed

lemma Put_trace:
  assumes inv: "db_inv (ms_db st)" and can: "canonical p" and tr: "feed_trace db0 (ms_db st)"
  shows "feed_trace db0 (ms_db (snd (Put E p n mf s a g st)))"
proof -
  have "feed_trace db0 (ms_db (snd (run_store E (Put_tx E p n mf s a g) st)))"
  proof (rule put.run_trace [OF inv mark_Put _ tr])
    fix v je rv db' assume "Put_tx E p n mf s a g (ms_db st) = Inr (Commit v je rv, db')"
    then show "feed_step (ms_db st) db' rv"
      using Put_insert_feed [OF inv can] Put_update_feed [OF can] by (cases "n = 0") auto
  qed
  with tr show ?thesis by (auto simp: Put_def split: sum.splits)
qed

lemma Delete_trace:
  assumes inv: "db_inv (ms_db st)" and can: "canonical p" and tr: "feed_trace db0 (ms_db st)"
  shows "feed_trace db0 (ms_db (snd (Delete E p n s a g st)))"
proof -
  obtain r1 st1 where 1: "run_store E (deleteSpecialNode_tx E p) st = (r1, st1)" by fastforce
  have "feed_trace db0 (ms_db (snd (run_store E (deleteSpecialNode_tx E p) st)))"
    by (rule del_special.run_trace [OF inv mark_Delete(2) deleteSpecialNode_feed [OF can] tr])
  with 1 have tr1: "feed_trace db0 (ms_db st1)" by simp
  have inv1: "db_inv (ms_db st1)" using del_special.run_inv [OF inv 1] .
  obtain r2 st2 where 2: "run_store E (deleteSymlink_tx E p) st1 = (r2, st2)" by fastforce
  have "feed_trace db0 (ms_db (snd (run_store E (deleteSymlink_tx E p) st1)))"
    by (rule del_symlink.run_trace [OF inv1 mark_Delete(3) deleteSymlink_feed [OF can] tr1])
  with 2 have tr2: "feed_trace db0 (ms_db st2)" by simp
  have inv2: "db_inv (ms_db st2)" using del_symlink.run_inv [OF inv1 2] .
  have tr3: "feed_trace db0 (ms_db (snd (run_store E (Delete_tx E p n s a g) st2)))"
    by (rule del_manifest.run_trace [OF inv2 mark_Delete(1) Delete_feed [OF inv2 can] tr2])
  from tr tr1 tr2 tr3 1 2 show ?thesis by (cases r1; cases r2) (auto simp: Delete_def)
qed

lemma SetMode_trace:
  assumes inv: "db_inv (ms_db st)" and can: "canonical p" and tr: "feed_trace db0 (ms_db st)"
  shows "feed_trace db0 (ms_db (snd (SetMode E p m s a g l st)))"
proof (cases "Get (ms_db st) p")
  case (Inl e)
  have none: "p \<notin> tbl_keys mf_path (db_manifests (ms_db st))" if "e = ErrManifestNotFound"
    using Inl by (auto simp: Get_row [OF inv] tbl_get_None split: option.splits)
  have "feed_trace db0 (ms_db (snd (run_store E (SetMode_tx p (m AND perm_mask)) st)))" if "e = ErrManifestNotFound"
    by (rule set_mode.run_trace [OF inv mark_meta(5) SetMode_feed [OF can none [OF that]] tr])
  with Inl tr show ?thesis by (auto simp: SetMode_def Let_def)
next
  case (Inr mf)
  obtain r st1 where "PutWithLeaseCheck E p (m_version mf) (mf\<lparr>m_mode := m AND perm_mask\<rparr>) s a g l st = (r, st1)" by fastforce
  moreover from this have "feed_trace db0 (ms_db st1)"
    using tr Put_trace [OF inv can tr] by (auto simp: PutWithLeaseCheck_def split: sum.splits) (metis snd_conv)
  ultimately show ?thesis using Inr by (cases r) (simp_all add: SetMode_def Let_def)
qed

lemma mutation_trace:
  assumes inv: "db_inv (ms_db st)" and ok: "feed_guard m (ms_db st)" and tr: "feed_trace db0 (ms_db st)"
  shows "feed_trace db0 (ms_db (snd (apply_mutation E m st)))"
proof (cases m)
  case (MPut p n mf s a g)
  with Put_trace [OF inv _ tr] ok show ?thesis by (simp add: drop_result_def)
next
  case (MDelete p n s a g)
  with Delete_trace [OF inv _ tr] ok show ?thesis by simp
next
  case (MSetMode p m s a g l)
  with SetMode_trace [OF inv _ tr] ok show ?thesis by simp
next
  case (MLink src dst s a g)
  with ok have "canonical dst" by simp
  from link.run_trace [OF inv mark_Link Link_feed [OF this] tr] tr MLink show ?thesis by (simp add: drop_result_def Link_def)
next
  case (MRename src dst ef et nr s a g)
  with ok have k: "canonical src" "canonical dst" "resolveKind (ms_db st) src \<noteq> nodeDir" by simp_all
  from rename.run_trace [OF inv mark_rename rename_feed [OF inv k] tr] tr MRename show ?thesis by (simp add: drop_result_def renameOpt_def)
next
  case (MDirCreate p md)
  with ok have k: "canonical p" "p \<notin> tbl_keys mf_path (db_manifests (ms_db st))" "p \<notin> tbl_keys sl_path (db_symlinks (ms_db st))"
    "p \<notin> tbl_keys sn_path (db_specials (ms_db st))" by simp_all
  from dir_create.run_trace [OF inv mark_meta(1) DirCreate_feed [OF k(1) _ k(2-4)] tr] MDirCreate show ?thesis by (simp add: DirCreate_def)
next
  case (MDirRemove p)
  with ok have k: "canonical p" by simp
  from dir_remove.run_trace [OF inv mark_meta(2) DirRemove_feed [OF k] tr] MDirRemove show ?thesis by (simp add: DirRemove_def)
next
  case (MSymlink p t md)
  with ok have k: "canonical p" by simp
  from symlink.run_trace [OF inv mark_meta(3) Symlink_feed [OF k] tr] MSymlink show ?thesis by (simp add: Symlink_def)
next
  case (MMknod p md d)
  with ok have k: "canonical p" by simp
  from mknod.run_trace [OF inv mark_meta(4) Mknod_feed [OF k] tr] tr MMknod show ?thesis by (simp add: Mknod_def)
next
  case (MSetOwner p u gid)
  with ok have k: "canonical p" by simp
  from set_owner.run_trace [OF inv mark_meta(6) SetOwner_feed [OF k] tr] MSetOwner show ?thesis by (simp add: SetOwner_def)
next
  case (MSetAtime p t)
  with ok have k: "canonical p" by simp
  from set_atime.run_trace [OF inv mark_meta(7) SetAtime_feed [OF k] tr] MSetAtime show ?thesis by (simp add: SetAtime_def)
next
  case (MPrune c)
  obtain r db' where run: "pruneTombstones E c (ms_db st) = (r, db')" by fastforce
  then have "db' = ms_db st \<or> (\<exists>u. pruneTombstones_tx c (ms_db st) = Inr (u, db'))"
    by (auto simp: pruneTombstones_def split: sum.splits if_splits)
  with tr have "feed_trace db0 db'" by (auto intro: feed_trace.prune)
  with run MPrune show ?thesis by simp
next
  case (MCollect cands c)
  obtain r db' where run: "deleteGCBatch (e_commit E) cands c (ms_db st) = (r, db')" by fastforce
  have "feed_trace db0 db'" by (rule trace_quiet [OF tr]) (subst deleteGCBatch_inv(2) [OF inv run], simp)+
  with run MCollect show ?thesis by simp
qed (use ok tr in \<open>auto simp: on_db_def DeleteRow_def intro: trace_quiet [OF tr]\<close>)

lemma apply_mutation_inv: "db_inv (ms_db st) \<Longrightarrow> db_inv (ms_db (snd (apply_mutation E m st)))"
  using apply_mutation_step [of st E m, OF _ prod.collapse [symmetric]] by (auto simp: one_step_def quiet_step_def)

lemma guarded_trace:
  "db_inv (ms_db st) \<Longrightarrow> feed_guarded cs st \<Longrightarrow> feed_trace db0 (ms_db st) \<Longrightarrow> feed_trace db0 (ms_db (run_calls cs st))"
proof (induction cs st rule: run_calls.induct)
  case (2 E m cs st)
  from 2(2,3,4) have "feed_trace db0 (ms_db (snd (apply_mutation E m st)))" by (auto intro: mutation_trace)
  with 2(1) apply_mutation_inv [OF 2(2)] 2(3) show ?case by simp
qed simp

end
