(* ===== verification/Feed_Reader.thy ===== *)
theory Feed_Reader
  imports Feed_History "HOL-Library.Product_Lexorder"
begin



section \<open>Rows and entries\<close>







definition feed_entry :: "bool \<Rightarrow> feed_row \<Rightarrow> ChangeEntry" where
  "feed_entry inc e = (case feed_scan inc e of None \<Rightarrow> fst e | Some x \<Rightarrow> x)"

lemma feed_entry_key [simp]: "ce_path (feed_entry inc e) = ce_path (fst e)" "ce_rev (feed_entry inc e) = ce_rev (fst e)"
  by (cases e; auto simp: feed_entry_def feed_scan_def Let_def split: option.splits)+



section \<open>Walking\<close>








section \<open>Properties\<close>










end
