(* ===== verification/Admission.thy ===== *)
theory Admission
  imports Go_Paths Go_Strconv "HOL-Library.AList"
begin

text \<open>
  Who may open a data-plane session: the caller's identity from its certificate (identity.go,
  \<^verbatim>\<open>identifyV2Peer\<close>), the deny-list of revoked serials (cert_revocation_registry.go with the push of
  control_cert_revocations.go), the check that the signing intermediate belongs to the tenant
  (cert_tenant_binding.go), and the start of \<^verbatim>\<open>serveFrames\<close> that runs them in order.

  A certificate is what the code reads of it; a URI comes with its scheme, host and path and with
  what its \<^verbatim>\<open>String\<close> method gives (Go's x509 parser yields no nil URI, on which that method would
  panic; the loops skip one all the same). Times are nanoseconds and the zero time is \<open>None\<close>.
\<close>

section \<open>Strings\<close>

text \<open>\<^verbatim>\<open>strings.Trim(s, "/")\<close>, \<^verbatim>\<open>strings.ToUpper\<close> and \<^verbatim>\<open>strings.TrimSpace\<close> on ASCII strings.\<close>

definition trim_both :: "char \<Rightarrow> string \<Rightarrow> string" where
  "trim_both c s = trim_right c (dropWhile (\<lambda>x. x = c) s)"

definition upper_char :: "char \<Rightarrow> char" where
  "upper_char c = (let v = (of_char c :: nat) in if 97 \<le> v \<and> v \<le> 122 then char_of (v - 32) else c)"

definition to_upper :: "string \<Rightarrow> string" where
  "to_upper s = map upper_char s"

definition is_space :: "char \<Rightarrow> bool" where
  "is_space c = (let v = (of_char c :: nat) in v = 32 \<or> (9 \<le> v \<and> v \<le> 13))"

definition trim_space :: "string \<Rightarrow> string" where
  "trim_space s = rev (dropWhile is_space (rev (dropWhile is_space s)))"

section \<open>Certificates and identities\<close>

record cert_uri =
  u_scheme :: string
  u_host :: string
  u_path :: string
  u_string :: string

record certificate =
  c_cn :: string
  c_uris :: "cert_uri option list"
  c_emails :: "string list"
  c_dns :: "string list"
  c_serial :: "int option"
  c_subject :: string
  c_issuer :: string
  c_ou :: "string list"

record Identity =
  id_agent :: string
  id_tenant :: string
  id_serial :: string
  id_subject :: string
  id_scoped :: string

definition certAgentID :: "certificate \<Rightarrow> string" where
  "certAgentID cert =
     (if c_cn cert \<noteq> '''' then c_cn cert
      else case c_uris cert of
        u # _ \<Rightarrow> (case u of None \<Rightarrow> '''' | Some uri \<Rightarrow> u_string uri)
      | [] \<Rightarrow> (case c_emails cert of
          e # _ \<Rightarrow> e
        | [] \<Rightarrow> (case c_dns cert of
            d # _ \<Rightarrow> d
          | [] \<Rightarrow> (case c_serial cert of Some s \<Rightarrow> FormatInt s | None \<Rightarrow> c_subject cert))))"

definition identityFromCert :: "certificate \<Rightarrow> string \<Rightarrow> Identity" where
  "identityFromCert cert tenantID =
     \<lparr> id_agent = certAgentID cert, id_tenant = tenantID,
       id_serial = (case c_serial cert of None \<Rightarrow> '''' | Some s \<Rightarrow> FormatInt s),
       id_subject = c_subject cert, id_scoped = '''' \<rparr>"

definition controlPlaneSPIFFE :: "string \<Rightarrow> string" where
  "controlPlaneSPIFFE trustDomain = ''spiffe://'' @ trustDomain @ ''/control''"

definition isControlPlaneCert :: "certificate \<Rightarrow> string \<Rightarrow> bool" where
  "isControlPlaneCert cert trustDomain =
     list_ex (\<lambda>u. case u of None \<Rightarrow> False | Some uri \<Rightarrow> u_string uri = controlPlaneSPIFFE trustDomain) (c_uris cert)"

definition spiffe_id :: "string \<Rightarrow> cert_uri \<Rightarrow> string \<Rightarrow> string option" where
  "spiffe_id kind uri trustDomain =
     (if u_host uri \<noteq> trustDomain then None
      else case split_on slash (trim_both slash (u_path uri)) of
             [k, i] \<Rightarrow> if k \<noteq> kind \<or> i = '''' then None else Some i
           | _ \<Rightarrow> None)"

definition tenantIDFromSPIFFE :: "cert_uri \<Rightarrow> string \<Rightarrow> string option" where
  "tenantIDFromSPIFFE = spiffe_id ''tenant''"

definition agentIDFromSPIFFE :: "cert_uri \<Rightarrow> string \<Rightarrow> string option" where
  "agentIDFromSPIFFE = spiffe_id ''agent''"

text \<open>None is \<^verbatim>\<open>ErrNoTenantIdentity\<close>. Only the first SPIFFE URI of the trust domain is looked at.\<close>

fun tenant_of_uris :: "string \<Rightarrow> cert_uri option list \<Rightarrow> string option" where
  "tenant_of_uris td [] = None"
| "tenant_of_uris td (None # us) = tenant_of_uris td us"
| "tenant_of_uris td (Some uri # us) =
     (if u_scheme uri \<noteq> ''spiffe'' then tenant_of_uris td us
      else if u_host uri \<noteq> td then tenant_of_uris td us
      else if u_string uri = controlPlaneSPIFFE td then None
      else tenantIDFromSPIFFE uri td)"

definition certTenantID :: "certificate \<Rightarrow> string \<Rightarrow> string option" where
  "certTenantID cert td = tenant_of_uris td (c_uris cert)"

fun agent_of_uris :: "string \<Rightarrow> cert_uri option list \<Rightarrow> string" where
  "agent_of_uris td [] = ''''"
| "agent_of_uris td (None # us) = agent_of_uris td us"
| "agent_of_uris td (Some uri # us) =
     (if u_scheme uri \<noteq> ''spiffe'' then agent_of_uris td us
      else if u_host uri \<noteq> td then agent_of_uris td us
      else if u_string uri = controlPlaneSPIFFE td then agent_of_uris td us
      else if tenantIDFromSPIFFE uri td \<noteq> None then agent_of_uris td us
      else case agentIDFromSPIFFE uri td of Some a \<Rightarrow> a | None \<Rightarrow> agent_of_uris td us)"

definition certScopedAgentID :: "certificate \<Rightarrow> string \<Rightarrow> string" where
  "certScopedAgentID cert td = agent_of_uris td (c_uris cert)"

definition identifyV2Peer :: "string \<Rightarrow> (string \<Rightarrow> 't option) \<Rightarrow> certificate \<Rightarrow> ('t \<times> Identity) option" where
  "identifyV2Peer td tenants cert =
     (if certAgentID cert = '''' then None
      else case certTenantID cert td of
        None \<Rightarrow> None
      | Some tenantID \<Rightarrow>
          (case tenants tenantID of
             None \<Rightarrow> None
           | Some t \<Rightarrow>
               if certScopedAgentID cert td = '''' then None
               else Some (t, (identityFromCert cert tenantID)\<lparr>id_scoped := certScopedAgentID cert td\<rparr>)))"

section \<open>The deny-list of serials\<close>

type_synonym revocations = "(string \<times> int option) list"

definition normalizeSerial :: "string \<Rightarrow> string" where
  "normalizeSerial s = to_upper (trim_space s)"

fun big_bytes :: "nat \<Rightarrow> byte list" where
  "big_bytes n = (if n = 0 then [] else big_bytes (n div 256) @ [of_nat (n mod 256)])"

declare big_bytes.simps [simp del]

definition formatSerialHex :: "int option \<Rightarrow> string" where
  "formatSerialHex s = (case s of None \<Rightarrow> '''' | Some n \<Rightarrow> to_upper (hex_encode (big_bytes (nat \<bar>n\<bar>))))"

definition revocation_Add :: "string \<Rightarrow> int option \<Rightarrow> revocations \<Rightarrow> revocations" where
  "revocation_Add serial expiresAt r =
     (let s = normalizeSerial serial in if s = '''' then r else AList.update s expiresAt r)"

definition IsRevoked :: "int \<Rightarrow> string \<Rightarrow> revocations \<Rightarrow> bool" where
  "IsRevoked now serial r =
     (let s = normalizeSerial serial
      in if s = '''' then False
         else case map_of r s of None \<Rightarrow> False | Some e \<Rightarrow> (case e of None \<Rightarrow> True | Some t \<Rightarrow> now < t))"

definition Prune :: "int \<Rightarrow> revocations \<Rightarrow> revocations" where
  "Prune now r = filter (\<lambda>(s, e). \<not> (case e of None \<Rightarrow> False | Some t \<Rightarrow> t < now)) r"

definition revocation_Count :: "revocations \<Rightarrow> nat" where
  "revocation_Count r = length r"

text \<open>The state change of \<^verbatim>\<open>pushCertRevocations\<close> and the count it answers.\<close>

definition pushCertRevocations :: "int \<Rightarrow> (string \<times> int option) list \<Rightarrow> revocations \<Rightarrow> nat \<times> revocations" where
  "pushCertRevocations now items r =
     (let r' = Prune now (fold (\<lambda>(serial, e). revocation_Add serial e) items r) in (revocation_Count r', r'))"

section \<open>The tenant of the signer\<close>

definition tenantFromOU :: "string list \<Rightarrow> string" where
  "tenantFromOU ou = (case find (\<lambda>v. has_prefix v ''tenant='') ou of None \<Rightarrow> '''' | Some v \<Rightarrow> trim_prefix v ''tenant='')"

definition signingIntermediate :: "certificate list list \<Rightarrow> certificate option" where
  "signingIntermediate verified =
     (case verified of
        (leaf # c # cs) # _ \<Rightarrow> find (\<lambda>x. c_subject x = c_issuer leaf) (c # cs)
      | _ \<Rightarrow> None)"

definition checkTenantBinding :: "string \<Rightarrow> certificate list list \<Rightarrow> bool" where
  "checkTenantBinding leafTenant verified =
     (case signingIntermediate verified of
        None \<Rightarrow> False
      | Some signer \<Rightarrow>
          let t = tenantFromOU (c_ou signer) in t \<noteq> '''' \<and> t = leafTenant)"

section \<open>Opening a session\<close>

datatype session_refusal = SessionCap | NoCertificate | NotIdentified | CertRevoked | WrongSigner

definition admit_session ::
  "bool \<Rightarrow> string \<Rightarrow> (string \<Rightarrow> 't option) \<Rightarrow> int \<Rightarrow> revocations option \<Rightarrow> certificate list \<Rightarrow> certificate list list \<Rightarrow> session_refusal + ('t \<times> Identity)" where
  "admit_session slot td tenants now revs peers verified =
     (if \<not> slot then Inl SessionCap
      else case peers of
        [] \<Rightarrow> Inl NoCertificate
      | cert # _ \<Rightarrow>
          (case identifyV2Peer td tenants cert of
             None \<Rightarrow> Inl NotIdentified
           | Some (t, ident) \<Rightarrow>
               if (case revs of None \<Rightarrow> False | Some r \<Rightarrow> IsRevoked now (formatSerialHex (c_serial cert)) r) then Inl CertRevoked
               else if \<not> checkTenantBinding (id_tenant ident) verified then Inl WrongSigner
               else Inr (t, ident)))"

text \<open>The registry of open sessions: ids count from 1 and are never reused.\<close>

record 'w connRegistry =
  cr_next :: "64 word"
  cr_conns :: "(64 word \<times> 'w) list"

definition conn_Register :: "'w \<Rightarrow> 'w connRegistry \<Rightarrow> 64 word \<times> 'w connRegistry" where
  "conn_Register w r = (let i = cr_next r + 1 in (i, r\<lparr>cr_next := i, cr_conns := AList.update i w (cr_conns r)\<rparr>))"

definition conn_Unregister :: "64 word \<Rightarrow> 'w connRegistry \<Rightarrow> 'w connRegistry" where
  "conn_Unregister i r = r\<lparr>cr_conns := AList.delete i (cr_conns r)\<rparr>"

end
