(* ===== verification/Lease_Manager.thy ===== *)
theory Lease_Manager
  imports Go_Strconv "HOL-Library.AList" "HOL-Library.Word"
begin

text \<open>
  The lease manager of lease.go with the snapshots of lease_persist.go. Records are shared by pointer
  between the manager's maps, so they live in an explicit heap and the maps hold references; a revoke
  in progress is a channel, closed when the record goes. Every operation runs its critical sections
  under one mutex: each section is a definition, the blocking loops of \<^verbatim>\<open>YieldFor\<close> and \<^verbatim>\<open>Grant\<close> are
  described by what a section answers (proceed, refuse, wait, retry), and interleavings are sequences
  of sections.

  Times are nanoseconds. Fresh lease ids come from \<^verbatim>\<open>rand.Read\<close> and are arguments.
\<close>

section \<open>State\<close>

datatype LeaseMode = LeaseSharedRead | LeaseExclusiveWrite

record leaseConfig =
  lc_ttl :: int
  lc_min_hold :: int
  lc_revoke_timeout :: int

record leaseRecord =
  lr_id :: "128 word"
  lr_path :: string
  lr_mode :: LeaseMode
  lr_holder :: string
  lr_conn :: "64 word"
  lr_granted :: int
  lr_expires :: int
  lr_revoking :: "nat option"

record lease_audit =
  la_event :: string
  la_holder :: string
  la_path :: string
  la_id :: "128 word"
  la_mode :: LeaseMode
  la_reason :: string

record leaseManager =
  lm_cfg :: leaseConfig
  lm_heap :: "(nat \<times> leaseRecord) list"
  lm_next :: nat
  lm_byPath :: "(string \<times> nat) list"
  lm_byID :: "(128 word \<times> nat) list"
  lm_byConn :: "(64 word \<times> 128 word list) list"
  lm_chan :: nat
  lm_closed :: "nat list"
  lm_audit :: "lease_audit list"

definition newLeaseManager :: "leaseConfig \<Rightarrow> leaseManager" where
  "newLeaseManager cfg = \<lparr> lm_cfg = cfg, lm_heap = [], lm_next = 0, lm_byPath = [], lm_byID = [], lm_byConn = [],
     lm_chan = 0, lm_closed = [], lm_audit = [] \<rparr>"

definition rec_of :: "leaseManager \<Rightarrow> nat \<Rightarrow> leaseRecord option" where
  "rec_of m r = map_of (lm_heap m) r"

definition at_path :: "leaseManager \<Rightarrow> string \<Rightarrow> (nat \<times> leaseRecord) option" where
  "at_path m p =
     (case map_of (lm_byPath m) p of None \<Rightarrow> None | Some r \<Rightarrow> map_option (Pair r) (rec_of m r))"

definition with_id :: "leaseManager \<Rightarrow> 128 word \<Rightarrow> (nat \<times> leaseRecord) option" where
  "with_id m i =
     (case map_of (lm_byID m) i of None \<Rightarrow> None | Some r \<Rightarrow> map_option (Pair r) (rec_of m r))"

definition set_rec :: "nat \<Rightarrow> leaseRecord \<Rightarrow> leaseManager \<Rightarrow> leaseManager" where
  "set_rec r rec m = m\<lparr>lm_heap := AList.update r rec (lm_heap m)\<rparr>"

definition conn_add :: "64 word \<Rightarrow> 128 word \<Rightarrow> (64 word \<times> 128 word list) list \<Rightarrow> (64 word \<times> 128 word list) list" where
  "conn_add c i bc = AList.update c (List.insert i (case map_of bc c of None \<Rightarrow> [] | Some s \<Rightarrow> s)) bc"

definition conn_del :: "64 word \<Rightarrow> 128 word \<Rightarrow> (64 word \<times> 128 word list) list \<Rightarrow> (64 word \<times> 128 word list) list" where
  "conn_del c i bc =
     (case map_of bc c of
        None \<Rightarrow> bc
      | Some s \<Rightarrow> let s' = removeAll i s in if s' = [] then AList.delete c bc else AList.update c s' bc)"

definition recordAudit :: "string \<Rightarrow> string \<Rightarrow> string \<Rightarrow> 128 word \<Rightarrow> LeaseMode \<Rightarrow> string \<Rightarrow> leaseManager \<Rightarrow> leaseManager" where
  "recordAudit event holder path i mode reason m =
     m\<lparr>lm_audit := lm_audit m @ [\<lparr> la_event = event, la_holder = holder, la_path = path, la_id = i, la_mode = mode, la_reason = reason \<rparr>]\<rparr>"

section \<open>Installing and removing\<close>

record leaseGrantResult =
  lg_id :: "128 word"
  lg_expires_ms :: int
  lg_mode :: LeaseMode

definition unix_milli :: "int \<Rightarrow> int" where "unix_milli t = t div 1000000"

definition installLocked ::
  "int \<Rightarrow> 128 word \<Rightarrow> string \<Rightarrow> 64 word \<Rightarrow> string \<Rightarrow> LeaseMode \<Rightarrow> leaseManager \<Rightarrow> leaseGrantResult \<times> leaseManager" where
  "installLocked now i holder conn path mode m =
     (let r = lm_next m;
          rec = \<lparr> lr_id = i, lr_path = path, lr_mode = mode, lr_holder = holder, lr_conn = conn, lr_granted = now,
                  lr_expires = now + lc_ttl (lm_cfg m), lr_revoking = None \<rparr>
      in (\<lparr> lg_id = i, lg_expires_ms = unix_milli (lr_expires rec), lg_mode = mode \<rparr>,
          (set_rec r rec m)\<lparr>lm_next := Suc r, lm_byPath := AList.update path r (lm_byPath m),
             lm_byID := AList.update i r (lm_byID m), lm_byConn := conn_add conn i (lm_byConn m)\<rparr>))"

definition removeLocked :: "nat \<Rightarrow> leaseManager \<Rightarrow> leaseManager" where
  "removeLocked r m =
     (case rec_of m r of
        None \<Rightarrow> m
      | Some rec \<Rightarrow>
          (set_rec r (rec\<lparr>lr_revoking := None\<rparr>) m)
            \<lparr>lm_byID := AList.delete (lr_id rec) (lm_byID m),
             lm_byPath := (if map_of (lm_byPath m) (lr_path rec) = Some r then AList.delete (lr_path rec) (lm_byPath m) else lm_byPath m),
             lm_byConn := conn_del (lr_conn rec) (lr_id rec) (lm_byConn m),
             lm_closed := (case lr_revoking rec of None \<Rightarrow> lm_closed m | Some ch \<Rightarrow> ch # lm_closed m)\<rparr>)"

section \<open>Yielding\<close>

text \<open>
  One turn of \<^verbatim>\<open>YieldFor\<close>: the path is free or ours; it is held within its minimum hold; or the caller
  has to wait on the record's channel, having pushed the revoke itself (\<open>RevokeWait\<close>) or behind an
  earlier caller (\<open>QueueWait\<close>).
\<close>

datatype yield_answer = Proceed | LeaseHeld | RevokeWait nat nat | QueueWait nat

definition yield_turn :: "int \<Rightarrow> string \<Rightarrow> string \<Rightarrow> string \<Rightarrow> leaseManager \<Rightarrow> yield_answer \<times> leaseManager" where
  "yield_turn now requester path reason m =
     (case at_path m path of
        None \<Rightarrow> (Proceed, m)
      | Some (r, rec) \<Rightarrow>
          if lr_holder rec = requester then (Proceed, m)
          else if now - lr_granted rec < lc_min_hold (lm_cfg m) then (LeaseHeld, m)
          else case lr_revoking rec of
                 None \<Rightarrow>
                   (let ch = lm_chan m
                    in (RevokeWait r ch,
                        recordAudit ''lease_revoke'' (lr_holder rec) (lr_path rec) (lr_id rec) (lr_mode rec) reason
                          ((set_rec r (rec\<lparr>lr_revoking := Some ch\<rparr>) m)\<lparr>lm_chan := Suc ch\<rparr>)))
               | Some ch \<Rightarrow> (QueueWait ch, m))"

text \<open>The waiter that pushed the revoke, when \<^verbatim>\<open>revokeTimeout\<close> passes before the channel closes.\<close>

definition yield_timeout :: "string \<Rightarrow> nat \<Rightarrow> leaseManager \<Rightarrow> leaseManager" where
  "yield_timeout path r m =
     (case at_path m path of
        None \<Rightarrow> m
      | Some (cur, rec) \<Rightarrow>
          if cur = r then removeLocked cur (recordAudit ''lease_violation'' (lr_holder rec) (lr_path rec) (lr_id rec) (lr_mode rec) ''revoke_timeout'' m)
          else m)"

section \<open>Granting\<close>

datatype grant_answer = Granted leaseGrantResult | Retry

text \<open>The locked part of one turn of \<^verbatim>\<open>Grant\<close>, after \<^verbatim>\<open>YieldFor\<close> let it through.\<close>

definition grant_turn :: "int \<Rightarrow> 128 word \<Rightarrow> string \<Rightarrow> 64 word \<Rightarrow> string \<Rightarrow> LeaseMode \<Rightarrow> leaseManager \<Rightarrow> grant_answer \<times> leaseManager" where
  "grant_turn now i holder conn path mode m =
     (case at_path m path of
        Some (r, rec) \<Rightarrow>
          if lr_holder rec = holder \<and> lr_mode rec = mode then
            (if lr_conn rec = conn \<or> lr_conn rec = 0 then
               (let m1 = (if lr_conn rec \<noteq> conn then m\<lparr>lm_byConn := conn_add conn (lr_id rec) (lm_byConn m)\<rparr> else m);
                    rec' = rec\<lparr>lr_conn := conn, lr_expires := now + lc_ttl (lm_cfg m)\<rparr>
                in (Granted \<lparr> lg_id = lr_id rec, lg_expires_ms = unix_milli (lr_expires rec'), lg_mode = lr_mode rec \<rparr>,
                    set_rec r rec' m1))
             else
               (let (res, m1) = installLocked now i holder conn path mode (removeLocked r m)
                in (Granted res,
                    recordAudit ''lease_grant'' holder path i mode ''conn_takeover''
                      (recordAudit ''lease_release'' holder path (lr_id rec) mode ''conn_takeover'' m1))))
          else (Retry, m)
      | None \<Rightarrow>
          (let (res, m1) = installLocked now i holder conn path mode m
           in (Granted res, recordAudit ''lease_grant'' holder path i mode '''' m1)))"

text \<open>
  \<^verbatim>\<open>Grant\<close> run to the end with nobody else touching the manager: \<open>None\<close> when the fuel is used up. A wait
  ends with the revoke timeout, the only event left.
\<close>

datatype grant_error = ErrLeaseHeld | ErrBlocked

fun grant_alone :: "nat \<Rightarrow> int \<Rightarrow> 128 word \<Rightarrow> string \<Rightarrow> 64 word \<Rightarrow> string \<Rightarrow> LeaseMode \<Rightarrow> leaseManager \<Rightarrow> ((grant_error + leaseGrantResult) \<times> leaseManager) option" where
  "grant_alone 0 now i holder conn path mode m = None"
| "grant_alone (Suc fuel) now i holder conn path mode m =
     (case yield_turn now holder path ''contention'' m of
        (LeaseHeld, m1) \<Rightarrow> Some (Inl ErrLeaseHeld, m1)
      | (QueueWait ch, m1) \<Rightarrow> Some (Inl ErrBlocked, m1)
      | (RevokeWait r ch, m1) \<Rightarrow>
          grant_alone fuel (now + lc_revoke_timeout (lm_cfg m)) i holder conn path mode (yield_timeout path r m1)
      | (Proceed, m1) \<Rightarrow>
          (case grant_turn now i holder conn path mode m1 of
             (Granted res, m2) \<Rightarrow> Some (Inr res, m2)
           | (Retry, m2) \<Rightarrow> grant_alone fuel now i holder conn path mode m2))"

section \<open>Sessions, refresh and release\<close>

definition HeldByConn :: "128 word \<Rightarrow> 64 word \<Rightarrow> leaseManager \<Rightarrow> bool" where
  "HeldByConn i conn m = (case with_id m i of None \<Rightarrow> False | Some (_, rec) \<Rightarrow> lr_conn rec = conn)"

definition Live :: "int \<Rightarrow> 128 word \<Rightarrow> leaseManager \<Rightarrow> bool" where
  "Live now i m = (case with_id m i of None \<Rightarrow> False | Some (_, rec) \<Rightarrow> lr_revoking rec = None \<and> now < lr_expires rec)"

definition AuthorizeOrRebindSession :: "int \<Rightarrow> 128 word \<Rightarrow> string \<Rightarrow> 64 word \<Rightarrow> leaseManager \<Rightarrow> (bool \<times> bool) \<times> leaseManager" where
  "AuthorizeOrRebindSession now i holder conn m =
     (case with_id m i of
        None \<Rightarrow> ((False, False), m)
      | Some (r, rec) \<Rightarrow>
          if lr_holder rec \<noteq> holder \<or> \<not> now < lr_expires rec \<or> lr_revoking rec \<noteq> None then ((False, False), m)
          else if lr_conn rec = conn then ((True, False), m)
          else if conn < lr_conn rec then ((False, False), m)
          else ((True, True),
                (set_rec r (rec\<lparr>lr_conn := conn\<rparr>) m)
                  \<lparr>lm_byConn := conn_add conn (lr_id rec) (conn_del (lr_conn rec) (lr_id rec) (lm_byConn m))\<rparr>))"

text \<open>None is \<^verbatim>\<open>errLeaseUnknown\<close>. The request's lease id is a byte string; only 16 bytes name a lease.\<close>

definition lease_key :: "byte list \<Rightarrow> 128 word option" where
  "lease_key bs = (if length bs \<noteq> 16 then None else Some (word_rcat bs))"

definition owned_by :: "64 word \<Rightarrow> leaseRecord \<Rightarrow> bool" where
  "owned_by conn rec \<longleftrightarrow> lr_conn rec = conn \<or> lr_conn rec = 0"

definition Refresh :: "int \<Rightarrow> byte list \<Rightarrow> 64 word \<Rightarrow> leaseManager \<Rightarrow> int option \<times> leaseManager" where
  "Refresh now leaseID conn m =
     (case lease_key leaseID of
        None \<Rightarrow> (None, m)
      | Some key \<Rightarrow>
          (case with_id m key of
             None \<Rightarrow> (None, m)
           | Some (r, rec) \<Rightarrow>
               if \<not> owned_by conn rec then (None, m)
               else let rec' = rec\<lparr>lr_expires := now + lc_ttl (lm_cfg m)\<rparr>
                    in (Some (unix_milli (lr_expires rec')),
                        recordAudit ''lease_refresh'' (lr_holder rec) (lr_path rec) (lr_id rec) (lr_mode rec) '''' (set_rec r rec' m))))"

definition Release :: "byte list \<Rightarrow> 64 word \<Rightarrow> leaseManager \<Rightarrow> bool \<times> leaseManager" where
  "Release leaseID conn m =
     (case lease_key leaseID of
        None \<Rightarrow> (False, m)
      | Some key \<Rightarrow>
          (case with_id m key of
             None \<Rightarrow> (False, m)
           | Some (r, rec) \<Rightarrow>
               if \<not> owned_by conn rec then (False, m)
               else (True, recordAudit ''lease_release'' (lr_holder rec) (lr_path rec) (lr_id rec) (lr_mode rec) ''client'' (removeLocked r m))))"

definition remove_with_audit :: "string \<Rightarrow> string \<Rightarrow> nat \<Rightarrow> leaseManager \<Rightarrow> leaseManager" where
  "remove_with_audit event reason r m =
     (case rec_of m r of
        None \<Rightarrow> m
      | Some rec \<Rightarrow> recordAudit event (lr_holder rec) (lr_path rec) (lr_id rec) (lr_mode rec) reason (removeLocked r m))"

definition sweepable :: "int \<Rightarrow> leaseManager \<Rightarrow> nat \<Rightarrow> bool" where
  "sweepable now m r = (case rec_of m r of None \<Rightarrow> False | Some rec \<Rightarrow> lr_revoking rec = None \<and> \<not> now < lr_expires rec)"

text \<open>The loop over \<^verbatim>\<open>byID\<close>; each turn deletes at most the entry it stands on.\<close>

definition SweepExpired :: "int \<Rightarrow> leaseManager \<Rightarrow> nat \<times> leaseManager" where
  "SweepExpired now m =
     (let refs = filter (sweepable now m) (remdups (map snd (lm_byID m)))
      in (length refs, fold (remove_with_audit ''lease_violation'' ''expired'') refs m))"

definition ReleaseAllForConn :: "64 word \<Rightarrow> leaseManager \<Rightarrow> leaseManager" where
  "ReleaseAllForConn conn m =
     (let ids = (case map_of (lm_byConn m) conn of None \<Rightarrow> [] | Some s \<Rightarrow> s)
      in fold (\<lambda>i m'. case with_id m' i of None \<Rightarrow> m' | Some (r, _) \<Rightarrow> remove_with_audit ''lease_release'' ''conn_closed'' r m') ids m)"

section \<open>Snapshots\<close>

record lease_row =
  ls_id :: "128 word"
  ls_path :: string
  ls_mode :: LeaseMode
  ls_holder :: string
  ls_granted_ms :: int
  ls_expires_ms :: int

definition lease_row_of :: "leaseRecord \<Rightarrow> lease_row" where
  "lease_row_of rec = \<lparr> ls_id = lr_id rec, ls_path = lr_path rec, ls_mode = lr_mode rec, ls_holder = lr_holder rec,
     ls_granted_ms = unix_milli (lr_granted rec), ls_expires_ms = unix_milli (lr_expires rec) \<rparr>"

text \<open>The table after a successful \<^verbatim>\<open>Snapshot\<close>.\<close>

definition Snapshot :: "leaseManager \<Rightarrow> lease_row list" where
  "Snapshot m = map lease_row_of (List.map_filter (rec_of m) (remdups (map snd (lm_byID m))))"

definition restore_row :: "lease_row \<Rightarrow> leaseManager \<Rightarrow> leaseManager" where
  "restore_row row m =
     (let r = lm_next m;
          rec = \<lparr> lr_id = ls_id row, lr_path = ls_path row, lr_mode = ls_mode row, lr_holder = ls_holder row, lr_conn = 0,
                  lr_granted = ls_granted_ms row * 1000000, lr_expires = ls_expires_ms row * 1000000, lr_revoking = None \<rparr>
      in (set_rec r rec m)\<lparr>lm_next := Suc r, lm_byID := AList.update (ls_id row) r (lm_byID m),
            lm_byPath := AList.update (ls_path row) r (lm_byPath m)\<rparr>)"

definition Restore :: "int \<Rightarrow> lease_row list \<Rightarrow> leaseManager \<Rightarrow> leaseManager" where
  "Restore now rows m = fold restore_row (filter (\<lambda>row. unix_milli now < ls_expires_ms row) rows) m"

end
