(* ===== verification/Lease_Laws.thy ===== *)
theory Lease_Laws
  imports Lease_Manager
begin

text \<open>
  The lease manager's three maps and shared records implement one map from paths to leases.
  \<open>lease_ok\<close> is the representation invariant: the maps agree with each other, a connection's index
  lists exactly its leases, and a channel someone may wait on is closed or belongs to a lease that is
  still there. \<open>leases\<close> is the abstraction; the lemmas say what each operation does to it.
\<close>

section \<open>The invariant\<close>

definition conn_has :: "(64 word \<times> 128 word list) list \<Rightarrow> 64 word \<Rightarrow> 128 word \<Rightarrow> bool" where
  "conn_has bc c i \<longleftrightarrow> (\<exists>s. map_of bc c = Some s \<and> i \<in> set s)"

lemma conn_has_add [simp]: "conn_has (conn_add c i bc) d j \<longleftrightarrow> conn_has bc d j \<or> (d = c \<and> j = i)"
  by (cases "map_of bc c") (auto simp: conn_has_def conn_add_def update_conv')

lemma conn_has_del [simp]: "conn_has (conn_del c i bc) d j \<longleftrightarrow> conn_has bc d j \<and> \<not> (d = c \<and> j = i)"
proof (cases "map_of bc c")
  case None
  then show ?thesis by (auto simp: conn_has_def conn_del_def)
next
  case (Some s)
  then show ?thesis
    by (auto simp: conn_has_def conn_del_def Let_def update_conv' delete_conv' removeAll_filter_not_eq filter_empty_conv)
qed

text \<open>The invariant over the maps as functions: paths, ids, the heap, the connection index, the two counters and the closed channels.\<close>

definition lease_view ::
  "(string \<Rightarrow> nat option) \<Rightarrow> (128 word \<Rightarrow> nat option) \<Rightarrow> (nat \<Rightarrow> leaseRecord option) \<Rightarrow> (64 word \<Rightarrow> 128 word \<Rightarrow> bool) \<Rightarrow> nat \<Rightarrow> nat \<Rightarrow> nat set \<Rightarrow> bool" where
  "lease_view P I H C n ch cl \<longleftrightarrow>
     (\<forall>r rec. H r = Some rec \<longrightarrow> r < n) \<and>
     (\<forall>p r. P p = Some r \<longrightarrow> (\<exists>rec. H r = Some rec \<and> lr_path rec = p \<and> I (lr_id rec) = Some r)) \<and>
     (\<forall>i r. I i = Some r \<longrightarrow> (\<exists>rec. H r = Some rec \<and> lr_id rec = i \<and> P (lr_path rec) = Some r)) \<and>
     (\<forall>c i. C c i \<longrightarrow> (\<exists>r rec. I i = Some r \<and> H r = Some rec \<and> lr_conn rec = c \<and> c \<noteq> 0)) \<and>
     (\<forall>i r rec. I i = Some r \<longrightarrow> H r = Some rec \<longrightarrow> lr_conn rec \<noteq> 0 \<longrightarrow> C (lr_conn rec) i) \<and>
     (\<forall>i r rec x. I i = Some r \<longrightarrow> H r = Some rec \<longrightarrow> lr_revoking rec = Some x \<longrightarrow> x < ch) \<and>
     (\<forall>i r rec x. I i = Some r \<longrightarrow> H r = Some rec \<longrightarrow> lr_revoking rec = Some x \<longrightarrow> x \<notin> cl) \<and>
     (\<forall>i r rec i' r' rec' x. I i = Some r \<longrightarrow> H r = Some rec \<longrightarrow> I i' = Some r' \<longrightarrow> H r' = Some rec' \<longrightarrow>
        lr_revoking rec = Some x \<longrightarrow> lr_revoking rec' = Some x \<longrightarrow> r = r') \<and>
     (\<forall>x<ch. x \<in> cl \<or> (\<exists>i r rec. I i = Some r \<and> H r = Some rec \<and> lr_revoking rec = Some x)) \<and>
     (\<forall>x\<in>cl. x < ch)"

definition lease_ok :: "leaseManager \<Rightarrow> bool" where
  "lease_ok m \<longleftrightarrow> lease_view (map_of (lm_byPath m)) (map_of (lm_byID m)) (map_of (lm_heap m)) (conn_has (lm_byConn m))
     (lm_next m) (lm_chan m) (set (lm_closed m)) \<and> distinct (map fst (lm_byID m))"

definition leases :: "leaseManager \<Rightarrow> string \<Rightarrow> leaseRecord option" where
  "leases m p = map_option snd (at_path m p)"

lemmas lease_viewD =
  lease_view_def [THEN iffD1, THEN conjunct1, rule_format]
  lease_view_def [THEN iffD1, THEN conjunct2, THEN conjunct1, rule_format]
  lease_view_def [THEN iffD1, THEN conjunct2, THEN conjunct2, THEN conjunct1, rule_format]
  lease_view_def [THEN iffD1, THEN conjunct2, THEN conjunct2, THEN conjunct2, THEN conjunct1, rule_format]
  lease_view_def [THEN iffD1, THEN conjunct2, THEN conjunct2, THEN conjunct2, THEN conjunct2, THEN conjunct1, rule_format]
  lease_view_def [THEN iffD1, THEN conjunct2, THEN conjunct2, THEN conjunct2, THEN conjunct2, THEN conjunct2, THEN conjunct1, rule_format]
  lease_view_def [THEN iffD1, THEN conjunct2, THEN conjunct2, THEN conjunct2, THEN conjunct2, THEN conjunct2, THEN conjunct2, THEN conjunct1, rule_format]
  lease_view_def [THEN iffD1, THEN conjunct2, THEN conjunct2, THEN conjunct2, THEN conjunct2, THEN conjunct2, THEN conjunct2, THEN conjunct2, THEN conjunct1, rule_format]
  lease_view_def [THEN iffD1, THEN conjunct2, THEN conjunct2, THEN conjunct2, THEN conjunct2, THEN conjunct2, THEN conjunct2, THEN conjunct2, THEN conjunct2, THEN conjunct1, rule_format]
  lease_view_def [THEN iffD1, THEN conjunct2, THEN conjunct2, THEN conjunct2, THEN conjunct2, THEN conjunct2, THEN conjunct2, THEN conjunct2, THEN conjunct2, THEN conjunct2, rule_format]

lemma lease_viewI:
  assumes "\<And>r rec. H r = Some rec \<Longrightarrow> r < n"
    "\<And>p r. P p = Some r \<Longrightarrow> \<exists>rec. H r = Some rec \<and> lr_path rec = p \<and> I (lr_id rec) = Some r"
    "\<And>i r. I i = Some r \<Longrightarrow> \<exists>rec. H r = Some rec \<and> lr_id rec = i \<and> P (lr_path rec) = Some r"
    "\<And>c i. C c i \<Longrightarrow> \<exists>r rec. I i = Some r \<and> H r = Some rec \<and> lr_conn rec = c \<and> c \<noteq> 0"
    "\<And>i r rec. I i = Some r \<Longrightarrow> H r = Some rec \<Longrightarrow> lr_conn rec \<noteq> 0 \<Longrightarrow> C (lr_conn rec) i"
    "\<And>i r rec x. I i = Some r \<Longrightarrow> H r = Some rec \<Longrightarrow> lr_revoking rec = Some x \<Longrightarrow> x < ch"
    "\<And>i r rec x. I i = Some r \<Longrightarrow> H r = Some rec \<Longrightarrow> lr_revoking rec = Some x \<Longrightarrow> x \<notin> cl"
    "\<And>i r rec i' r' rec' x. I i = Some r \<Longrightarrow> H r = Some rec \<Longrightarrow> I i' = Some r' \<Longrightarrow> H r' = Some rec' \<Longrightarrow>
        lr_revoking rec = Some x \<Longrightarrow> lr_revoking rec' = Some x \<Longrightarrow> r = r'"
    "\<And>x. x < ch \<Longrightarrow> x \<in> cl \<or> (\<exists>i r rec. I i = Some r \<and> H r = Some rec \<and> lr_revoking rec = Some x)"
    "\<And>x. x \<in> cl \<Longrightarrow> x < ch"
  shows "lease_view P I H C n ch cl"
  unfolding lease_view_def
  by (intro conjI allI impI ballI; rule assms; assumption)

lemma lease_ok_new: "lease_ok (newLeaseManager cfg)"
  by (simp add: lease_ok_def lease_view_def newLeaseManager_def conn_has_def)

section \<open>Removing a lease\<close>

lemma remove_view:
  assumes v: "lease_view P I H C n ch cl" and r: "H r = Some rec" "I (lr_id rec) = Some r"
  shows "lease_view (P(lr_path rec := None)) (I(lr_id rec := None)) (H(r := Some (rec\<lparr>lr_revoking := None\<rparr>)))
    (\<lambda>c i. C c i \<and> \<not> (c = lr_conn rec \<and> i = lr_id rec)) n ch (case lr_revoking rec of None \<Rightarrow> cl | Some x \<Rightarrow> insert x cl)"
    (is "lease_view ?P ?I ?H ?C n ch ?cl")
proof -
  note d = lease_viewD [OF v]
  have P: "P (lr_path rec) = Some r" using d(3) [OF r(2)] r(1) by auto
  have id: "lr_id rec' = i" if "I i = Some s" "H s = Some rec'" for i s rec' using d(3) [OF that(1)] that(2) by simp
  have other: "s \<noteq> r \<and> I i = Some s \<and> i \<noteq> lr_id rec" if "?I i = Some s" for i s
  proof -
    from that have i: "I i = Some s" "i \<noteq> lr_id rec" by (auto split: if_splits)
    with id [of i s rec] r(1) show ?thesis by blast
  qed
  show ?thesis
  proof (rule lease_viewI)
    fix s q assume "?H s = Some q"
    then show "s < n" using d(1) r(1) by (auto split: if_splits)
  next
    fix p s assume p: "?P p = Some s"
    then have "P p = Some s" "p \<noteq> lr_path rec" by (auto split: if_splits)
    with d(2) obtain q where q: "H s = Some q" "lr_path q = p" "I (lr_id q) = Some s" by blast
    with r \<open>p \<noteq> lr_path rec\<close> have "s \<noteq> r" "lr_id q \<noteq> lr_id rec" by auto
    with q show "\<exists>q. ?H s = Some q \<and> lr_path q = p \<and> ?I (lr_id q) = Some s" by simp
  next
    fix i s assume i: "?I i = Some s"
    note o = other [OF i]
    with d(3) obtain q where q: "H s = Some q" "lr_id q = i" "P (lr_path q) = Some s" by blast
    with P o have "lr_path q \<noteq> lr_path rec" by auto
    with q o show "\<exists>q. ?H s = Some q \<and> lr_id q = i \<and> ?P (lr_path q) = Some s" by simp
  next
    fix c i assume c: "?C c i"
    then obtain s q where s: "I i = Some s" "H s = Some q" "lr_conn q = c" "c \<noteq> 0" using d(4) by blast
    have "i \<noteq> lr_id rec" using c s r by auto
    moreover from this id [of i s rec] s(1) r(1) have "s \<noteq> r" by blast
    ultimately show "\<exists>s q. ?I i = Some s \<and> ?H s = Some q \<and> lr_conn q = c \<and> c \<noteq> 0" using s by (intro exI [of _ s] exI [of _ q]) simp
  next
    fix i s q assume i: "?I i = Some s" and q: "?H s = Some q" "lr_conn q \<noteq> 0"
    with other [OF i] d(5) [of i s q] show "?C (lr_conn q) i" by auto
  next
    fix i s q x assume i: "?I i = Some s" and q: "?H s = Some q" "lr_revoking q = Some x"
    note o = other [OF i]
    with q have H: "H s = Some q" by auto
    show "x < ch" using d(6) [OF _ H q(2)] o by blast
    have "x \<notin> cl" using d(7) [OF _ H q(2)] o by blast
    moreover have "lr_revoking rec \<noteq> Some x" using d(8) [OF _ H r(2) r(1) q(2)] o by blast
    ultimately show "x \<notin> ?cl" by (auto split: option.splits)
  next
    fix i s q i' s' q' x
    assume a: "?I i = Some s" "?H s = Some q" "?I i' = Some s'" "?H s' = Some q'" "lr_revoking q = Some x" "lr_revoking q' = Some x"
    from other [OF a(1)] other [OF a(3)] a(2,4) have "I i = Some s" "H s = Some q" "I i' = Some s'" "H s' = Some q'" by auto
    with a(5,6) show "s = s'" using d(8) by blast
  next
    fix x assume "x < ch"
    from d(9) [OF this] show "x \<in> ?cl \<or> (\<exists>i s q. ?I i = Some s \<and> ?H s = Some q \<and> lr_revoking q = Some x)"
    proof
      assume "\<exists>i s q. I i = Some s \<and> H s = Some q \<and> lr_revoking q = Some x"
      then obtain i s q where s: "I i = Some s" "H s = Some q" "lr_revoking q = Some x" by blast
      show ?thesis
      proof (cases "s = r")
        case True
        with s r show ?thesis by simp
      next
        case False
        with s(1) r(2) have "i \<noteq> lr_id rec" by auto
        with s False show ?thesis by (intro disjI2 exI [of _ i] exI [of _ s] exI [of _ q]) simp
      qed
    qed (auto split: option.splits)
  next
    fix x assume "x \<in> ?cl"
    then show "x < ch" using d(10) d(6) [OF r(2) r(1)] by (auto split: option.splits)
  qed
qed

section \<open>Changing and adding a lease\<close>

lemma update_view:
  assumes v: "lease_view P I H C n ch cl" and r: "H r = Some rec" "I (lr_id rec) = Some r"
    and same: "lr_id rec' = lr_id rec" "lr_path rec' = lr_path rec" and conn: "lr_conn rec' \<noteq> 0 \<or> lr_conn rec' = lr_conn rec"
    and rv: "lr_revoking rec' = lr_revoking rec \<and> ch' = ch \<or> lr_revoking rec = None \<and> lr_revoking rec' = Some ch \<and> ch' = Suc ch"
    and C': "\<And>d j. C' d j \<longleftrightarrow> (if j = lr_id rec then d = lr_conn rec' \<and> d \<noteq> 0 else C d j)"
  shows "lease_view P I (H(r := Some rec')) C' n ch' cl" (is "lease_view P I ?H C' n ch' cl")
proof -
  note d = lease_viewD [OF v]
  have id: "lr_id q = i" if "I i = Some s" "H s = Some q" for i s q using d(3) [OF that(1)] that(2) by simp
  have ref: "s = r \<longleftrightarrow> i = lr_id rec" if "I i = Some s" for i s using that r id [of i s rec] by auto
  show ?thesis
  proof (rule lease_viewI)
    fix s q assume "?H s = Some q"
    then show "s < n" using d(1) r(1) by (auto split: if_splits)
  next
    fix p s assume "P p = Some s"
    with d(2) obtain q where q: "H s = Some q" "lr_path q = p" "I (lr_id q) = Some s" by blast
    then show "\<exists>q. ?H s = Some q \<and> lr_path q = p \<and> I (lr_id q) = Some s" using r same by (cases "s = r") auto
  next
    fix i s assume "I i = Some s"
    with d(3) obtain q where q: "H s = Some q" "lr_id q = i" "P (lr_path q) = Some s" by blast
    then show "\<exists>q. ?H s = Some q \<and> lr_id q = i \<and> P (lr_path q) = Some s" using r same by (cases "s = r") auto
  next
    fix c i assume c: "C' c i"
    show "\<exists>s q. I i = Some s \<and> ?H s = Some q \<and> lr_conn q = c \<and> c \<noteq> 0"
    proof (cases "i = lr_id rec")
      case True
      with c C' r show ?thesis by auto
    next
      case False
      with c C' [of c i] have "C c i" by simp
      with d(4) obtain s q where s: "I i = Some s" "H s = Some q" "lr_conn q = c" "c \<noteq> 0" by blast
      with ref [OF s(1)] False show ?thesis by auto
    qed
  next
    fix i s q assume i: "I i = Some s" and q: "?H s = Some q" "lr_conn q \<noteq> 0"
    show "C' (lr_conn q) i"
    proof (cases "s = r")
      case True
      with q ref [OF i] C' show ?thesis by auto
    next
      case False
      with q ref [OF i] d(5) [OF i, of q] C' show ?thesis by auto
    qed
  next
    fix i s q x assume i: "I i = Some s" and q: "?H s = Some q" "lr_revoking q = Some x"
    show "x < ch'" using d(6) [OF i, of q x] d(6) [OF r(2) r(1), of x] q rv by (auto split: if_splits)
    have "ch \<notin> cl" using d(10) [of ch] by blast
    then show "x \<notin> cl" using d(7) [OF i, of q x] d(7) [OF r(2) r(1), of x] q rv by (auto split: if_splits)
  next
    fix i s q i' s' q' x
    assume a: "I i = Some s" "?H s = Some q" "I i' = Some s'" "?H s' = Some q'" "lr_revoking q = Some x" "lr_revoking q' = Some x"
    have fresh: "lr_revoking rec' \<noteq> Some x" if "I j = Some t" "H t = Some p" "lr_revoking p = Some x" "t \<noteq> r" for j t p
    proof
      assume x: "lr_revoking rec' = Some x"
      have "x \<noteq> ch" using d(6) [OF that(1-3)] by simp
      with rv x have "lr_revoking rec = Some x" by auto
      with d(8) [OF that(1) that(2) r(2) r(1) that(3)] that(4) show False by simp
    qed
    show "s = s'"
    proof (rule ccontr)
      assume ne: "s \<noteq> s'"
      consider "s = r" "s' \<noteq> r" | "s' = r" "s \<noteq> r" | "s \<noteq> r" "s' \<noteq> r" using ne by blast
      then show False
      proof cases
        case 1
        with a fresh [of i' s' q'] show False by simp
      next
        case 2
        with a fresh [of i s q] show False by simp
      next
        case 3
        with a d(8) [of i s q i' s' q' x] ne show False by simp
      qed
    qed
  next
    fix x assume x: "x < ch'"
    show "x \<in> cl \<or> (\<exists>i s q. I i = Some s \<and> ?H s = Some q \<and> lr_revoking q = Some x)"
    proof (cases "x < ch")
      case False
      with x rv have "x = ch" "lr_revoking rec' = Some ch" by auto
      with r show ?thesis by (intro disjI2 exI [of _ "lr_id rec"] exI [of _ r] exI [of _ rec']) simp
    next
      case True
      from d(9) [OF this] show ?thesis
      proof
        assume "\<exists>i s q. I i = Some s \<and> H s = Some q \<and> lr_revoking q = Some x"
        then obtain i s q where s: "I i = Some s" "H s = Some q" "lr_revoking q = Some x" by blast
        with r rv have "s = r \<Longrightarrow> lr_revoking rec' = Some x" by auto
        with s show ?thesis by (intro disjI2 exI [of _ i] exI [of _ s] exI [of _ "if s = r then rec' else q"]) simp
      qed simp
    qed
  next
    fix x assume "x \<in> cl"
    then have "x < ch" by (rule d(10))
    with rv show "x < ch'" by auto
  qed
qed

lemma install_view:
  assumes v: "lease_view P I H C n ch cl" and free: "P (lr_path rec) = None" "I (lr_id rec) = None" and new: "lr_revoking rec = None"
    and C': "\<And>d j. C' d j \<longleftrightarrow> (if j = lr_id rec then d = lr_conn rec \<and> d \<noteq> 0 else C d j)"
  shows "lease_view (P(lr_path rec := Some n)) (I(lr_id rec := Some n)) (H(n := Some rec)) C' (Suc n) ch cl"
proof -
  note d = lease_viewD [OF v]
  have H: "H n = None" using d(1) by (cases "H n") auto
  have I: "I i = Some s \<Longrightarrow> s < n" for i s using d(1) d(3) by blast
  have P: "P p = Some s \<Longrightarrow> s < n" for p s using d(1) d(2) by blast
  show ?thesis
  proof (rule lease_viewI)
    fix s q assume "(H(n := Some rec)) s = Some q"
    then show "s < Suc n" using d(1) [of s q] by (auto split: if_splits)
  next
    fix p s assume "(P(lr_path rec := Some n)) p = Some s"
    then show "\<exists>q. (H(n := Some rec)) s = Some q \<and> lr_path q = p \<and> (I(lr_id rec := Some n)) (lr_id q) = Some s"
      using d(2) [of p s] P [of p s] free by (cases "p = lr_path rec") force+
  next
    fix i s assume "(I(lr_id rec := Some n)) i = Some s"
    then show "\<exists>q. (H(n := Some rec)) s = Some q \<and> lr_id q = i \<and> (P(lr_path rec := Some n)) (lr_path q) = Some s"
      using d(3) [of i s] I [of i s] free by (cases "i = lr_id rec") force+
  next
    fix c i assume c: "C' c i"
    show "\<exists>s q. (I(lr_id rec := Some n)) i = Some s \<and> (H(n := Some rec)) s = Some q \<and> lr_conn q = c \<and> c \<noteq> 0"
    proof (cases "i = lr_id rec")
      case True
      with c C' [of c i] have "c = lr_conn rec" "c \<noteq> 0" by auto
      with True show ?thesis by simp
    next
      case False
      with c C' [of c i] have "C c i" by simp
      with d(4) obtain s q where s: "I i = Some s" "H s = Some q" "lr_conn q = c" "c \<noteq> 0" by blast
      with I [of i s] False show ?thesis by simp
    qed
  next
    fix i s q assume "(I(lr_id rec := Some n)) i = Some s" "(H(n := Some rec)) s = Some q" "lr_conn q \<noteq> 0"
    then show "C' (lr_conn q) i" using C' d(5) [of i s q] I [of i s] by (auto split: if_splits)
  next
    fix i s q x assume "(I(lr_id rec := Some n)) i = Some s" "(H(n := Some rec)) s = Some q" "lr_revoking q = Some x"
    then show "x < ch" "x \<notin> cl" using d(6) [of i s q x] d(7) [of i s q x] new I [of i s] by (auto split: if_splits)
  next
    fix i s q i' s' q' x
    assume "(I(lr_id rec := Some n)) i = Some s" "(H(n := Some rec)) s = Some q" "(I(lr_id rec := Some n)) i' = Some s'"
      "(H(n := Some rec)) s' = Some q'" "lr_revoking q = Some x" "lr_revoking q' = Some x"
    then show "s = s'" using d(8) [of i s q i' s' q' x] new by (auto split: if_splits)
  next
    fix x assume "x < ch"
    from d(9) [OF this] show "x \<in> cl \<or> (\<exists>i s q. (I(lr_id rec := Some n)) i = Some s \<and> (H(n := Some rec)) s = Some q \<and> lr_revoking q = Some x)"
    proof
      assume "\<exists>i s q. I i = Some s \<and> H s = Some q \<and> lr_revoking q = Some x"
      then obtain i s q where s: "I i = Some s" "H s = Some q" "lr_revoking q = Some x" by blast
      with free I [of i s] have "i \<noteq> lr_id rec" "s \<noteq> n" by auto
      with s show ?thesis by (intro disjI2 exI [of _ i] exI [of _ s] exI [of _ q]) simp
    qed simp
  qed (rule d(10))
qed

section \<open>Live references\<close>

definition live_ref :: "leaseManager \<Rightarrow> nat \<Rightarrow> leaseRecord \<Rightarrow> bool" where
  "live_ref m r rec \<longleftrightarrow> rec_of m r = Some rec \<and> map_of (lm_byID m) (lr_id rec) = Some r"

lemma lease_okD:
  assumes "lease_ok m"
  shows "lease_view (map_of (lm_byPath m)) (map_of (lm_byID m)) (map_of (lm_heap m)) (conn_has (lm_byConn m))
     (lm_next m) (lm_chan m) (set (lm_closed m))"
  using assms by (simp only: lease_ok_def)

lemma lease_ok_ids: "lease_ok m \<Longrightarrow> distinct (map fst (lm_byID m))"
  by (simp only: lease_ok_def)

lemma at_path_live:
  assumes "lease_ok m" "at_path m p = Some (r, rec)"
  shows "live_ref m r rec" "lr_path rec = p" "map_of (lm_byPath m) p = Some r"
  using lease_viewD(2) [OF lease_okD [OF assms(1)], of p] assms(2)
  by (auto simp: at_path_def live_ref_def rec_of_def split: option.splits)

lemma with_id_live:
  assumes "lease_ok m" "with_id m i = Some (r, rec)"
  shows "live_ref m r rec" "lr_id rec = i"
  using lease_viewD(3) [OF lease_okD [OF assms(1)], of i] assms(2)
  by (auto simp: with_id_def live_ref_def rec_of_def split: option.splits)

lemma live_with_id: "live_ref m r rec \<Longrightarrow> with_id m (lr_id rec) = Some (r, rec)"
  by (simp add: live_ref_def with_id_def)

lemma live_path:
  assumes "lease_ok m" "live_ref m r rec"
  shows "map_of (lm_byPath m) (lr_path rec) = Some r"
  using lease_viewD(3) [OF lease_okD [OF assms(1)], of "lr_id rec" r] assms(2) by (auto simp: live_ref_def rec_of_def)

lemma live_at_path:
  assumes "lease_ok m" "live_ref m r rec"
  shows "at_path m (lr_path rec) = Some (r, rec)"
  using live_path [OF assms] assms(2) by (simp add: at_path_def live_ref_def)

lemma leases_iff: "lease_ok m \<Longrightarrow> leases m p = Some rec \<longleftrightarrow> (\<exists>r. live_ref m r rec \<and> lr_path rec = p)"
proof
  assume ok: "lease_ok m" and "leases m p = Some rec"
  then obtain r where r: "at_path m p = Some (r, rec)" unfolding leases_def by (cases "at_path m p") auto
  from at_path_live [OF ok r] show "\<exists>r. live_ref m r rec \<and> lr_path rec = p" by blast
next
  assume ok: "lease_ok m" and "\<exists>r. live_ref m r rec \<and> lr_path rec = p"
  then obtain r where "live_ref m r rec" "lr_path rec = p" by blast
  with live_at_path [OF ok] show "leases m p = Some rec" unfolding leases_def by auto
qed

lemma audit_frame [simp]:
  "lease_ok (recordAudit e h p i mo re m) \<longleftrightarrow> lease_ok m" "leases (recordAudit e h p i mo re m) = leases m"
  "at_path (recordAudit e h p i mo re m) q = at_path m q" "with_id (recordAudit e h p i mo re m) j = with_id m j"
  "rec_of (recordAudit e h p i mo re m) r = rec_of m r" "live_ref (recordAudit e h p i mo re m) r rec \<longleftrightarrow> live_ref m r rec"
  "lm_cfg (recordAudit e h p i mo re m) = lm_cfg m" "lm_byID (recordAudit e h p i mo re m) = lm_byID m"
  "lm_byConn (recordAudit e h p i mo re m) = lm_byConn m" "lm_byPath (recordAudit e h p i mo re m) = lm_byPath m"
  "lm_chan (recordAudit e h p i mo re m) = lm_chan m" "lm_closed (recordAudit e h p i mo re m) = lm_closed m"
  "removeLocked r (recordAudit e h p i mo re m) = recordAudit e h p i mo re (removeLocked r m)"
  by (simp_all add: recordAudit_def lease_ok_def leases_def fun_eq_iff at_path_def with_id_def rec_of_def live_ref_def
        removeLocked_def set_rec_def split: option.split)

section \<open>The primitive updates\<close>

lemma removeLocked_ok:
  assumes ok: "lease_ok m" and r: "live_ref m r rec"
  shows "lease_ok (removeLocked r m)"
proof -
  have H: "map_of (lm_heap m) r = Some rec" "map_of (lm_byID m) (lr_id rec) = Some r" using r by (simp_all add: live_ref_def rec_of_def)
  have "conn_has (conn_del (lr_conn rec) (lr_id rec) (lm_byConn m)) =
      (\<lambda>c i. conn_has (lm_byConn m) c i \<and> \<not> (c = lr_conn rec \<and> i = lr_id rec))" by (simp add: fun_eq_iff)
  then show ?thesis
    using remove_view [OF lease_okD [OF ok] H] H live_path [OF ok r] lease_ok_ids [OF ok]
    by (simp add: lease_ok_def distinct_delete removeLocked_def set_rec_def rec_of_def update_conv' delete_conv' split: option.splits)
qed

lemma removeLocked_live:
  assumes ok: "lease_ok m" and r: "live_ref m r rec"
  shows "live_ref (removeLocked r m) s q \<longleftrightarrow> live_ref m s q \<and> s \<noteq> r"
proof -
  have "s = r \<longleftrightarrow> lr_id q = lr_id rec" if "live_ref m s q" using that r by (auto simp: live_ref_def)
  with r show ?thesis
    by (auto simp: live_ref_def removeLocked_def set_rec_def rec_of_def update_conv' delete_conv')
qed

lemma removeLocked_leases:
  assumes ok: "lease_ok m" and r: "live_ref m r rec"
  shows "leases (removeLocked r m) = (leases m)(lr_path rec := None)"
proof (rule ext)
  fix p
  show "leases (removeLocked r m) p = ((leases m)(lr_path rec := None)) p"
  proof (cases "leases (removeLocked r m) p")
    case None
    show ?thesis
    proof (cases "leases m p")
      case (Some q)
      then obtain s where s: "live_ref m s q" "lr_path q = p" using leases_iff [OF ok, of p q] by blast
      then have "s = r" using None leases_iff [OF removeLocked_ok [OF ok r], of p q] removeLocked_live [OF ok r, of s q] by auto
      with s r have "q = rec" by (simp add: live_ref_def)
      with s None show ?thesis by simp
    qed (simp add: None)
  next
    case (Some q)
    with leases_iff [OF removeLocked_ok [OF ok r]] removeLocked_live [OF ok r]
    obtain s where s: "live_ref m s q" "s \<noteq> r" "lr_path q = p" by blast
    with live_path [OF ok s(1)] live_path [OF ok r] have "p \<noteq> lr_path rec" by auto
    with Some s leases_iff [OF ok, of p q] show ?thesis by auto
  qed
qed

text \<open>A change of one record in place, with the connection index and the channel counter brought along.\<close>

lemma update_lease:
  assumes ok: "lease_ok m" and r: "live_ref m r rec"
    and same: "lr_id rec' = lr_id rec" "lr_path rec' = lr_path rec" and conn: "lr_conn rec' \<noteq> 0 \<or> lr_conn rec' = lr_conn rec"
    and rv: "lr_revoking rec' = lr_revoking rec \<and> lm_chan m' = lm_chan m
      \<or> lr_revoking rec = None \<and> lr_revoking rec' = Some (lm_chan m) \<and> lm_chan m' = Suc (lm_chan m)"
    and bc: "lr_conn rec' = lr_conn rec \<and> lm_byConn m' = lm_byConn m
      \<or> lr_conn rec' \<noteq> 0 \<and> lm_byConn m' = conn_add (lr_conn rec') (lr_id rec) (conn_del (lr_conn rec) (lr_id rec) (lm_byConn m))
      \<or> lr_conn rec = 0 \<and> lr_conn rec' \<noteq> 0 \<and> lm_byConn m' = conn_add (lr_conn rec') (lr_id rec) (lm_byConn m)"
    and m': "lm_heap m' = AList.update r rec' (lm_heap m)" "lm_byID m' = lm_byID m" "lm_byPath m' = lm_byPath m"
      "lm_next m' = lm_next m" "lm_closed m' = lm_closed m"
  shows "lease_ok m'" "leases m' = (leases m)(lr_path rec \<mapsto> rec')"
proof -
  note d = lease_viewD [OF lease_okD [OF ok]]
  have H: "map_of (lm_heap m) r = Some rec" "map_of (lm_byID m) (lr_id rec) = Some r" using r by (simp_all add: live_ref_def rec_of_def)
  have old: "conn_has (lm_byConn m) c (lr_id rec) \<longleftrightarrow> c = lr_conn rec \<and> c \<noteq> 0" for c
    using d(4) [of c "lr_id rec"] d(5) [OF H(2) H(1)] H by auto
  have C: "conn_has (lm_byConn m') c j \<longleftrightarrow> (if j = lr_id rec then c = lr_conn rec' \<and> c \<noteq> 0 else conn_has (lm_byConn m) c j)" for c j
  proof (cases "lm_byConn m' = lm_byConn m \<and> lr_conn rec' = lr_conn rec")
    case True
    then show ?thesis using old [of c] by simp
  next
    case False
    with bc consider
      "lr_conn rec' \<noteq> 0" "lm_byConn m' = conn_add (lr_conn rec') (lr_id rec) (conn_del (lr_conn rec) (lr_id rec) (lm_byConn m))"
      | "lr_conn rec = 0" "lr_conn rec' \<noteq> 0" "lm_byConn m' = conn_add (lr_conn rec') (lr_id rec) (lm_byConn m)" by auto
    then show ?thesis using old [of c] by cases auto
  qed
  from update_view [OF lease_okD [OF ok] H same conn rv C]
  show "lease_ok m'" using lease_ok_ids [OF ok] by (simp add: lease_ok_def m' update_conv')
  show "leases m' = (leases m)(lr_path rec \<mapsto> rec')"
  proof (rule ext)
    fix p
    have P: "map_of (lm_byPath m) (lr_path rec) = Some r" by (rule live_path [OF ok r])
    have "s \<noteq> r" if "map_of (lm_byPath m) p = Some s" "p \<noteq> lr_path rec" for s using d(2) [OF that(1)] that(2) H by auto
    with P show "leases m' p = ((leases m)(lr_path rec \<mapsto> rec')) p"
      by (cases "map_of (lm_byPath m) p") (auto simp: leases_def at_path_def rec_of_def m' update_conv')
  qed
qed

lemma installLocked_ok:
  assumes ok: "lease_ok m" and free: "at_path m path = None" "with_id m i = None" and conn: "conn \<noteq> 0"
  shows "lease_ok (snd (installLocked now i holder conn path mode m))"
    "leases (snd (installLocked now i holder conn path mode m)) = (leases m)(path \<mapsto>
       \<lparr> lr_id = i, lr_path = path, lr_mode = mode, lr_holder = holder, lr_conn = conn, lr_granted = now,
         lr_expires = now + lc_ttl (lm_cfg m), lr_revoking = None \<rparr>)"
proof -
  note d = lease_viewD [OF lease_okD [OF ok]]
  let ?rec = "\<lparr> lr_id = i, lr_path = path, lr_mode = mode, lr_holder = holder, lr_conn = conn, lr_granted = now,
         lr_expires = now + lc_ttl (lm_cfg m), lr_revoking = None \<rparr>"
  have P: "map_of (lm_byPath m) path = None"
    using free(1) d(2) [of path] by (cases "map_of (lm_byPath m) path") (auto simp: at_path_def rec_of_def)
  have I: "map_of (lm_byID m) i = None"
    using free(2) d(3) [of i] by (cases "map_of (lm_byID m) i") (auto simp: with_id_def rec_of_def)
  have C: "conn_has (conn_add conn i (lm_byConn m)) c j \<longleftrightarrow> (if j = lr_id ?rec then c = lr_conn ?rec \<and> c \<noteq> 0 else conn_has (lm_byConn m) c j)" for c j
    using d(4) [of c i] I conn by auto
  from install_view [where C' = "conn_has (conn_add conn i (lm_byConn m))", OF lease_okD [OF ok], of ?rec, OF _ _ _ C] P I
  show "lease_ok (snd (installLocked now i holder conn path mode m))"
    using lease_ok_ids [OF ok] by (simp add: lease_ok_def installLocked_def Let_def set_rec_def update_conv' distinct_update)
  show "leases (snd (installLocked now i holder conn path mode m)) = (leases m)(path \<mapsto> ?rec)"
  proof (rule ext)
    fix p
    have "s \<noteq> lm_next m" if "map_of (lm_byPath m) p = Some s" for s using d(2) [OF that] d(1) [of s] by auto
    then show "leases (snd (installLocked now i holder conn path mode m)) p = ((leases m)(path \<mapsto> ?rec)) p"
      by (cases "map_of (lm_byPath m) p")
         (auto simp: leases_def at_path_def rec_of_def installLocked_def Let_def set_rec_def update_conv')
  qed
qed

section \<open>Removing many leases\<close>

definition keep_leases :: "(leaseRecord \<Rightarrow> bool) \<Rightarrow> (string \<Rightarrow> leaseRecord option) \<Rightarrow> string \<Rightarrow> leaseRecord option" where
  "keep_leases P l p = (case l p of None \<Rightarrow> None | Some rec \<Rightarrow> if P rec then Some rec else None)"

lemma leases_keep:
  assumes "lease_ok m" "lease_ok m'" "\<And>s q. live_ref m' s q \<longleftrightarrow> live_ref m s q \<and> P q"
  shows "leases m' = keep_leases P (leases m)"
proof (rule ext)
  fix p
  have key: "leases m' p = Some q \<longleftrightarrow> leases m p = Some q \<and> P q" for q
    unfolding leases_iff [OF assms(1)] leases_iff [OF assms(2)] assms(3) by blast
  show "leases m' p = keep_leases P (leases m) p"
  proof (cases "leases m' p")
    case (Some q)
    with key [of q] show ?thesis by (simp add: keep_leases_def)
  next
    case None
    with key show ?thesis by (simp add: keep_leases_def split: option.split)
  qed
qed

lemma remove_with_audit_ok:
  assumes "lease_ok m" "live_ref m r rec"
  shows "lease_ok (remove_with_audit e re r m)" "live_ref (remove_with_audit e re r m) s q \<longleftrightarrow> live_ref m s q \<and> s \<noteq> r"
proof -
  have "rec_of m r = Some rec" using assms(2) by (simp add: live_ref_def)
  then show "lease_ok (remove_with_audit e re r m)" "live_ref (remove_with_audit e re r m) s q \<longleftrightarrow> live_ref m s q \<and> s \<noteq> r"
    using removeLocked_ok [OF assms] removeLocked_live [OF assms] by (simp_all add: remove_with_audit_def)
qed

lemma fold_remove_refs:
  assumes "lease_ok m" "\<And>r. r \<in> set refs \<Longrightarrow> \<exists>rec. live_ref m r rec" "distinct refs"
  shows "lease_ok (fold (remove_with_audit e re) refs m) \<and>
    (\<forall>s q. live_ref (fold (remove_with_audit e re) refs m) s q \<longleftrightarrow> live_ref m s q \<and> s \<notin> set refs)"
  using assms
proof (induction refs arbitrary: m)
  case (Cons r refs)
  from Cons.prems obtain rec where r: "live_ref m r rec" by auto
  note step = remove_with_audit_ok [OF Cons.prems(1) r, of e re]
  have "\<exists>rec. live_ref (remove_with_audit e re r m) s rec" if "s \<in> set refs" for s
  proof -
    have "s \<noteq> r" "s \<in> set (r # refs)" using that Cons.prems(3) by auto
    with Cons.prems(2) [of s] step(2) show ?thesis by blast
  qed
  from Cons.IH [OF step(1) this] Cons.prems(3) step(2) show ?case by auto
qed simp

lemma fold_remove_ids:
  assumes "lease_ok m"
  shows "lease_ok (fold (\<lambda>i m'. case with_id m' i of None \<Rightarrow> m' | Some (r, _) \<Rightarrow> remove_with_audit e re r m') ids m) \<and>
    (\<forall>s q. live_ref (fold (\<lambda>i m'. case with_id m' i of None \<Rightarrow> m' | Some (r, _) \<Rightarrow> remove_with_audit e re r m') ids m) s q
       \<longleftrightarrow> live_ref m s q \<and> lr_id q \<notin> set ids)"
  using assms
proof (induction ids arbitrary: m)
  case (Cons i ids)
  show ?case
  proof (cases "with_id m i")
    case None
    then have "lr_id q \<noteq> i" if "live_ref m s q" for s q using live_with_id [OF that] by auto
    with None Cons.IH [OF Cons.prems] show ?thesis by auto
  next
    case (Some x)
    obtain r rec where x: "with_id m i = Some (r, rec)" using Some by (cases x) auto
    note l = with_id_live [OF Cons.prems x]
    have "s = r \<longleftrightarrow> lr_id q = i" if "live_ref m s q" for s q using that l by (auto simp: live_ref_def)
    with x Cons.IH [OF remove_with_audit_ok(1) [OF Cons.prems l(1), of e re]] remove_with_audit_ok(2) [OF Cons.prems l(1), of e re]
    show ?thesis by auto
  qed
qed simp

lemma ReleaseAllForConn_ok:
  assumes ok: "lease_ok m" and c: "conn \<noteq> 0"
  shows "lease_ok (ReleaseAllForConn conn m)" "leases (ReleaseAllForConn conn m) = keep_leases (\<lambda>rec. lr_conn rec \<noteq> conn) (leases m)"
proof -
  let ?ids = "case map_of (lm_byConn m) conn of None \<Rightarrow> [] | Some s \<Rightarrow> s"
  note f = fold_remove_ids [OF ok, of "''lease_release''" "''conn_closed''" ?ids]
  show ok': "lease_ok (ReleaseAllForConn conn m)" using f by (simp add: ReleaseAllForConn_def Let_def)
  have ids: "i \<in> set ?ids \<longleftrightarrow> conn_has (lm_byConn m) conn i" for i
    by (cases "map_of (lm_byConn m) conn") (simp_all add: conn_has_def)
  note d = lease_viewD [OF lease_okD [OF ok]]
  have "lr_id q \<in> set ?ids \<longleftrightarrow> lr_conn q = conn" if "live_ref m s q" for s q
    using that d(4) [of conn "lr_id q"] d(5) [of "lr_id q" s q] c unfolding ids by (auto simp: live_ref_def rec_of_def)
  then have "live_ref (ReleaseAllForConn conn m) s q \<longleftrightarrow> live_ref m s q \<and> lr_conn q \<noteq> conn" for s q
    using conjunct2 [OF f] unfolding ReleaseAllForConn_def Let_def by blast
  from leases_keep [OF ok ok' this]
  show "leases (ReleaseAllForConn conn m) = keep_leases (\<lambda>rec. lr_conn rec \<noteq> conn) (leases m)" .
qed

lemma live_refs:
  assumes ok: "lease_ok m"
  shows "r \<in> set (map snd (lm_byID m)) \<longleftrightarrow> (\<exists>rec. live_ref m r rec)"
proof
  assume "r \<in> set (map snd (lm_byID m))"
  then obtain i where "(i, r) \<in> set (lm_byID m)" by auto
  then have i: "map_of (lm_byID m) i = Some r" using lease_ok_ids [OF ok] by simp
  from lease_viewD(3) [OF lease_okD [OF ok] i] i show "\<exists>rec. live_ref m r rec" by (auto simp: live_ref_def rec_of_def)
next
  assume "\<exists>rec. live_ref m r rec"
  then obtain rec where "live_ref m r rec" by blast
  then have "map_of (lm_byID m) (lr_id rec) = Some r" by (simp add: live_ref_def)
  from map_of_SomeD [OF this] show "r \<in> set (map snd (lm_byID m))" by force
qed

lemma SweepExpired_ok:
  assumes ok: "lease_ok m"
  shows "lease_ok (snd (SweepExpired now m))"
    "leases (snd (SweepExpired now m)) = keep_leases (\<lambda>rec. lr_revoking rec \<noteq> None \<or> now < lr_expires rec) (leases m)"
proof -
  let ?refs = "filter (sweepable now m) (remdups (map snd (lm_byID m)))"
  have "\<exists>rec. live_ref m r rec" if "r \<in> set ?refs" for r using that live_refs [OF ok, of r] by simp
  note f = fold_remove_refs [OF ok this, of ?refs "''lease_violation''" "''expired''"]
  have f: "lease_ok (snd (SweepExpired now m))" "live_ref (snd (SweepExpired now m)) s q \<longleftrightarrow> live_ref m s q \<and> s \<notin> set ?refs" for s q
    using f unfolding SweepExpired_def Let_def by simp_all
  show "lease_ok (snd (SweepExpired now m))" by (rule f)
  have key: "s \<in> set ?refs \<longleftrightarrow> lr_revoking q = None \<and> \<not> now < lr_expires q" if "live_ref m s q" for s q
  proof -
    have "s \<in> set (map snd (lm_byID m))" using live_refs [OF ok, of s] that by blast
    moreover have "sweepable now m s \<longleftrightarrow> lr_revoking q = None \<and> \<not> now < lr_expires q" using that by (simp add: sweepable_def live_ref_def)
    ultimately show ?thesis by simp
  qed
  have "live_ref (snd (SweepExpired now m)) s q \<longleftrightarrow> live_ref m s q \<and> (lr_revoking q \<noteq> None \<or> now < lr_expires q)" for s q
    unfolding f(2) by (cases "live_ref m s q") (simp_all only: key, simp_all)
  from leases_keep [OF ok f(1) this]
  show "leases (snd (SweepExpired now m)) = keep_leases (\<lambda>rec. lr_revoking rec \<noteq> None \<or> now < lr_expires rec) (leases m)" .
qed

end
