(* ===== verification/Lease_Props.thy ===== *)
theory Lease_Props
  imports Lease_Laws
begin

text \<open>
  What the lease manager promises. Its states are those reached from an empty manager by any
  interleaving of the critical sections of its operations and by restarts from a snapshot. The
  properties are that a path has one lease and no waiter is left behind, what each way of losing a
  lease does to the map of leases, when \<^verbatim>\<open>Grant\<close> returns, and what a restart keeps.
\<close>

section \<open>The sections keep the invariant\<close>

lemma with_id_None: "lease_ok m \<Longrightarrow> with_id m i = None \<longleftrightarrow> (\<forall>r rec. live_ref m r rec \<longrightarrow> lr_id rec \<noteq> i)"
proof
  assume ok: "lease_ok m" and n: "with_id m i = None"
  show "\<forall>r rec. live_ref m r rec \<longrightarrow> lr_id rec \<noteq> i" using live_with_id n by fastforce
next
  assume ok: "lease_ok m" and n: "\<forall>r rec. live_ref m r rec \<longrightarrow> lr_id rec \<noteq> i"
  show "with_id m i = None"
  proof (cases "with_id m i")
    case (Some x)
    then obtain r rec where "with_id m i = Some (r, rec)" by (cases x) auto
    from with_id_live [OF ok this] n show ?thesis by blast
  qed
qed

lemma at_path_None: "lease_ok m \<Longrightarrow> at_path m p = None \<longleftrightarrow> leases m p = None"
  by (simp add: leases_def)

lemma yield_turn_ok:
  assumes ok: "lease_ok m"
  shows "lease_ok (snd (yield_turn now requester path reason m))"
proof (cases "at_path m path")
  case None
  then show ?thesis using ok by (simp add: yield_turn_def)
next
  case (Some x)
  obtain r rec where x: "at_path m path = Some (r, rec)" using Some by (cases x) auto
  have "lease_ok ((set_rec r (rec\<lparr>lr_revoking := Some (lm_chan m)\<rparr>) m)\<lparr>lm_chan := Suc (lm_chan m)\<rparr>)" if "lr_revoking rec = None"
    by (rule update_lease(1) [OF ok at_path_live(1) [OF ok x]]) (simp_all add: that set_rec_def)
  with x ok show ?thesis by (simp add: yield_turn_def Let_def split: option.split)
qed

lemma yield_timeout_ok:
  assumes ok: "lease_ok m"
  shows "lease_ok (yield_timeout path r m)"
proof (cases "at_path m path")
  case None
  then show ?thesis using ok by (simp add: yield_timeout_def)
next
  case (Some x)
  obtain cur rec where x: "at_path m path = Some (cur, rec)" using Some by (cases x) auto
  from removeLocked_ok [OF ok at_path_live(1) [OF ok x]] x ok show ?thesis by (cases "cur = r") (simp_all add: yield_timeout_def)
qed

lemma grant_turn_ok:
  assumes ok: "lease_ok m" and i: "with_id m i = None" and c: "conn \<noteq> 0"
  shows "lease_ok (snd (grant_turn now i holder conn path mode m))"
proof (cases "at_path m path")
  case None
  from installLocked_ok(1) [OF ok None i c] None show ?thesis by (simp add: grant_turn_def split_def Let_def)
next
  case (Some x)
  obtain r rec where x: "at_path m path = Some (r, rec)" using Some by (cases x) auto
  note l = at_path_live [OF ok x]
  let ?rec = "rec\<lparr>lr_conn := conn, lr_expires := now + lc_ttl (lm_cfg m)\<rparr>"
  note upd = update_lease(1) [OF ok l(1), where rec' = ?rec]
  have same: "lease_ok (set_rec r ?rec m)" if "lr_conn rec = conn"
    by (rule upd) (simp_all add: that set_rec_def)
  have rebind: "lease_ok (set_rec r ?rec (m\<lparr>lm_byConn := conn_add conn (lr_id rec) (lm_byConn m)\<rparr>))" if "lr_conn rec = 0"
    by (rule upd) (simp_all add: that set_rec_def c)
  have takeover: "lease_ok (snd (installLocked now i holder conn path mode (removeLocked r m)))"
  proof (rule installLocked_ok(1) [OF removeLocked_ok [OF ok l(1)] _ _ c])
    show "at_path (removeLocked r m) path = None"
      using removeLocked_leases [OF ok l(1)] l(2) by (simp add: at_path_None [OF removeLocked_ok [OF ok l(1)]])
    show "with_id (removeLocked r m) i = None"
      using i unfolding with_id_None [OF ok] with_id_None [OF removeLocked_ok [OF ok l(1)]] removeLocked_live [OF ok l(1)] by blast
  qed
  consider "lr_conn rec = conn" | "lr_conn rec = 0" "lr_conn rec \<noteq> conn" | "lr_conn rec \<noteq> conn" "lr_conn rec \<noteq> 0" by blast
  then show ?thesis
  proof cases
    case 1
    with same x ok show ?thesis by (simp add: grant_turn_def Let_def)
  next
    case 2
    with rebind x ok show ?thesis by (simp add: grant_turn_def Let_def)
  next
    case 3
    with takeover x ok show ?thesis by (simp add: grant_turn_def split_def Let_def)
  qed
qed

lemma AuthorizeOrRebindSession_ok:
  assumes ok: "lease_ok m" and c: "conn \<noteq> 0"
  shows "lease_ok (snd (AuthorizeOrRebindSession now i holder conn m))"
proof (cases "with_id m i")
  case None
  then show ?thesis using ok by (simp add: AuthorizeOrRebindSession_def)
next
  case (Some x)
  obtain r rec where x: "with_id m i = Some (r, rec)" using Some by (cases x) auto
  have "lease_ok ((set_rec r (rec\<lparr>lr_conn := conn\<rparr>) m)
      \<lparr>lm_byConn := conn_add conn (lr_id rec) (conn_del (lr_conn rec) (lr_id rec) (lm_byConn m))\<rparr>)"
    by (rule update_lease(1) [OF ok with_id_live(1) [OF ok x], where rec' = "rec\<lparr>lr_conn := conn\<rparr>"]) (simp_all add: c set_rec_def)
  with x ok show ?thesis by (simp add: AuthorizeOrRebindSession_def)
qed

lemma Refresh_ok:
  assumes ok: "lease_ok m"
  shows "lease_ok (snd (Refresh now bs conn m))"
proof (cases "lease_key bs")
  case None
  then show ?thesis using ok by (simp add: Refresh_def)
next
  case key: (Some key)
  show ?thesis
  proof (cases "with_id m key")
    case None
    then show ?thesis using ok key by (simp add: Refresh_def)
  next
    case (Some x)
    obtain r rec where x: "with_id m key = Some (r, rec)" using Some by (cases x) auto
    have "lease_ok (set_rec r (rec\<lparr>lr_expires := now + lc_ttl (lm_cfg m)\<rparr>) m)"
      by (rule update_lease(1) [OF ok with_id_live(1) [OF ok x], where rec' = "rec\<lparr>lr_expires := now + lc_ttl (lm_cfg m)\<rparr>"])
        (simp_all add: set_rec_def)
    with x ok key show ?thesis by (simp add: Refresh_def Let_def)
  qed
qed

lemma Release_cases:
  assumes ok: "lease_ok m"
  obtains "Release bs conn m = (False, m)" | r rec where "lease_key bs = Some (lr_id rec)" "live_ref m r rec" "owned_by conn rec"
    "fst (Release bs conn m)" "leases (snd (Release bs conn m)) = (leases m)(lr_path rec := None)" "lease_ok (snd (Release bs conn m))"
proof (cases "\<exists>key r rec. lease_key bs = Some key \<and> with_id m key = Some (r, rec) \<and> owned_by conn rec")
  case False
  then show thesis by (intro that(1)) (auto simp: Release_def split: option.split)
next
  case True
  then obtain key r rec where x: "lease_key bs = Some key" "with_id m key = Some (r, rec)" "owned_by conn rec" by blast
  note l = with_id_live [OF ok x(2)]
  from x l removeLocked_ok [OF ok l(1)] removeLocked_leases [OF ok l(1)] show thesis
    by (intro that(2) [of rec r]) (simp_all add: Release_def)
qed

section \<open>Restoring a snapshot\<close>

definition restored_rec :: "lease_row \<Rightarrow> leaseRecord" where
  "restored_rec row = \<lparr> lr_id = ls_id row, lr_path = ls_path row, lr_mode = ls_mode row, lr_holder = ls_holder row, lr_conn = 0,
     lr_granted = ls_granted_ms row * 1000000, lr_expires = ls_expires_ms row * 1000000, lr_revoking = None \<rparr>"

lemma restore_row_ok:
  assumes ok: "lease_ok m" and free: "leases m (ls_path row) = None" "with_id m (ls_id row) = None"
  shows "lease_ok (restore_row row m)" "leases (restore_row row m) = (leases m)(ls_path row \<mapsto> restored_rec row)"
    "with_id (restore_row row m) i = None \<longleftrightarrow> with_id m i = None \<and> i \<noteq> ls_id row"
proof -
  note d = lease_viewD [OF lease_okD [OF ok]]
  have P: "map_of (lm_byPath m) (ls_path row) = None"
    using free(1) d(2) [of "ls_path row"] by (cases "map_of (lm_byPath m) (ls_path row)") (auto simp: leases_def at_path_def rec_of_def)
  have I: "map_of (lm_byID m) (ls_id row) = None"
    using free(2) d(3) [of "ls_id row"] by (cases "map_of (lm_byID m) (ls_id row)") (auto simp: with_id_def rec_of_def)
  have C: "conn_has (lm_byConn m) c j \<longleftrightarrow> (if j = lr_id (restored_rec row) then c = lr_conn (restored_rec row) \<and> c \<noteq> 0 else conn_has (lm_byConn m) c j)" for c j
    using d(4) [of c "ls_id row"] I by (auto simp: restored_rec_def)
  have R: "restore_row row m = m\<lparr>lm_heap := AList.update (lm_next m) (restored_rec row) (lm_heap m), lm_next := Suc (lm_next m),
      lm_byID := AList.update (ls_id row) (lm_next m) (lm_byID m), lm_byPath := AList.update (ls_path row) (lm_next m) (lm_byPath m)\<rparr>"
    by (simp add: restore_row_def restored_rec_def Let_def set_rec_def)
  have p: "lr_path (restored_rec row) = ls_path row" "lr_id (restored_rec row) = ls_id row" "lr_revoking (restored_rec row) = None"
    by (simp_all add: restored_rec_def)
  from install_view [OF lease_okD [OF ok], of "restored_rec row", OF _ _ _ C] P I lease_ok_ids [OF ok]
  show "lease_ok (restore_row row m)" by (simp add: lease_ok_def R p update_conv' distinct_update)
  show "leases (restore_row row m) = (leases m)(ls_path row \<mapsto> restored_rec row)"
  proof (rule ext)
    fix q
    have "s \<noteq> lm_next m" if "map_of (lm_byPath m) q = Some s" for s using d(2) [OF that] d(1) [of s] by auto
    then show "leases (restore_row row m) q = ((leases m)(ls_path row \<mapsto> restored_rec row)) q"
      by (cases "map_of (lm_byPath m) q") (auto simp: leases_def at_path_def rec_of_def R update_conv')
  qed
  have "s \<noteq> lm_next m" if "map_of (lm_byID m) i = Some s" for s using d(3) [OF that] d(1) [of s] by auto
  then show "with_id (restore_row row m) i = None \<longleftrightarrow> with_id m i = None \<and> i \<noteq> ls_id row"
    by (cases "map_of (lm_byID m) i") (auto simp: with_id_def rec_of_def R update_conv')
qed

lemma fold_restore:
  assumes "lease_ok m" "distinct (map ls_path rows)" "distinct (map ls_id rows)"
    "\<And>row. row \<in> set rows \<Longrightarrow> leases m (ls_path row) = None \<and> with_id m (ls_id row) = None"
  shows "lease_ok (fold restore_row rows m) \<and>
    leases (fold restore_row rows m) = leases m ++ map_of (map (\<lambda>row. (ls_path row, restored_rec row)) rows)"
  using assms
proof (induction rows arbitrary: m)
  case (Cons row rows)
  note step = restore_row_ok [OF Cons.prems(1) conjunct1 [OF Cons.prems(4)] conjunct2 [OF Cons.prems(4)], OF list.set_intros(1) list.set_intros(1)]
  have ne: "ls_path x \<noteq> ls_path row \<and> ls_id x \<noteq> ls_id row" if "x \<in> set rows" for x
    using imageI [OF that, of ls_path] imageI [OF that, of ls_id] Cons.prems(2,3) by auto
  have "leases (restore_row row m) (ls_path x) = None \<and> with_id (restore_row row m) (ls_id x) = None" if "x \<in> set rows" for x
    using ne [OF that] Cons.prems(4) [of x] that by (simp add: step(2,3))
  from Cons.IH [OF step(1) _ _ this] Cons.prems(2,3)
  have IH: "lease_ok (fold restore_row rows (restore_row row m))"
    "leases (fold restore_row rows (restore_row row m)) = leases (restore_row row m) ++ map_of (map (\<lambda>row. (ls_path row, restored_rec row)) rows)"
    by simp_all
  have "map_of (map (\<lambda>row. (ls_path row, restored_rec row)) rows) (ls_path row) = None"
    using Cons.prems(2) by (auto simp: map_of_eq_None_iff image_iff)
  with IH show ?case by (auto simp: step(2) map_add_def fun_eq_iff split: option.split)
qed simp

lemma Snapshot_rows:
  assumes ok: "lease_ok m"
  shows "Snapshot m = map (\<lambda>r. lease_row_of (the (rec_of m r))) (remdups (map snd (lm_byID m)))"
proof -
  have live: "\<exists>rec. rec_of m r = Some rec" if "r \<in> set (remdups (map snd (lm_byID m)))" for r
    using that live_refs [OF ok, of r] by (auto simp: live_ref_def)
  have "filter (\<lambda>r. rec_of m r \<noteq> None) (remdups (map snd (lm_byID m))) = remdups (map snd (lm_byID m))"
    by (rule filter_True) (use live in auto)
  then show ?thesis unfolding Snapshot_def List.map_filter_def by (simp add: comp_def)
qed

lemma Snapshot_distinct:
  assumes ok: "lease_ok m"
  shows "distinct (map ls_path (Snapshot m))" "distinct (map ls_id (Snapshot m))"
proof -
  let ?refs = "remdups (map snd (lm_byID m))"
  have live: "live_ref m r (the (rec_of m r))" if "r \<in> set ?refs" for r
  proof -
    have "r \<in> set (map snd (lm_byID m))" using that by simp
    then obtain rec where rec: "live_ref m r rec" using live_refs [OF ok, of r] by blast
    then have "rec_of m r = Some rec" by (simp add: live_ref_def)
    with rec show ?thesis by simp
  qed
  have "inj_on (\<lambda>r. lr_path (the (rec_of m r))) (set ?refs)"
  proof (rule inj_onI)
    fix r s assume rs: "r \<in> set ?refs" "s \<in> set ?refs" and e: "lr_path (the (rec_of m r)) = lr_path (the (rec_of m s))"
    from trans [OF sym [OF live_path [OF ok live [OF rs(1)]]] trans [OF arg_cong [where f = "map_of (lm_byPath m)", OF e] live_path [OF ok live [OF rs(2)]]]]
    show "r = s" by simp
  qed
  then have "distinct (map (\<lambda>r. lr_path (the (rec_of m r))) ?refs)" unfolding distinct_map by simp
  then show "distinct (map ls_path (Snapshot m))" unfolding Snapshot_rows [OF ok] map_map comp_def lease_row_of_def by simp
  have "inj_on (\<lambda>r. lr_id (the (rec_of m r))) (set ?refs)"
  proof (rule inj_onI)
    fix r s assume rs: "r \<in> set ?refs" "s \<in> set ?refs" and e: "lr_id (the (rec_of m r)) = lr_id (the (rec_of m s))"
    have "map_of (lm_byID m) (lr_id (the (rec_of m x))) = Some x" if "x \<in> set ?refs" for x
      using live [OF that] by (simp only: live_ref_def)
    from trans [OF sym [OF this [OF rs(1)]] trans [OF arg_cong [where f = "map_of (lm_byID m)", OF e] this [OF rs(2)]]] show "r = s" by simp
  qed
  then have "distinct (map (\<lambda>r. lr_id (the (rec_of m r))) ?refs)" unfolding distinct_map by simp
  then show "distinct (map ls_id (Snapshot m))" unfolding Snapshot_rows [OF ok] map_map comp_def lease_row_of_def by simp
qed

lemma Snapshot_set:
  assumes ok: "lease_ok m"
  shows "row \<in> set (Snapshot m) \<longleftrightarrow> (\<exists>r rec. live_ref m r rec \<and> row = lease_row_of rec)"
proof
  assume "row \<in> set (Snapshot m)"
  then obtain r where r: "r \<in> set (map snd (lm_byID m))" "row = lease_row_of (the (rec_of m r))"
    unfolding Snapshot_rows [OF ok] by auto
  then obtain rec where rec: "live_ref m r rec" using live_refs [OF ok, of r] by blast
  then have "rec_of m r = Some rec" by (simp only: live_ref_def)
  with r rec show "\<exists>r rec. live_ref m r rec \<and> row = lease_row_of rec" by auto
next
  assume "\<exists>r rec. live_ref m r rec \<and> row = lease_row_of rec"
  then obtain r rec where r: "live_ref m r rec" "row = lease_row_of rec" by blast
  then have "r \<in> set (map snd (lm_byID m))" using live_refs [OF ok, of r] by blast
  moreover have "rec_of m r = Some rec" using r(1) by (simp only: live_ref_def)
  ultimately show "row \<in> set (Snapshot m)" unfolding Snapshot_rows [OF ok] using r(2) by force
qed

text \<open>What a restart makes of a lease: bound to no connection, no revoke pending, times cut to milliseconds.\<close>

definition restarted :: "int \<Rightarrow> leaseRecord \<Rightarrow> leaseRecord option" where
  "restarted now rec = (if unix_milli now < unix_milli (lr_expires rec)
     then Some (rec\<lparr>lr_conn := 0, lr_granted := unix_milli (lr_granted rec) * 1000000,
                    lr_expires := unix_milli (lr_expires rec) * 1000000, lr_revoking := None\<rparr>) else None)"

lemma restarted_row:
  "restarted now rec = Some q \<longleftrightarrow> unix_milli now < ls_expires_ms (lease_row_of rec) \<and> restored_rec (lease_row_of rec) = q"
  "ls_path (lease_row_of rec) = lr_path rec"
  by (cases rec; simp add: lease_row_of_def restored_rec_def restarted_def)+

lemma Restore_ok:
  assumes ok: "lease_ok m"
  shows "lease_ok (Restore now (Snapshot m) (newLeaseManager cfg))"
    "leases (Restore now (Snapshot m) (newLeaseManager cfg)) p = Option.bind (leases m p) (restarted now)"
proof -
  let ?rows = "filter (\<lambda>row. unix_milli now < ls_expires_ms row) (Snapshot m)"
  have new: "leases (newLeaseManager cfg) = Map.empty" "with_id (newLeaseManager cfg) i = None" for i
    by (simp_all add: newLeaseManager_def leases_def at_path_def with_id_def fun_eq_iff)
  have d: "distinct (map ls_path ?rows)" "distinct (map ls_id ?rows)"
    using Snapshot_distinct [OF ok] by (simp_all add: distinct_map_filter)
  from fold_restore [OF lease_ok_new d] new
  have r: "lease_ok (Restore now (Snapshot m) (newLeaseManager cfg))"
    "leases (Restore now (Snapshot m) (newLeaseManager cfg)) = map_of (map (\<lambda>row. (ls_path row, restored_rec row)) ?rows)"
    by (simp_all add: Restore_def)
  show "lease_ok (Restore now (Snapshot m) (newLeaseManager cfg))" by (rule r)
  have dm: "distinct (map fst (map (\<lambda>row. (ls_path row, restored_rec row)) ?rows))" using d(1) by (simp add: comp_def)
  have iff: "leases (Restore now (Snapshot m) (newLeaseManager cfg)) p = Some q \<longleftrightarrow> (\<exists>rec. leases m p = Some rec \<and> restarted now rec = Some q)" for q
  proof -
    have "leases (Restore now (Snapshot m) (newLeaseManager cfg)) p = Some q \<longleftrightarrow> (\<exists>row\<in>set ?rows. ls_path row = p \<and> restored_rec row = q)"
      unfolding r(2) map_of_eq_Some_iff [OF dm] by auto
    also have "\<dots> \<longleftrightarrow> (\<exists>r rec. live_ref m r rec \<and> lr_path rec = p \<and> restarted now rec = Some q)"
      unfolding set_filter mem_Collect_eq Bex_def Snapshot_set [OF ok] restarted_row(1) using restarted_row(2) by metis
    finally show ?thesis unfolding leases_iff [OF ok] by blast
  qed
  show "leases (Restore now (Snapshot m) (newLeaseManager cfg)) p = Option.bind (leases m p) (restarted now)"
  proof (cases "leases (Restore now (Snapshot m) (newLeaseManager cfg)) p")
    case (Some q)
    with iff [of q] show ?thesis by auto
  next
    case None
    have "Option.bind (leases m p) (restarted now) \<noteq> Some q" for q using None iff [of q] by (simp add: bind_eq_Some_conv)
    with None show ?thesis by (cases "Option.bind (leases m p) (restarted now)") auto
  qed
qed

section \<open>Reachable managers\<close>

text \<open>
  Connection ids are handed out from 1, so 0 is no connection; a fresh id is one no live lease has.
\<close>

inductive lease_reach :: "leaseConfig \<Rightarrow> leaseManager \<Rightarrow> bool" for cfg :: leaseConfig where
  start: "lease_reach cfg (newLeaseManager cfg)"
| yield: "lease_reach cfg m \<Longrightarrow> lease_reach cfg (snd (yield_turn now requester path reason m))"
| timed_out: "lease_reach cfg m \<Longrightarrow> lease_reach cfg (yield_timeout path r m)"
| grant: "lease_reach cfg m \<Longrightarrow> with_id m i = None \<Longrightarrow> conn \<noteq> 0 \<Longrightarrow> lease_reach cfg (snd (grant_turn now i holder conn path mode m))"
| authorize: "lease_reach cfg m \<Longrightarrow> conn \<noteq> 0 \<Longrightarrow> lease_reach cfg (snd (AuthorizeOrRebindSession now i holder conn m))"
| refresh: "lease_reach cfg m \<Longrightarrow> lease_reach cfg (snd (Refresh now bs conn m))"
| release: "lease_reach cfg m \<Longrightarrow> lease_reach cfg (snd (Release bs conn m))"
| sweep: "lease_reach cfg m \<Longrightarrow> lease_reach cfg (snd (SweepExpired now m))"
| conn_closed: "lease_reach cfg m \<Longrightarrow> conn \<noteq> 0 \<Longrightarrow> lease_reach cfg (ReleaseAllForConn conn m)"
| restart: "lease_reach cfg m \<Longrightarrow> lease_reach cfg (Restore now (Snapshot m) (newLeaseManager cfg))"

lemma Release_ok: "lease_ok m \<Longrightarrow> lease_ok (snd (Release bs conn m))"
  by (rule Release_cases [of m bs conn]) simp_all

lemma lease_reach_ok: "lease_reach cfg m \<Longrightarrow> lease_ok m"
  by (induction rule: lease_reach.induct)
     (simp_all only: lease_ok_new yield_turn_ok yield_timeout_ok grant_turn_ok AuthorizeOrRebindSession_ok Refresh_ok Release_ok
        SweepExpired_ok(1) ReleaseAllForConn_ok(1) Restore_ok(1) not_False_eq_True)

text \<open>A small manager: one lease of each mode, the second being revoked.\<close>

definition demo_cfg :: leaseConfig where
  "demo_cfg = \<lparr> lc_ttl = 15000000000, lc_min_hold = 1000000, lc_revoke_timeout = 2000000000 \<rparr>"

definition demo_leases :: leaseManager where
  "demo_leases = snd (yield_turn 5000000 ''h2'' ''/b'' ''contention''
     (snd (grant_turn 0 2 ''h1'' 1 ''/b'' LeaseExclusiveWrite
       (snd (grant_turn 0 1 ''h1'' 1 ''/a'' LeaseSharedRead (newLeaseManager demo_cfg))))))"

lemma demo_leases_reach: "lease_reach demo_cfg demo_leases"
  unfolding demo_leases_def by (intro lease_reach.intros; code_simp)

lemma demo_lease_a:
  "leases demo_leases ''/a'' = Some \<lparr> lr_id = 1, lr_path = ''/a'', lr_mode = LeaseSharedRead, lr_holder = ''h1'', lr_conn = 1, lr_granted = 0,
     lr_expires = 15000000000, lr_revoking = None \<rparr>"
  by code_simp

lemma demo_channel: "0 < lm_chan demo_leases" "0 \<notin> set (lm_closed demo_leases)"
  by code_simp+

lemma Release_leases:
  assumes ok: "lease_ok m"
  shows "leases (snd (Release bs conn m)) = keep_leases (\<lambda>rec. \<not> (lease_key bs = Some (lr_id rec) \<and> owned_by conn rec)) (leases m)"
proof (cases "\<exists>key r rec. lease_key bs = Some key \<and> with_id m key = Some (r, rec) \<and> owned_by conn rec")
  case False
  have "\<not> (lease_key bs = Some (lr_id q) \<and> owned_by conn q)" if "live_ref m s q" for s q
    using False live_with_id [OF that] by blast
  then have "leases m = keep_leases (\<lambda>rec. \<not> (lease_key bs = Some (lr_id rec) \<and> owned_by conn rec)) (leases m)"
    by (intro leases_keep [OF ok ok]) blast
  with False show ?thesis by (auto simp: Release_def split: option.split)
next
  case True
  then obtain key r rec where x: "lease_key bs = Some key" "with_id m key = Some (r, rec)" "owned_by conn rec" by blast
  note l = with_id_live [OF ok x(2)]
  have "s \<noteq> r \<longleftrightarrow> \<not> (lease_key bs = Some (lr_id q) \<and> owned_by conn q)" if "live_ref m s q" for s q
    using that l x by (auto simp: live_ref_def)
  then have "live_ref (removeLocked r m) s q \<longleftrightarrow> live_ref m s q \<and> \<not> (lease_key bs = Some (lr_id q) \<and> owned_by conn q)" for s q
    unfolding removeLocked_live [OF ok l(1)] by blast
  from leases_keep [OF ok removeLocked_ok [OF ok l(1)] this] x show ?thesis by (simp add: Release_def)
qed

section \<open>Properties\<close>

text \<open>
  C23. In every reachable manager two live lease ids never name the same path, and every channel a
  caller may be waiting on has been closed or belongs to a lease that is still held, so whoever
  removes that lease wakes the waiter.
\<close>

theorem lease_exclusive:
  assumes "lease_reach cfg m"
  shows "(with_id m i = Some (r, rec) \<and> with_id m j = Some (s, q) \<and> lr_path rec = lr_path q \<longrightarrow> i = j \<and> r = s) \<and>
    (ch < lm_chan m \<longrightarrow> ch \<in> set (lm_closed m) \<or> (\<exists>p rec. leases m p = Some rec \<and> lr_revoking rec = Some ch))"
proof (intro conjI impI)
  note ok = lease_reach_ok [OF assms]
  show "i = j" "r = s" if "with_id m i = Some (r, rec) \<and> with_id m j = Some (s, q) \<and> lr_path rec = lr_path q"
  proof -
    from that have w: "with_id m i = Some (r, rec)" "with_id m j = Some (s, q)" and p: "lr_path rec = lr_path q" by simp_all
    note l = with_id_live [OF ok w(1)] with_id_live [OF ok w(2)]
    have "Some (r, rec) = Some (s, q)"
      using live_at_path [OF ok l(1)] live_at_path [OF ok l(3)] unfolding p by (rule trans [OF sym])
    then have e: "r = s" "rec = q" by simp_all
    show "r = s" by (rule e)
    show "i = j" using l(2,4) e(2) by simp
  qed
  show "ch \<in> set (lm_closed m) \<or> (\<exists>p rec. leases m p = Some rec \<and> lr_revoking rec = Some ch)" if "ch < lm_chan m"
  proof (cases "ch \<in> set (lm_closed m)")
    case False
    with lease_viewD(9) [OF lease_okD [OF ok] that] obtain k t p
      where t: "map_of (lm_byID m) k = Some t" "map_of (lm_heap m) t = Some p" "lr_revoking p = Some ch" by blast
    with lease_viewD(3) [OF lease_okD [OF ok] t(1)] have "live_ref m t p" by (auto simp: live_ref_def rec_of_def)
    with t(3) leases_iff [OF ok, of "lr_path p" p] show ?thesis by blast
  qed simp
qed

theorem lease_exclusive_witness:
  "with_id demo_leases 1 \<noteq> None \<and> with_id demo_leases 2 \<noteq> None \<and>
   (\<exists>p rec. leases demo_leases p = Some rec \<and> lr_revoking rec = Some 0)"
proof (intro conjI)
  show "\<exists>p rec. leases demo_leases p = Some rec \<and> lr_revoking rec = Some 0"
    using conjunct2 [OF lease_exclusive [OF demo_leases_reach, where ch = 0]] demo_channel by blast
qed code_simp+

text \<open>
  C24. The three ways of giving up leases, as operations on the map of leases: \<^verbatim>\<open>Release\<close> drops the
  lease with that id when the connection owns it, \<^verbatim>\<open>ReleaseAllForConn\<close> drops exactly the leases of
  that connection, and \<^verbatim>\<open>SweepExpired\<close> drops exactly the expired leases that no revoke is pending
  for. A lease whose revoke was pushed and then abandoned is therefore never swept.
\<close>

theorem lease_loss_exact:
  assumes "lease_reach cfg m" "conn \<noteq> 0"
  shows "leases (snd (Release bs conn m)) = keep_leases (\<lambda>rec. \<not> (lease_key bs = Some (lr_id rec) \<and> owned_by conn rec)) (leases m) \<and>
    leases (ReleaseAllForConn conn m) = keep_leases (\<lambda>rec. lr_conn rec \<noteq> conn) (leases m) \<and>
    leases (snd (SweepExpired now m)) = keep_leases (\<lambda>rec. lr_revoking rec \<noteq> None \<or> now < lr_expires rec) (leases m)"
  using Release_leases [OF lease_reach_ok [OF assms(1)]] ReleaseAllForConn_ok(2) [OF lease_reach_ok [OF assms(1)] assms(2)]
    SweepExpired_ok(2) [OF lease_reach_ok [OF assms(1)]]
  by simp

theorem lease_loss_exact_witness:
  "leases (snd (SweepExpired 99000000000 demo_leases)) ''/a'' = None \<and> leases (snd (SweepExpired 99000000000 demo_leases)) ''/b'' \<noteq> None"
  unfolding lease_loss_exact [OF demo_leases_reach one_neq_zero, THEN conjunct2, THEN conjunct2] by code_simp

text \<open>
  C25. A restart from a snapshot keeps exactly the leases that had not expired, each on its path with
  its id, mode and holder, bound to no connection, with no revoke pending and with its times cut to
  the millisecond.
\<close>

theorem restart_keeps_leases:
  assumes "lease_reach cfg m"
  shows "leases (Restore now (Snapshot m) (newLeaseManager cfg')) p = Option.bind (leases m p) (restarted now)"
  by (rule Restore_ok(2) [OF lease_reach_ok [OF assms]])

theorem restart_keeps_leases_witness:
  "leases (Restore 7000000 (Snapshot demo_leases) (newLeaseManager demo_cfg)) ''/b'' =
     Some \<lparr> lr_id = 2, lr_path = ''/b'', lr_mode = LeaseExclusiveWrite, lr_holder = ''h1'', lr_conn = 0, lr_granted = 0,
            lr_expires = 15000000000, lr_revoking = None \<rparr>"
  unfolding restart_keeps_leases [OF demo_leases_reach] by code_simp

text \<open>What may come out of \<^verbatim>\<open>Grant\<close>: a refusal with its reason, or the lease.\<close>

definition grant_outcome ::
  "int \<Rightarrow> string \<Rightarrow> 64 word \<Rightarrow> string \<Rightarrow> LeaseMode \<Rightarrow> leaseManager \<Rightarrow> (grant_error + leaseGrantResult) \<times> leaseManager \<Rightarrow> bool" where
  "grant_outcome now holder conn path mode m x = (case x of
     (Inl e, m') \<Rightarrow> e = ErrLeaseHeld \<and> m' = m \<and>
       (\<exists>rec. leases m path = Some rec \<and> lr_holder rec \<noteq> holder \<and> now - lr_granted rec < lc_min_hold (lm_cfg m))
   | (Inr res, m') \<Rightarrow> lease_ok m' \<and> (\<forall>p. p \<noteq> path \<longrightarrow> leases m' p = leases m p) \<and>
       (\<exists>rec. leases m' path = Some rec \<and> lr_holder rec = holder \<and> lr_conn rec = conn \<and> lr_mode rec = mode \<and> lg_id res = lr_id rec))"

lemma grant_turn_free:
  assumes ok: "lease_ok m" and i: "with_id m i = None" and c: "conn \<noteq> 0" and p: "at_path m path = None"
  shows "\<exists>res m'. grant_turn now i holder conn path mode m = (Granted res, m') \<and> grant_outcome now0 holder conn path mode m (Inr res, m')"
proof -
  have "fst (installLocked now i holder conn path mode m) = \<lparr> lg_id = i, lg_expires_ms = unix_milli (now + lc_ttl (lm_cfg m)), lg_mode = mode \<rparr>"
    by (simp add: installLocked_def Let_def)
  with installLocked_ok [OF ok p i c] p show ?thesis by (simp add: grant_turn_def split_def grant_outcome_def)
qed

lemma grant_turn_own:
  assumes ok: "lease_ok m" and i: "with_id m i = None" and c: "conn \<noteq> 0" and p: "at_path m path = Some (r, rec)"
    and own: "lr_holder rec = holder" "lr_mode rec = mode"
  shows "\<exists>res m'. grant_turn now i holder conn path mode m = (Granted res, m') \<and> grant_outcome now0 holder conn path mode m (Inr res, m')"
proof -
  note l = at_path_live [OF ok p]
  note okg = grant_turn_ok [OF ok i c, of now holder path mode]
  let ?rec = "rec\<lparr>lr_conn := conn, lr_expires := now + lc_ttl (lm_cfg m)\<rparr>"
  note upd = update_lease(2) [OF ok l(1), where rec' = ?rec]
  have same: "leases (set_rec r ?rec m) = (leases m)(path \<mapsto> ?rec)" if "lr_conn rec = conn"
    unfolding l(2) [symmetric] by (rule upd) (simp_all add: that set_rec_def)
  have rebind: "leases (set_rec r ?rec (m\<lparr>lm_byConn := conn_add conn (lr_id rec) (lm_byConn m)\<rparr>)) = (leases m)(path \<mapsto> ?rec)"
    if "lr_conn rec = 0"
    unfolding l(2) [symmetric] by (rule upd) (simp_all add: that set_rec_def c)
  consider "lr_conn rec = conn" | "lr_conn rec = 0" "lr_conn rec \<noteq> conn" | "lr_conn rec \<noteq> conn" "lr_conn rec \<noteq> 0" by blast
  then show ?thesis
  proof cases
    case 1
    with same p own okg show ?thesis by (simp add: grant_turn_def Let_def grant_outcome_def)
  next
    case 2
    with rebind p own okg show ?thesis by (simp add: grant_turn_def Let_def grant_outcome_def)
  next
    case 3
    note ok' = removeLocked_ok [OF ok l(1)]
    have free: "at_path (removeLocked r m) path = None"
      using removeLocked_leases [OF ok l(1)] l(2) by (simp add: at_path_None [OF ok'])
    have fresh: "with_id (removeLocked r m) i = None"
      using i unfolding with_id_None [OF ok] with_id_None [OF ok'] removeLocked_live [OF ok l(1)] by blast
    have "fst (installLocked now i holder conn path mode (removeLocked r m)) =
        \<lparr> lg_id = i, lg_expires_ms = unix_milli (now + lc_ttl (lm_cfg (removeLocked r m))), lg_mode = mode \<rparr>"
      by (simp add: installLocked_def Let_def)
    with installLocked_ok [OF ok' free fresh c] removeLocked_leases [OF ok l(1)] 3 p own l(2) show ?thesis
      by (simp add: grant_turn_def split_def grant_outcome_def)
  qed
qed

lemma revoke_evicts:
  assumes ok: "lease_ok m" and p: "at_path m path = Some (r, rec)" and other: "lr_holder rec \<noteq> holder"
    and held: "\<not> now - lr_granted rec < lc_min_hold (lm_cfg m)" and rv: "lr_revoking rec = None"
  shows "fst (yield_turn now holder path reason m) = RevokeWait r (lm_chan m)"
    "lease_ok (yield_timeout path r (snd (yield_turn now holder path reason m)))"
    "leases (yield_timeout path r (snd (yield_turn now holder path reason m))) = (leases m)(path := None)"
    "with_id m i = None \<Longrightarrow> with_id (yield_timeout path r (snd (yield_turn now holder path reason m))) i = None"
proof -
  note l = at_path_live [OF ok p]
  let ?rec = "rec\<lparr>lr_revoking := Some (lm_chan m)\<rparr>"
  let ?m1 = "(set_rec r ?rec m)\<lparr>lm_chan := Suc (lm_chan m)\<rparr>"
  let ?m2 = "yield_timeout path r (snd (yield_turn now holder path reason m))"
  show "fst (yield_turn now holder path reason m) = RevokeWait r (lm_chan m)"
    using p other held rv by (simp add: yield_turn_def Let_def)
  have ok1: "lease_ok ?m1"
    by (rule update_lease(1) [OF ok l(1), where rec' = ?rec]) (simp_all add: rv set_rec_def)
  have "leases ?m1 = (leases m)(lr_path rec \<mapsto> ?rec)"
    by (rule update_lease(2) [OF ok l(1), where rec' = ?rec]) (simp_all add: rv set_rec_def)
  then have leases1: "leases ?m1 = (leases m)(path \<mapsto> ?rec)" by (simp add: l(2))
  have live1: "live_ref ?m1 r ?rec" using l(1) by (simp add: live_ref_def rec_of_def set_rec_def update_conv')
  from live_at_path [OF ok1 live1] l(2) have at1: "at_path ?m1 path = Some (r, ?rec)" by simp
  from p other held rv at1 have m2: "?m2 =
      recordAudit ''lease_violation'' (lr_holder rec) (lr_path rec) (lr_id rec) (lr_mode rec) ''revoke_timeout''
        (recordAudit ''lease_revoke'' (lr_holder rec) (lr_path rec) (lr_id rec) (lr_mode rec) reason (removeLocked r ?m1))"
    by (simp add: yield_turn_def yield_timeout_def Let_def)
  show "lease_ok ?m2" using removeLocked_ok [OF ok1 live1] by (simp add: m2)
  show "leases ?m2 = (leases m)(path := None)" using removeLocked_leases [OF ok1 live1] l(2) by (simp add: m2 leases1)
  assume "with_id m i = None"
  then have "with_id ?m1 i = None"
    using lease_viewD(3) [OF lease_okD [OF ok], of i] by (auto simp: with_id_def rec_of_def set_rec_def update_conv' split: option.splits)
  then show "with_id ?m2 i = None"
    using removeLocked_live [OF ok1 live1] unfolding m2 audit_frame(4) with_id_None [OF ok1] with_id_None [OF removeLocked_ok [OF ok1 live1]]
    by blast
qed

text \<open>
  C26. \<^verbatim>\<open>Grant\<close> with nobody else at work comes back after at most two turns, unless the caller itself
  holds the path in the other mode or another caller's revoke is pending. It is refused only while
  another holder is within its minimum hold, and then nothing changed; otherwise the path is leased
  to the caller, on its connection and in the mode asked for, the id in the answer is the lease's,
  and the leases of all other paths are what they were.
\<close>

theorem grant_returns:
  assumes reach: "lease_reach cfg m" and i: "with_id m i = None" and c: "conn \<noteq> 0"
    and clear: "\<forall>rec. leases m path = Some rec \<longrightarrow> (if lr_holder rec = holder then lr_mode rec = mode else lr_revoking rec = None)"
  shows "\<exists>x. grant_alone 2 now i holder conn path mode m = Some x \<and> grant_outcome now holder conn path mode m x"
proof (cases "at_path m path")
  case None
  with grant_turn_free [OF lease_reach_ok [OF reach] i c None, of now holder mode now] show ?thesis
    by (auto simp: numeral_2_eq_2 yield_turn_def)
next
  case (Some x)
  note ok = lease_reach_ok [OF reach]
  obtain r rec where p: "at_path m path = Some (r, rec)" using Some by (cases x) auto
  then have lm: "leases m path = Some rec" by (simp add: leases_def)
  consider "lr_holder rec = holder" | "lr_holder rec \<noteq> holder" "now - lr_granted rec < lc_min_hold (lm_cfg m)"
    | "lr_holder rec \<noteq> holder" "\<not> now - lr_granted rec < lc_min_hold (lm_cfg m)" by blast
  then show ?thesis
  proof cases
    case 1
    with clear lm have "lr_mode rec = mode" by simp
    with grant_turn_own [OF ok i c p 1, of mode now now] p 1 show ?thesis by (auto simp: numeral_2_eq_2 yield_turn_def)
  next
    case 2
    with p lm show ?thesis by (simp add: numeral_2_eq_2 yield_turn_def grant_outcome_def)
  next
    case 3
    from clear lm 3 have rv: "lr_revoking rec = None" by simp
    let ?m2 = "yield_timeout path r (snd (yield_turn now holder path ''contention'' m))"
    note e = revoke_evicts [OF ok p 3 rv, where reason = "''contention''"]
    have free: "at_path ?m2 path = None" using e(3) by (simp add: at_path_None [OF e(2)])
    have "grant_alone 2 now i holder conn path mode m =
        grant_alone 1 (now + lc_revoke_timeout (lm_cfg m)) i holder conn path mode ?m2"
      using e(1) by (cases "yield_turn now holder path ''contention'' m") (simp add: numeral_2_eq_2)
    with grant_turn_free [OF e(2) e(4) [OF i] c free, of "now + lc_revoke_timeout (lm_cfg m)" holder mode now] free e(3)
    show ?thesis by (auto simp: yield_turn_def grant_outcome_def)
  qed
qed

theorem grant_returns_witness:
  "\<exists>x. grant_alone 2 9000000 3 ''h2'' 2 ''/a'' LeaseExclusiveWrite demo_leases = Some x
     \<and> grant_outcome 9000000 ''h2'' 2 ''/a'' LeaseExclusiveWrite demo_leases x"
proof (rule grant_returns [OF demo_leases_reach])
  show "\<forall>rec. leases demo_leases ''/a'' = Some rec \<longrightarrow> (if lr_holder rec = ''h2'' then lr_mode rec = LeaseExclusiveWrite else lr_revoking rec = None)"
    using demo_lease_a by simp
qed (code_simp+)

text \<open>
  C27. A caller that holds a path and asks for it in the other mode never gets an answer: \<^verbatim>\<open>YieldFor\<close>
  lets it through, the locked section finds its own lease in the wrong mode and starts over, and no
  amount of turns ends the loop or changes the manager.
\<close>

theorem grant_other_mode_never_returns:
  assumes "leases m path = Some rec" "lr_holder rec = holder" "lr_mode rec \<noteq> mode"
  shows "grant_alone fuel now i holder conn path mode m = None"
proof -
  obtain r where "at_path m path = Some (r, rec)" using assms(1) unfolding leases_def by (cases "at_path m path") auto
  with assms show ?thesis by (induction fuel) (simp_all add: yield_turn_def grant_turn_def)
qed

theorem grant_other_mode_never_returns_witness:
  "\<exists>rec. leases demo_leases ''/a'' = Some rec \<and> grant_alone 1000 9000000 3 ''h1'' 1 ''/a'' LeaseExclusiveWrite demo_leases = None"
  using grant_other_mode_never_returns [OF demo_lease_a] by (simp add: demo_lease_a)

text \<open>
  C28. Once a session has been bound to a connection, every earlier connection of that agent has lost
  the lease: it is not authorized, cannot refresh and cannot release, and trying changes nothing.
\<close>

theorem earlier_connection_locked_out:
  assumes "lease_reach cfg m" "AuthorizeOrRebindSession now i holder conn m = ((True, rebound), m')"
    and "old < conn" "lease_key bs = Some i"
  shows "AuthorizeOrRebindSession now' i holder' old m' = ((False, False), m') \<and> Refresh now' bs old m' = (None, m') \<and>
    Release bs old m' = (False, m')"
proof -
  note ok = lease_reach_ok [OF assms(1)]
  obtain r rec where w: "with_id m i = Some (r, rec)"
    using assms(2) by (cases "with_id m i") (auto simp: AuthorizeOrRebindSession_def)
  then have "\<exists>rec'. with_id m' i = Some (r, rec') \<and> lr_conn rec' = conn"
    using assms(2) with_id_live(2) [OF ok w]
    by (auto simp: AuthorizeOrRebindSession_def with_id_def rec_of_def set_rec_def update_conv' split: if_splits option.splits)
  then obtain rec' where "with_id m' i = Some (r, rec')" "lr_conn rec' = conn" by blast
  moreover have "conn \<noteq> 0" "conn \<noteq> old" using assms(3) by auto
  ultimately show ?thesis
    using assms(3,4) by (simp add: AuthorizeOrRebindSession_def Refresh_def Release_def owned_by_def)
qed

theorem earlier_connection_locked_out_witness:
  "let m' = snd (AuthorizeOrRebindSession 9000000 1 ''h1'' 4 demo_leases)
   in fst (AuthorizeOrRebindSession 9000000 1 ''h1'' 4 demo_leases) = (True, True) \<and>
      Release (replicate 15 0 @ [1]) 1 m' = (False, m')"
proof -
  have a: "fst (AuthorizeOrRebindSession 9000000 1 ''h1'' 4 demo_leases) = (True, True)"
    "lease_key (replicate 15 0 @ [1]) = Some 1" by code_simp+
  from earlier_connection_locked_out [OF demo_leases_reach surjective_pairing [of "AuthorizeOrRebindSession 9000000 1 ''h1'' 4 demo_leases", unfolded a(1)]
      _ a(2), of 1]
  show ?thesis using a by (simp add: Let_def)
qed

end
