(* ===== verification/Request_Gates.thy ===== *)
theory Request_Gates
  imports Admission Lease_Props Manifest_Meta
begin

text \<open>
  The gates a request passes before its handler runs (dataplane_server.go): the tenant's policy
  (policy.go), the subtree of the agent (\<^verbatim>\<open>checkAgentPath\<close>), and for writes the mount session
  (\<^verbatim>\<open>checkSessionFence\<close>) over the lease manager and the registry of active and fenced sessions
  (mount_lease_registry.go), with the control endpoints that read and clear it
  (control_mount_lease.go).

  Glob matching is a library's; the policy takes it as a parameter.
\<close>

section \<open>Policy\<close>

record Policy =
  pol_allow :: "string list"
  pol_deny :: "string list"

text \<open>A match may also report an invalid pattern, \<open>None\<close>, which \<^verbatim>\<open>Permits\<close> reads as no match.\<close>

definition NewPolicy :: "(string \<Rightarrow> string \<Rightarrow> bool option) \<Rightarrow> string list \<Rightarrow> string list \<Rightarrow> Policy option" where
  "NewPolicy glob allow deny =
     (if list_ex (\<lambda>p. glob p ''validate'' = None) allow then None
      else if list_ex (\<lambda>p. glob p ''validate'' = None) deny then None
      else Some \<lparr> pol_allow = allow, pol_deny = deny \<rparr>)"

definition Permits :: "(string \<Rightarrow> string \<Rightarrow> bool option) \<Rightarrow> Policy \<Rightarrow> string \<Rightarrow> bool" where
  "Permits glob p path =
     (if list_ex (\<lambda>pattern. glob pattern path = Some True) (pol_deny p) then False
      else if pol_allow p = [] then True
      else list_ex (\<lambda>pattern. glob pattern path = Some True) (pol_allow p))"

definition policyPath :: "string \<Rightarrow> string" where
  "policyPath virtualPath = drop 1 (dropWhile (\<lambda>c. c \<noteq> slash) (dropWhile (\<lambda>c. c = slash) virtualPath))"

section \<open>The agent's subtree\<close>

definition checkAgentPath :: "Identity \<Rightarrow> string \<Rightarrow> bool" where
  "checkAgentPath ident p =
     (if id_scoped ident = '''' then True
      else let raw = (if p = '''' \<or> hd p \<noteq> slash then slash # p else p);
               cp = path_clean (slash # p)
           in if cp \<noteq> raw then False
              else let subtree = slash # id_scoped ident
                   in cp = subtree \<or> has_prefix cp (subtree @ ''/''))"

definition authorizePath :: "(string \<Rightarrow> string \<Rightarrow> bool option) \<Rightarrow> Policy \<Rightarrow> Identity \<Rightarrow> string \<Rightarrow> bool" where
  "authorizePath glob pol ident p = (if \<not> Permits glob pol (policyPath p) then False else checkAgentPath ident p)"

section \<open>Active and fenced mount sessions\<close>

record allocationLeaseState =
  al_active :: string
  al_fenced :: "string list"

type_synonym mountLeaseRegistry = "(string \<times> allocationLeaseState) list"

definition registry_Install :: "string \<Rightarrow> string \<Rightarrow> mountLeaseRegistry \<Rightarrow> bool \<times> mountLeaseRegistry" where
  "registry_Install allocationID leaseHex r =
     (if allocationID = '''' \<or> leaseHex = '''' then (False, r)
      else let st = (case map_of r allocationID of None \<Rightarrow> \<lparr> al_active = '''', al_fenced = [] \<rparr> | Some st \<Rightarrow> st)
           in if leaseHex \<in> set (al_fenced st) then (False, AList.update allocationID st r)
              else (True, AList.update allocationID (st\<lparr>al_active := leaseHex\<rparr>) r))"

definition registry_Get :: "string \<Rightarrow> mountLeaseRegistry \<Rightarrow> string" where
  "registry_Get allocationID r =
     (if allocationID = '''' then '''' else case map_of r allocationID of None \<Rightarrow> '''' | Some st \<Rightarrow> al_active st)"

definition registry_Clear :: "string \<Rightarrow> mountLeaseRegistry \<Rightarrow> mountLeaseRegistry" where
  "registry_Clear allocationID r =
     (if allocationID = '''' then r
      else case map_of r allocationID of
        None \<Rightarrow> r
      | Some st \<Rightarrow>
          if al_active st = '''' then r
          else AList.update allocationID (st\<lparr>al_fenced := List.insert (al_active st) (al_fenced st), al_active := ''''\<rparr>) r)"

section \<open>The session of a write\<close>


definition sessionRevertPrefix :: string where "sessionRevertPrefix = ''revert:''"

definition decodeLeaseHex :: "string \<Rightarrow> 128 word option" where
  "decodeLeaseHex s = (if length s \<noteq> 32 then None else map_option word_rcat (hex_decode s))"

datatype fence_error = BadFormat | BadHex | UnknownOrWrongHolder | SessionFenced

text \<open>
  The answer, the lease manager and the registry after the check. A rejected install leaves the
  rebinding of the lease in place.
\<close>

definition checkSessionFence ::
  "int \<Rightarrow> Identity \<Rightarrow> 64 word \<Rightarrow> string \<Rightarrow> string \<Rightarrow> leaseManager \<Rightarrow> mountLeaseRegistry \<Rightarrow> (fence_error + string) \<times> leaseManager \<times> mountLeaseRegistry" where
  "checkSessionFence now ident conn sessionID allocationID m r =
     (if sessionID = '''' then (Inr '''', m, r)
      else if \<not> has_prefix sessionID sessionMountPrefix \<or> length sessionID \<le> length sessionMountPrefix then (Inl BadFormat, m, r)
      else let leaseHex = drop (length sessionMountPrefix) sessionID
           in case decodeLeaseHex leaseHex of
                None \<Rightarrow> (Inl BadHex, m, r)
              | Some leaseID \<Rightarrow>
                  (case AuthorizeOrRebindSession now leaseID (id_agent ident) conn m of
                     ((authorized, rebound), m1) \<Rightarrow>
                       if \<not> authorized then (Inl UnknownOrWrongHolder, m1, r)
                       else case registry_Install allocationID leaseHex r of
                              (installed, r1) \<Rightarrow> if installed then (Inr leaseHex, m1, r1) else (Inl SessionFenced, m1, r1)))"

definition derefSession :: "string option \<Rightarrow> string" where
  "derefSession p = (case p of None \<Rightarrow> '''' | Some s \<Rightarrow> s)"

definition resolveSessionFence ::
  "int \<Rightarrow> Identity \<Rightarrow> 64 word \<Rightarrow> string option \<Rightarrow> string option \<Rightarrow> leaseManager \<Rightarrow> mountLeaseRegistry
     \<Rightarrow> (fence_error + (string \<times> string \<times> string)) \<times> leaseManager \<times> mountLeaseRegistry" where
  "resolveSessionFence now ident conn sessionIDPtr allocationIDPtr m r =
     (let sessionID = derefSession sessionIDPtr; allocationID = derefSession allocationIDPtr
      in case checkSessionFence now ident conn sessionID allocationID m r of
           (Inl e, m1, r1) \<Rightarrow> (Inl e, m1, r1)
         | (Inr activeLeaseHex, m1, r1) \<Rightarrow> (Inr (sessionID, allocationID, activeLeaseHex), m1, r1))"

section \<open>What the control plane asks\<close>

definition mountSessionLive :: "int \<Rightarrow> (string \<Rightarrow> leaseManager option) \<Rightarrow> mountLeaseRegistry \<Rightarrow> string \<Rightarrow> string \<Rightarrow> bool" where
  "mountSessionLive now tenants r tenantID allocationID =
     (let leaseHex = registry_Get allocationID r
      in if leaseHex = '''' then False
         else case tenants tenantID of
           None \<Rightarrow> False
         | Some m \<Rightarrow> (case decodeLeaseHex leaseHex of None \<Rightarrow> False | Some i \<Rightarrow> Live now i m))"

definition writerSessionForRevert :: "mountLeaseRegistry \<Rightarrow> string \<Rightarrow> string" where
  "writerSessionForRevert r allocationID =
     (let leaseHex = registry_Get allocationID r
      in if leaseHex \<noteq> '''' then sessionMountPrefix @ leaseHex else sessionRevertPrefix @ allocationID)"

end
