(* ===== verification/Gate_Props.thy ===== *)
theory Gate_Props
  imports Request_Gates
begin

text \<open>
  What the gates guarantee. An admitted agent stays inside its own directory, a revoked certificate
  opens no session, a fenced mount session is never accepted again under the same name, and a write
  that passed the gate passes the store's own session check. Two ways around the fence are stated as
  they are.
\<close>

section \<open>Identity\<close>

lemma spiffe_id_plain: "spiffe_id kind uri td = Some i \<Longrightarrow> i \<noteq> '''' \<and> slash \<notin> set i \<and> u_host uri = td"
proof -
  assume s: "spiffe_id kind uri td = Some i"
  then obtain k where k: "split_on slash (trim_both slash (u_path uri)) = [k, i]" "i \<noteq> ''''" "u_host uri = td"
    by (auto simp: spiffe_id_def split: if_splits list.splits)
  have "i \<in> set (split_on slash (trim_both slash (u_path uri)))" unfolding k(1) by simp
  from split_on_no_sep [OF this] k show ?thesis by simp
qed

lemma agent_of_uris_plain:
  "agent_of_uris td us \<noteq> '''' \<Longrightarrow> slash \<notin> set (agent_of_uris td us) \<and>
     (\<exists>uri. Some uri \<in> set us \<and> agentIDFromSPIFFE uri td = Some (agent_of_uris td us))"
proof (induction td us rule: agent_of_uris.induct)
  case (3 td uri us)
  show ?case
  proof (cases "u_scheme uri \<noteq> ''spiffe'' \<or> u_host uri \<noteq> td \<or> u_string uri = controlPlaneSPIFFE td \<or> tenantIDFromSPIFFE uri td \<noteq> None
      \<or> agentIDFromSPIFFE uri td = None")
    case True
    then have "agent_of_uris td (Some uri # us) = agent_of_uris td us" by auto
    with 3 True show ?thesis by (cases "agentIDFromSPIFFE uri td") auto
  next
    case False
    then obtain a where a: "agentIDFromSPIFFE uri td = Some a" by auto
    with False have e: "agent_of_uris td (Some uri # us) = a" by simp
    from spiffe_id_plain [OF a [unfolded agentIDFromSPIFFE_def]] a show ?thesis unfolding e by auto
  qed
qed auto

lemma admit_session_cert:
  assumes "admit_session slot td tenants now revs peers verified = Inr (t, ident)"
  obtains cert rest where "peers = cert # rest" "id_scoped ident = certScopedAgentID cert td" "id_scoped ident \<noteq> ''''"
    "certTenantID cert td = Some (id_tenant ident)" "tenants (id_tenant ident) = Some t" "checkTenantBinding (id_tenant ident) verified"
  using assms
  by (auto simp: admit_session_def identifyV2Peer_def identityFromCert_def split: if_splits list.splits option.splits intro: that)

section \<open>Paths\<close>

lemma canonical_clean: "\<exists>ws. path_clean (slash # p) = render ws \<and> (\<forall>w\<in>set ws. comp_ok w)"
  using clean_comps_rooted_ok [of "[]" "split_on slash (slash # p)"] split_on_no_sep
  by (intro exI [of _ "clean_comps True [] (split_on slash (slash # p))"]) (auto simp: path_clean_def render_def Let_def)

lemma render_head:
  assumes ws: "\<forall>w\<in>set ws. comp_ok w" and i: "slash \<notin> set i" "i \<noteq> ''''"
    and p: "render ws = slash # i \<or> has_prefix (render ws) ((slash # i) @ ''/'')"
  shows "\<exists>us. ws = i # us"
proof -
  have ne: "ws \<noteq> []" using p i by (auto simp: render_def has_prefix_iff)
  have s: "split_on slash (join_with slash ws) = ws" using ws ne comp_okD(1) by (intro split_on_join) auto
  from p consider "join_with slash ws = i" | t where "join_with slash ws = i @ slash # t" by (auto simp: render_def has_prefix_iff)
  then show ?thesis
  proof cases
    case 1
    with s split_on_word [OF i(1)] show ?thesis by auto
  next
    case 2
    with s split_on_append [OF i(1)] show ?thesis by auto
  qed
qed

section \<open>The deny-list\<close>

lemma map_of_filter_keep: "map_of r s = Some e \<Longrightarrow> P (s, e) \<Longrightarrow> map_of (filter P r) s = Some e"
  by (induction r) (auto split: if_splits)

lemma fold_Add:
  assumes "s \<noteq> ''''" "\<And>x e'. (x, e') \<in> set items \<Longrightarrow> normalizeSerial x = s \<Longrightarrow> e' = e"
  shows "map_of (fold (\<lambda>(serial, e). revocation_Add serial e) items r) s =
    (if \<exists>x e'. (x, e') \<in> set items \<and> normalizeSerial x = s then Some e else map_of r s)"
  using assms
proof (induction items arbitrary: r)
  case (Cons i items)
  obtain x e' where i: "i = (x, e')" by (cases i)
  have IH: "map_of (fold (\<lambda>(serial, e). revocation_Add serial e) items r') s =
    (if \<exists>x e'. (x, e') \<in> set items \<and> normalizeSerial x = s then Some e else map_of r' s)" for r'
    by (rule Cons.IH) (use Cons.prems in auto)
  have "map_of (revocation_Add x e' r) s = (if normalizeSerial x = s then Some e else map_of r s)"
    using Cons.prems(1) Cons.prems(2) [of x e'] i by (auto simp: revocation_Add_def Let_def update_conv')
  then show ?case by (auto simp: i IH)
qed simp

text \<open>Pushes of the control plane, each at its time.\<close>

definition run_pushes :: "(int \<times> (string \<times> int option) list) list \<Rightarrow> revocations \<Rightarrow> revocations" where
  "run_pushes pushes r = fold (\<lambda>(t, items) r. snd (pushCertRevocations t items r)) pushes r"

lemma push_lookup:
  assumes "s \<noteq> ''''" "\<And>x e'. (x, e') \<in> set items \<Longrightarrow> normalizeSerial x = s \<Longrightarrow> e' = Some e" "t \<le> e"
    and "(\<exists>x e'. (x, e') \<in> set items \<and> normalizeSerial x = s) \<or> map_of r s = Some (Some e)"
  shows "map_of (snd (pushCertRevocations t items r)) s = Some (Some e)"
proof -
  have "map_of (fold (\<lambda>(serial, e). revocation_Add serial e) items r) s = Some (Some e)"
    by (subst fold_Add [where e = "Some e", OF assms(1,2)]) (use assms(4) in auto)
  then show ?thesis unfolding pushCertRevocations_def Let_def Prune_def snd_conv
    by (rule map_of_filter_keep) (use assms(3) in simp)
qed

lemma run_pushes_lookup:
  assumes "s \<noteq> ''''" "\<And>t items. (t, items) \<in> set pushes \<Longrightarrow> t \<le> e \<and> (\<forall>x e'. (x, e') \<in> set items \<longrightarrow> normalizeSerial x = s \<longrightarrow> e' = Some e)"
    and "(\<exists>t items x e'. (t, items) \<in> set pushes \<and> (x, e') \<in> set items \<and> normalizeSerial x = s) \<or> map_of r s = Some (Some e)"
  shows "map_of (run_pushes pushes r) s = Some (Some e)"
  using assms
proof (induction pushes arbitrary: r)
  case Nil
  then show ?case by (simp add: run_pushes_def)
next
  case (Cons p pushes)
  obtain t items where p: "p = (t, items)" by (cases p)
  have step: "run_pushes (p # pushes) r = run_pushes pushes (snd (pushCertRevocations t items r))" by (simp add: run_pushes_def p)
  note items = Cons.prems(2) [of t items, unfolded p, OF list.set_intros(1)]
  show ?case unfolding step
  proof (rule Cons.IH [OF Cons.prems(1)])
    show "t' \<le> e \<and> (\<forall>x e'. (x, e') \<in> set items' \<longrightarrow> normalizeSerial x = s \<longrightarrow> e' = Some e)" if "(t', items') \<in> set pushes" for t' items'
      using Cons.prems(2) [of t' items'] that by simp
    show "(\<exists>t items x e'. (t, items) \<in> set pushes \<and> (x, e') \<in> set items \<and> normalizeSerial x = s) \<or>
        map_of (snd (pushCertRevocations t items r)) s = Some (Some e)"
    proof (cases "(\<exists>x e'. (x, e') \<in> set items \<and> normalizeSerial x = s) \<or> map_of r s = Some (Some e)")
      case True
      have "map_of (snd (pushCertRevocations t items r)) s = Some (Some e)"
        by (rule push_lookup [OF Cons.prems(1) _ _ True]) (use items in auto)
      then show ?thesis ..
    next
      case False
      with Cons.prems(3) p show ?thesis by auto
    qed
  qed
qed

lemma upper_hex_digit: "d < 16 \<Longrightarrow> \<not> is_space (upper_char (hex_digit d))"
  by (cases "d < 10") (auto simp: is_space_def upper_char_def hex_digit_def Let_def)

lemma trim_space_plain: "\<forall>c\<in>set s. \<not> is_space c \<Longrightarrow> trim_space s = s"
proof -
  have d: "dropWhile is_space t = t" if "\<forall>c\<in>set t. \<not> is_space c" for t using that by (cases t) auto
  assume "\<forall>c\<in>set s. \<not> is_space c"
  then show ?thesis by (simp add: trim_space_def d)
qed

lemma upper_char_idem [simp]: "upper_char (upper_char c) = upper_char c"
  by (auto simp: upper_char_def Let_def)

lemma serial_plain: "normalizeSerial (formatSerialHex s) = formatSerialHex s" "n \<noteq> 0 \<Longrightarrow> formatSerialHex (Some n) \<noteq> ''''"
proof -
  have "\<not> is_space c" if "c \<in> set (to_upper (hex_encode bs))" for c bs
  proof -
    from that obtain b :: byte where "c = upper_char (hex_digit (unat b div 16)) \<or> c = upper_char (hex_digit (unat b mod 16))"
      by (auto simp: to_upper_def hex_encode_def)
    moreover have "unat b < 256" using unsigned_less [of b] by simp
    moreover from this have "unat b div 16 < 16" by auto
    ultimately show ?thesis using upper_hex_digit [of "unat b div 16"] upper_hex_digit [of "unat b mod 16"] by auto
  qed
  then have t: "trim_space (formatSerialHex s) = formatSerialHex s"
    by (intro trim_space_plain) (auto simp: formatSerialHex_def split: option.splits)
  have "to_upper (formatSerialHex s) = formatSerialHex s" by (simp add: formatSerialHex_def to_upper_def comp_def split: option.split)
  with t show "normalizeSerial (formatSerialHex s) = formatSerialHex s" by (simp add: normalizeSerial_def)
  assume "n \<noteq> 0"
  then have "big_bytes (nat \<bar>n\<bar>) \<noteq> []" by (subst big_bytes.simps) simp
  then show "formatSerialHex (Some n) \<noteq> ''''" by (auto simp: formatSerialHex_def to_upper_def hex_encode_def)
qed

section \<open>The fence\<close>

datatype registry_op = RInstall string string | RClear string

fun run_registry :: "registry_op list \<Rightarrow> mountLeaseRegistry \<Rightarrow> mountLeaseRegistry" where
  "run_registry [] r = r"
| "run_registry (RInstall a h # ops) r = run_registry ops (snd (registry_Install a h r))"
| "run_registry (RClear a # ops) r = run_registry ops (registry_Clear a r)"

definition fenced_in :: "mountLeaseRegistry \<Rightarrow> string \<Rightarrow> string \<Rightarrow> bool" where
  "fenced_in r a h = (case map_of r a of None \<Rightarrow> False | Some st \<Rightarrow> h \<in> set (al_fenced st))"

lemma Install_fenced: "fenced_in (snd (registry_Install b k r)) a h \<longleftrightarrow> fenced_in r a h"
  by (auto simp: registry_Install_def fenced_in_def Let_def update_conv' split: option.splits)

lemma Clear_fenced: "fenced_in (registry_Clear b r) a h \<longleftrightarrow> fenced_in r a h \<or> (a = b \<and> h = registry_Get b r \<and> h \<noteq> '''')"
  by (auto simp: registry_Clear_def registry_Get_def fenced_in_def Let_def update_conv' split: option.splits if_splits)

lemma run_registry_fenced: "fenced_in r a h \<Longrightarrow> fenced_in (run_registry ops r) a h"
  by (induction ops r rule: run_registry.induct) (simp_all add: Install_fenced Clear_fenced)

lemma Install_result: "fst (registry_Install a h r) \<longleftrightarrow> a \<noteq> '''' \<and> h \<noteq> '''' \<and> \<not> fenced_in r a h"
  by (simp add: registry_Install_def fenced_in_def Let_def split: option.split)

lemma checkSessionFence_mount:
  assumes "h \<noteq> ''''"
  shows "fst (checkSessionFence now ident conn (sessionMountPrefix @ h) a m r) =
    (case decodeLeaseHex h of
       None \<Rightarrow> Inl BadHex
     | Some i \<Rightarrow> if \<not> fst (fst (AuthorizeOrRebindSession now i (id_agent ident) conn m)) then Inl UnknownOrWrongHolder
                else if fst (registry_Install a h r) then Inr h else Inl SessionFenced)"
proof -
  have "has_prefix (sessionMountPrefix @ h) sessionMountPrefix" by simp
  moreover have "sessionMountPrefix @ h \<noteq> ''''" "length sessionMountPrefix < length (sessionMountPrefix @ h)"
    using assms by (simp_all add: sessionMountPrefix_def)
  ultimately show ?thesis
    by (simp add: checkSessionFence_def split_def Let_def linorder_not_le split: option.split)
qed

lemma hex_value_upper: "hex_value (upper_char c) = hex_value c"
  by (auto simp: hex_value_def upper_char_def Let_def)

lemma hex_decode_upper: "hex_decode (to_upper s) = hex_decode s"
  by (induction s rule: hex_decode.induct) (simp_all add: to_upper_def hex_value_upper split: option.split)

lemma decodeLeaseHex_upper: "decodeLeaseHex (to_upper s) = decodeLeaseHex s"
  by (simp add: decodeLeaseHex_def hex_decode_upper) (simp add: to_upper_def)

lemma authorized_live:
  assumes "AuthorizeOrRebindSession now i holder conn m = ((True, b), m')"
  shows "\<exists>k rec. with_id m' i = Some (k, rec) \<and> lr_holder rec = holder \<and> lr_conn rec = conn \<and> Live now i m'"
proof -
  obtain k rec where w: "with_id m i = Some (k, rec)" "lr_holder rec = holder" "now < lr_expires rec" "lr_revoking rec = None"
    using assms by (cases "with_id m i") (auto simp: AuthorizeOrRebindSession_def split: if_splits)
  show ?thesis
  proof (cases "lr_conn rec = conn")
    case True
    with assms w show ?thesis by (auto simp: AuthorizeOrRebindSession_def Live_def)
  next
    case False
    with assms w have "\<not> conn < lr_conn rec" "m' = (set_rec k (rec\<lparr>lr_conn := conn\<rparr>) m)
        \<lparr>lm_byConn := conn_add conn (lr_id rec) (conn_del (lr_conn rec) (lr_id rec) (lm_byConn m))\<rparr>"
      by (auto simp: AuthorizeOrRebindSession_def split: if_splits)
    with w have "with_id m' i = Some (k, rec\<lparr>lr_conn := conn\<rparr>)"
      by (auto simp: with_id_def rec_of_def set_rec_def update_conv' split: option.splits)
    with w show ?thesis by (simp add: Live_def)
  qed
qed

section \<open>Properties\<close>

text \<open>
  C29. An agent admitted to a session, whatever its certificates, can only name paths inside its own
  directory: a path that passes the gate is the canonical path of the agent's directory or of
  something below it, with no dot segments and no empty ones (or that path without its leading
  slash), and the directory's name is the agent id of a SPIFFE URI in its certificate, signed by an
  intermediate of the same tenant.
\<close>

theorem agent_confined:
  assumes admitted: "admit_session slot td tenants now revs peers verified = Inr (t, ident)" and ok: "checkAgentPath ident p"
  shows "(\<exists>ws. (\<forall>w\<in>set (id_scoped ident # ws). comp_ok w) \<and>
      (p = render (id_scoped ident # ws) \<or> slash # p = render (id_scoped ident # ws))) \<and>
    (\<exists>uri. Some uri \<in> set (c_uris (hd peers)) \<and> agentIDFromSPIFFE uri td = Some (id_scoped ident)) \<and>
    checkTenantBinding (id_tenant ident) verified"
proof -
  from admitted obtain cert rest where c: "peers = cert # rest" "id_scoped ident = agent_of_uris td (c_uris cert)" "id_scoped ident \<noteq> ''''"
    "checkTenantBinding (id_tenant ident) verified"
    by (rule admit_session_cert) (simp add: certScopedAgentID_def)
  from agent_of_uris_plain [of td "c_uris cert"] c have a: "slash \<notin> set (id_scoped ident)"
    "\<exists>uri. Some uri \<in> set (c_uris cert) \<and> agentIDFromSPIFFE uri td = Some (id_scoped ident)" by simp_all
  obtain ws where ws: "path_clean (slash # p) = render ws" "\<forall>w\<in>set ws. comp_ok w" using canonical_clean by blast
  from ok c(3) have raw: "render ws = (if p = '''' \<or> hd p \<noteq> slash then slash # p else p)"
    and pre: "render ws = slash # id_scoped ident \<or> has_prefix (render ws) ((slash # id_scoped ident) @ ''/'')"
    by (auto simp: checkAgentPath_def Let_def ws(1) split: if_splits)
  from render_head [OF ws(2) a(1) c(3) pre] obtain us where us: "ws = id_scoped ident # us" by blast
  show ?thesis using ws(2) raw a(2) c(1,4) unfolding us by (auto split: if_splits)
qed

definition demo_cert :: certificate where
  "demo_cert = \<lparr> c_cn = ''u1'', c_uris = [Some \<lparr> u_scheme = ''spiffe'', u_host = ''td'', u_path = ''/tenant/t1'', u_string = ''spiffe://td/tenant/t1'' \<rparr>,
      Some \<lparr> u_scheme = ''spiffe'', u_host = ''td'', u_path = ''/agent/a1'', u_string = ''spiffe://td/agent/a1'' \<rparr>],
     c_emails = [], c_dns = [], c_serial = Some 19, c_subject = ''CN=u1'', c_issuer = ''CN=i1'', c_ou = [] \<rparr>"

definition demo_signer :: certificate where
  "demo_signer = demo_cert\<lparr>c_subject := ''CN=i1'', c_ou := [''tenant=t1'']\<rparr>"

definition demo_ident :: Identity where
  "demo_ident = \<lparr> id_agent = ''u1'', id_tenant = ''t1'', id_serial = ''19'', id_subject = ''CN=u1'', id_scoped = ''a1'' \<rparr>"

lemma demo_admitted:
  "admit_session True ''td'' [''t1'' \<mapsto> ()] 0 (Some []) [demo_cert] [[demo_cert, demo_signer]] = Inr ((), demo_ident)"
  by code_simp

theorem agent_confined_witness:
  "\<exists>ws. (\<forall>w\<in>set (''a1'' # ws). comp_ok w) \<and> (''/a1/x'' = render (''a1'' # ws) \<or> slash # ''/a1/x'' = render (''a1'' # ws))"
proof -
  have "checkAgentPath demo_ident ''/a1/x''" by code_simp
  from conjunct1 [OF agent_confined [OF demo_admitted this]] show ?thesis unfolding demo_ident_def by simp
qed

text \<open>
  C30. Once the serial of a certificate has been pushed to the deny-list with the certificate's expiry,
  no later pushes, and no clean-up they do, let that certificate open a session before it expires.
\<close>

theorem revoked_cert_refused:
  assumes serial: "c_serial cert = Some n" "n \<noteq> 0"
    and pushed: "(t0, items0) \<in> set pushes" "(x0, Some e) \<in> set items0" "normalizeSerial x0 = formatSerialHex (Some n)"
    and expiry: "\<forall>(t, items)\<in>set pushes. t \<le> now \<and> (\<forall>(x, e')\<in>set items. normalizeSerial x = formatSerialHex (Some n) \<longrightarrow> e' = Some e)"
    and now: "now < e"
  shows "\<exists>why. admit_session slot td tenants now (Some (run_pushes pushes r)) (cert # rest) verified = Inl why"
proof -
  note plain = serial_plain(1) [of "Some n"] serial_plain(2) [OF serial(2)]
  have "map_of (run_pushes pushes r) (formatSerialHex (Some n)) = Some (Some e)"
  proof (rule run_pushes_lookup [OF plain(2)])
    show "t \<le> e \<and> (\<forall>x e'. (x, e') \<in> set items \<longrightarrow> normalizeSerial x = formatSerialHex (Some n) \<longrightarrow> e' = Some e)"
      if "(t, items) \<in> set pushes" for t items
      using bspec [OF expiry that] now by auto
  qed (use pushed in blast)
  then have "IsRevoked now (formatSerialHex (c_serial cert)) (run_pushes pushes r)"
    using now serial(1) plain by (simp add: IsRevoked_def Let_def)
  then show ?thesis by (auto simp: admit_session_def split: option.split)
qed

theorem revoked_cert_refused_witness:
  "\<exists>why. admit_session True ''td'' [''t1'' \<mapsto> ()] 5 (Some (run_pushes [(1, [('' 13 '', Some 9)]), (4, [(''AA'', Some 2)])] [])) [demo_cert] [[demo_cert, demo_signer]] = Inl why"
proof (rule revoked_cert_refused [where n = 19 and e = 9 and ?x0.0 = "'' 13 ''" and ?t0.0 = 1 and ?items0.0 = "[('' 13 '', Some 9)]"])
  show "c_serial demo_cert = Some 19" by (simp add: demo_cert_def)
  have s: "formatSerialHex (Some 19) = ''13''" "normalizeSerial '' 13 '' = ''13''" "normalizeSerial ''AA'' = ''AA''" by code_simp+
  show "normalizeSerial '' 13 '' = formatSerialHex (Some 19)" using s by simp
  show "\<forall>(t, items)\<in>set [(1, [('' 13 '', Some 9)]), (4 :: int, [(''AA'', Some 2)])]. t \<le> 5 \<and>
      (\<forall>(x, e')\<in>set items. normalizeSerial x = formatSerialHex (Some 19) \<longrightarrow> e' = Some 9)" by (simp add: s)
qed simp_all

text \<open>
  C31. Clearing an allocation fences its active session for good: whatever sessions are installed and
  cleared afterwards, on any allocation, a write that presents that session for that allocation is
  refused, in every state of the lease manager.
\<close>

theorem fenced_session_refused:
  assumes "registry_Get a r = h" "h \<noteq> ''''"
  shows "\<exists>e. fst (checkSessionFence now ident conn (sessionMountPrefix @ h) a m (run_registry ops (registry_Clear a r))) = Inl e"
proof -
  have "fenced_in (registry_Clear a r) a h" using assms by (simp add: Clear_fenced)
  from run_registry_fenced [OF this] show ?thesis
    unfolding checkSessionFence_mount [OF assms(2)] Install_result by (simp split: option.split)
qed

theorem fenced_session_refused_witness:
  "\<exists>e. fst (checkSessionFence 0 demo_ident 1 (sessionMountPrefix @ ''ab'') ''d1'' (newLeaseManager demo_cfg)
     (run_registry [RInstall ''d1'' ''cd'', RInstall ''d1'' ''ab''] (registry_Clear ''d1'' (snd (registry_Install ''d1'' ''ab'' []))))) = Inl e"
  by (rule fenced_session_refused) code_simp+

text \<open>
  C33. The fence is by name: right after its session was fenced, a client whose lease is still live is
  accepted again when it writes the same lease id in capitals, which the hex decoder reads as the same
  lease, or when it names another allocation for which that session was never fenced.
\<close>

theorem fence_bypassed:
  assumes active: "registry_Get a r = h" "h \<noteq> ''''" and lease: "decodeLeaseHex h = Some i"
    "fst (fst (AuthorizeOrRebindSession now i (id_agent ident) conn m))"
    and caps: "to_upper h \<noteq> h" "\<not> fenced_in r a (to_upper h)" and other: "b \<noteq> ''''" "b \<noteq> a" "\<not> fenced_in r b h"
  shows "fst (checkSessionFence now ident conn (sessionMountPrefix @ to_upper h) a m (registry_Clear a r)) = Inr (to_upper h) \<and>
    fst (checkSessionFence now ident conn (sessionMountPrefix @ h) b m (registry_Clear a r)) = Inr h"
proof -
  have up: "to_upper h \<noteq> ''''" "a \<noteq> ''''" using active by (auto simp: to_upper_def registry_Get_def)
  have "\<not> fenced_in (registry_Clear a r) a (to_upper h)" "\<not> fenced_in (registry_Clear a r) b h"
    using caps other active(1) by (simp_all add: Clear_fenced)
  then show ?thesis
    unfolding checkSessionFence_mount [OF active(2)] checkSessionFence_mount [OF up(1)] Install_result decodeLeaseHex_upper
    using lease active(2) up other(1) by simp
qed

definition demo_hex :: string where
  "demo_hex = ''0000000000000000000000000000000a''"

definition demo_mount :: leaseManager where
  "demo_mount = snd (grant_turn 0 10 ''u1'' 1 ''/a1'' LeaseExclusiveWrite (newLeaseManager demo_cfg))"

theorem fence_bypassed_witness:
  "fst (checkSessionFence 0 demo_ident 1 (sessionMountPrefix @ to_upper demo_hex) ''d1'' demo_mount
      (registry_Clear ''d1'' [(''d1'', \<lparr> al_active = demo_hex, al_fenced = [] \<rparr>)])) = Inr (to_upper demo_hex)"
proof (rule conjunct1 [OF fence_bypassed [where b = "''d2''" and i = 10]])
  show "fst (fst (AuthorizeOrRebindSession 0 10 (id_agent demo_ident) 1 demo_mount))" by code_simp
qed (code_simp+)

text \<open>
  C34. The store's own session check never rejects what the gate let through: for a request that passed
  \<^verbatim>\<open>resolveSessionFence\<close>, \<^verbatim>\<open>PutWithLeaseCheck\<close> is \<^verbatim>\<open>Put\<close>, and after a sessioned one the session's
  lease is live, held by that agent and bound to that connection.
\<close>

theorem gate_implies_store_check:
  assumes "resolveSessionFence now ident conn sp ap m r = (Inr (s, a, h), m', r')"
  shows "PutWithLeaseCheck E p expected mf s a g h st = Put E p expected mf s a g st \<and>
    (s = '''' \<or> (\<exists>i k rec. decodeLeaseHex h = Some i \<and> with_id m' i = Some (k, rec) \<and> lr_holder rec = id_agent ident \<and>
       lr_conn rec = conn \<and> Live now i m'))"
proof -
  let ?s = "derefSession sp" and ?a = "derefSession ap"
  from assms have c: "checkSessionFence now ident conn ?s ?a m r = (Inr h, m', r')" and sa: "s = ?s" "a = ?a"
    by (auto simp: resolveSessionFence_def Let_def split: prod.splits sum.splits)
  show ?thesis
  proof (cases "s = ''''")
    case True
    then show ?thesis by (simp add: PutWithLeaseCheck_def validateSessionIDForLease_def)
  next
    case False
    let ?h = "drop (length sessionMountPrefix) s"
    from c False sa have pre: "has_prefix s sessionMountPrefix" "length sessionMountPrefix < length s" and h: "h = ?h"
      by (auto simp: checkSessionFence_def Let_def split: if_splits option.splits prod.splits)
    then have s: "s = sessionMountPrefix @ h" by (auto simp: has_prefix_iff)
    with pre have h0: "h \<noteq> ''''" by auto
    from c False sa h obtain i b where i: "decodeLeaseHex h = Some i" "AuthorizeOrRebindSession now i (id_agent ident) conn m = ((True, b), m')"
      by (auto simp: checkSessionFence_def Let_def split: if_splits option.splits prod.splits)
    from authorized_live [OF i(2)] i(1) s h0 show ?thesis
      by (auto simp: PutWithLeaseCheck_def validateSessionIDForLease_def)
  qed
qed

theorem gate_implies_store_check_witness:
  "\<exists>i k rec. decodeLeaseHex demo_hex = Some i \<and> with_id demo_mount i = Some (k, rec) \<and> lr_holder rec = id_agent demo_ident \<and>
     lr_conn rec = 1 \<and> Live 0 i demo_mount"
proof -
  have "resolveSessionFence 0 demo_ident 1 (Some (sessionMountPrefix @ demo_hex)) (Some ''d1'') demo_mount [] =
      (Inr (sessionMountPrefix @ demo_hex, ''d1'', demo_hex), demo_mount, [(''d1'', \<lparr> al_active = demo_hex, al_fenced = [] \<rparr>)])"
    by code_simp
  from conjunct2 [OF gate_implies_store_check [OF this]] show ?thesis by (simp add: sessionMountPrefix_def)
qed

end
