(* ===== verification/Cdc.thy ===== *)
theory Cdc
  imports Orlop_Prelude "HOL-Library.Word"
begin

text \<open>
  Content-defined chunking (cdc.go): FastCDC with a gear hash that consumes two bytes per turn. An
  index out of range, on which Go panics, is \<open>None\<close>, and so is a loop that never ends.

  The cut point is shown equal to the plain one-byte-at-a-time gear hash, and the chunks of a file to
  be a partition of it within the size limits.
\<close>

unbundle bit_operations_syntax

section \<open>The code\<close>

definition ChunkAvg :: nat where "ChunkAvg = 4 * 1024 * 1024"
definition ChunkMin :: nat where "ChunkMin = 1 * 1024 * 1024"
definition ChunkMax :: nat where "ChunkMax = 16 * 1024 * 1024"

record Chunk =
  ch_hash :: "byte list"
  ch_offset :: "64 word"
  ch_len :: "32 word"
  ch_bytes :: "byte list"

definition gear :: "64 word list" where
  "gear = [
    0x3b5d3c7d207e37dc, 0x784d68ba91123086, 0xcd52880f882e7298, 0xeacf8e4e19fdcca7,
    0xc31f385dfbd1632b, 0x1d5f27001e25abe6, 0x83130bde3c9ad991, 0xc4b225676e9b7649,
    0xaa329b29e08eb499, 0xb67fcbd21e577d58, 0x0027baaada2acf6b, 0xe3ef2d5ac73c2226,
    0x0890f24d6ed312b7, 0xa809e036851d7c7e, 0xf0a6fe5e0013d81b, 0x1d026304452cec14,
    0x03864632648e248f, 0xcdaacf3dcd92b9b4, 0xf5e012e63c187856, 0x8862f9d3821c00b6,
    0xa82f7338750f6f8a, 0x1e583dc6c1cb0b6f, 0x7a3145b69743a7f1, 0xabb20fee404807eb,
    0xb14b3cfe07b83a5d, 0xb9dc27898adb9a0f, 0x3703f5e91baa62be, 0xcf0bb866815f7d98,
    0x3d9867c41ea9dcd3, 0x1be1fa65442bf22c, 0x14300da4c55631d9, 0xe698e9cbc6545c99,
    0x4763107ec64e92a5, 0xc65821fc65696a24, 0x76196c064822f0b7, 0x485be841f3525e01,
    0xf652bc9c85974ff5, 0xcad8352face9e3e9, 0x2a6ed1dceb35e98e, 0xc6f483badc11680f,
    0x3cfd8c17e9cf12f1, 0x89b83c5e2ea56471, 0xae665cfd24e392a9, 0xec33c4e504cb8915,
    0x3fb9b15fc9fe7451, 0xd7fd1fd1945f2195, 0x31ade0853443efd8, 0x255efc9863e1e2d2,
    0x10eab6008d5642cf, 0x46f04863257ac804, 0xa52dc42a789a27d3, 0xdaaadf9ce77af565,
    0x6b479cd53d87febb, 0x6309e2d3f93db72f, 0xc5738ffbaa1ff9d6, 0x6bd57f3f25af7968,
    0x67605486d90d0a4a, 0xe14d0b9663bfbdae, 0xb7bbd8d816eb0414, 0xdef8a4f16b35a116,
    0xe7932d85aaaffed6, 0x08161cbae90cfd48, 0x855507beb294f08b, 0x91234ea6ffd399b2,
    0xad70cf4b2435f302, 0xd289a97565bc2d27, 0x8e558437ffca99de, 0x96d2704b7115c040,
    0x0889bbcdfc660e41, 0x5e0d4e67dc92128d, 0x72a9f8917063ed97, 0x438b69d409e016e3,
    0xdf4fed8a5d8a4397, 0x00f41dcf41d403f7, 0x4814eb038e52603f, 0x9dafbacc58e2d651,
    0xfe2f458e4be170af, 0x4457ec414df6a940, 0x06e62f1451123314, 0xbd1014d173ba92cc,
    0xdef318e25ed57760, 0x9fea0de9dfca8525, 0x459de1e76c20624b, 0xaeec189617e2d666,
    0x126a2c06ab5a83cb, 0xb1321532360f6132, 0x65421503dbb40123, 0x2d67c287ea089ab3,
    0x6c93bff5a56bd6b6, 0x4ffb2036cab6d98d, 0xce7b785b1be7ad4f, 0xedb42ef6189fd163,
    0xdc905288703988f6, 0x365f9c1d2c691884, 0xc640583680d99bfe, 0x3cd4624c07593ec6,
    0x7f1ea8d85d7c5805, 0x014842d480b57149, 0x0b649bcb5a828688, 0xbcd5708ed79b18f0,
    0xe987c862fbd2f2f0, 0x982731671f0cd82c, 0xbaf13e8b16d8c063, 0x8ea3109cbd951bba,
    0xd141045bfb385cad, 0x2acbc1a0af1f7d30, 0xe6444d89df03bfdf, 0xa18cc771b8188ff9,
    0x9834429db01c39bb, 0x214add07fe086a1f, 0x8f07c19b1f6b3ff9, 0x56a297b1bf4ffe55,
    0x94d558e493c54fc7, 0x40bfc24c764552cb, 0x931a706f8a8520cb, 0x32229d322935bd52,
    0x2560d0f5dc4fefaf, 0x9dbcc48355969bb6, 0x0fd81c3985c0b56a, 0xe03817e1560f2bda,
    0xc1bb4f81d892b2d5, 0xb0c4864f4e28d2d7, 0x3ecc49f9d9d6c263, 0x51307e99b52ba65e,
    0x8af2b688da84a752, 0xf5d72523b91b20b6, 0x6d95ff1ff4634806, 0x562f21555458339a,
    0xc0ce47f889336346, 0x487823e5089b40d8, 0xe4727c7ebc6d9592, 0x5a8f7277e94970ba,
    0xfca2f406b1c8bb50, 0x5b1f8a95f1791070, 0xd304af9fc9028605, 0x5440ab7fc930e748,
    0x312d25fbca2ab5a1, 0x10f4a4b234a4d575, 0x90301d55047e7473, 0x3b6372886c61591e,
    0x293402b77c444e06, 0x451f34a4d3e97dd7, 0x3158d814d81bc57b, 0x034942425b9bda69,
    0xe2032ff9e532d9bb, 0x62ae066b8b2179e5, 0x9545e10c2f8d71d8, 0x7ff7483eb2d23fc0,
    0x00945fcebdc98d86, 0x8764bbbe99b26ca2, 0x1b1ec62284c0bfc3, 0x58e0fcc4f0aa362b,
    0x5f4abefa878d458d, 0xfd74ac2f9607c519, 0xa4e3fb37df8cbfa9, 0xbf697e43cac574e5,
    0x86f14a3f68f4cd53, 0x24a23d076f1ce522, 0xe725cd8048868cc8, 0xbf3c729eb2464362,
    0xd8f6cd57b3cc1ed8, 0x6329e52425541577, 0x62aa688ad5ae1ac0, 0x0a242566269bf845,
    0x168b1a4753aca74b, 0xf789afefff2e7e3c, 0x6c3362093b6fccdb, 0x4ce8f50bd28c09b2,
    0x006a2db95ae8aa93, 0x975b0d623c3d1a8c, 0x18605d3935338c5b, 0x5bb6f6136cad3c71,
    0x0f53a20701f8d8a6, 0xab8c5ad2e7e93c67, 0x40b5ac5127acaa29, 0x8c7bf63c2075895f,
    0x78bd9f7e014a805c, 0xb2c9e9f4f9c8c032, 0xefd6049827eb91f3, 0x2be459f482c16fbd,
    0xd92ce0c5745aaa8c, 0x0aaa8fb298d965b9, 0x2b37f92c6c803b15, 0x8c54a5e94e0f0e78,
    0x95f9b6e90c0a3032, 0xe7939faa436c7874, 0xd16bfe8f6a8a40c9, 0x44982b86263fd2fa,
    0xe285fb39f984e583, 0x779a8df72d7619d3, 0xf2d79a8de8d5dd1e, 0xd1037354d66684e2,
    0x004c82a4e668a8e5, 0x31d40a7668b044e6, 0xd70578538bd02c11, 0xdb45431078c5f482,
    0x977121bb7f6a51ad, 0x73d5ccbd34eff8dd, 0xe437a07d356e17cd, 0x47b2782043c95627,
    0x9fb251413e41d49a, 0xccd70b60652513d3, 0x1c95b31e8a1b49b2, 0xcae73dfd1bcb4c1b,
    0x34d98331b1f5b70f, 0x784e39f22338d92f, 0x18613d4a064df420, 0xf1d8dae25f0bcebe,
    0x33f77c15ae855efc, 0x3c88b3b912eb109c, 0x956a2ec96bafeea5, 0x1aa005b5e0ad0e87,
    0x5500d70527c4bb8e, 0xe36c57196421cc44, 0x13c4d286cc36ee39, 0x5654a23d818b2a81,
    0x77b1dc13d161abdc, 0x734f44de5f8d5eb5, 0x60717e174a6c89a2, 0xd47d9649266a211e,
    0x5b13a4322bb69e90, 0xf7669609f8b5fc3c, 0x21e6ac55bedcdac9, 0x9b56b62b61166dea,
    0xf48f66b939797e9c, 0x35f332f9c0e6ae9a, 0xcc733f6a9a878db0, 0x3da161e41cc108c2,
    0xb7d74ae535914d51, 0x4d493b0b11d36469, 0xce264d1dfba9741a, 0xa9d1f2dc7436dc06,
    0x70738016604c2a27, 0x231d36e96e93f3d5, 0x7666881197838d19, 0x4a2a83090aaad40c,
    0xf1e761591668b35d, 0x7363236497f730a7, 0x301080e37379dd4d, 0x502dea2971827042,
    0xc2c5eb858f32625f, 0x786afb9edfafbdff, 0xdaee0d868490b2a4, 0x617366b3268609f6,
    0xae0e35a0fe46173e, 0xd1a07de93e824f11, 0x079b8b115ea4cca8, 0x93a99274558faebb,
    0xfb1e6e22e08a03b3, 0xea635fdba3698dd0, 0xcf53659328503a5c, 0xcde3b31e6fd5d780,
    0x8e3e4221d3614413, 0xef14d0d86bf1a22c, 0xe1d830d3f16c5ddb, 0xaabd2b2a451504e1]"

definition gearLS :: "64 word list" where
  "gearLS = map (push_bit 1) gear"

definition gear_at :: "byte \<Rightarrow> 64 word" where "gear_at b = gear ! unat b"

definition gearLS_at :: "byte \<Rightarrow> 64 word" where "gearLS_at b = gearLS ! unat b"

definition byte_at :: "byte list \<Rightarrow> nat \<Rightarrow> byte option" where
  "byte_at src i = (if i < length src then Some (src ! i) else None)"

datatype scan_end = CutAt nat | ScanTo nat "64 word"

text \<open>One of the two scanning loops: up to \<open>stop\<close>, with a mask and the mask for the shifted lane.\<close>

function scan_gear :: "byte list \<Rightarrow> nat \<Rightarrow> 64 word \<Rightarrow> 64 word \<Rightarrow> nat \<Rightarrow> 64 word \<Rightarrow> scan_end option" where
  "scan_gear src stop mk mLS index hash =
     (if index < stop then
        (let a = index * 2
         in case byte_at src a of
              None \<Rightarrow> None
            | Some b0 \<Rightarrow>
                (let h1 = push_bit 2 hash + gearLS_at b0
                 in if h1 AND mLS = 0 then Some (CutAt a)
                    else case byte_at src (a + 1) of
                           None \<Rightarrow> None
                         | Some b1 \<Rightarrow>
                             (let h2 = h1 + gear_at b1
                              in if h2 AND mk = 0 then Some (CutAt (a + 1))
                                 else scan_gear src stop mk mLS (index + 1) h2)))
      else Some (ScanTo index hash))"
  by pat_completeness auto
termination by (relation "measure (\<lambda>(src, stop, mk, mLS, index, hash). stop - index)") auto

declare scan_gear.simps [simp del]

definition v2020Cut :: "byte list \<Rightarrow> nat \<Rightarrow> nat \<Rightarrow> nat \<Rightarrow> 64 word \<Rightarrow> 64 word \<Rightarrow> 64 word \<Rightarrow> 64 word \<Rightarrow> nat option" where
  "v2020Cut src minSize avgSize maxSize maskS maskL maskSLS maskLLS =
     (let n0 = length src
      in if n0 \<le> minSize then Some n0
         else let n = (if n0 > maxSize then maxSize else n0);
                  center = (if n0 > maxSize then avgSize else if n0 < avgSize then n0 else avgSize)
              in case scan_gear src (center div 2) maskS maskSLS (minSize div 2) 0 of
                   None \<Rightarrow> None
                 | Some (CutAt c) \<Rightarrow> Some c
                 | Some (ScanTo index hash) \<Rightarrow>
                     (case scan_gear src (n div 2) maskL maskLLS index hash of
                        None \<Rightarrow> None
                      | Some (CutAt c) \<Rightarrow> Some c
                      | Some (ScanTo _ _) \<Rightarrow> Some n))"

definition cdc_maskS :: "64 word" where "cdc_maskS = 0x0000d93777537000"
definition cdc_maskL :: "64 word" where "cdc_maskL = 0x0000d91767537000"

definition next_cut :: "byte list \<Rightarrow> nat option" where
  "next_cut remaining =
     v2020Cut remaining ChunkMin ChunkAvg ChunkMax cdc_maskS cdc_maskL (push_bit 1 cdc_maskS) (push_bit 1 cdc_maskL)"

partial_function (option) chunk_loop :: "(byte list \<Rightarrow> byte list) \<Rightarrow> byte list \<Rightarrow> 64 word \<Rightarrow> Chunk list \<Rightarrow> Chunk list option" where
  "chunk_loop blake3 remaining offset out =
     (if remaining = [] then Some out
      else case next_cut remaining of
             None \<Rightarrow> None
           | Some len \<Rightarrow>
               if length remaining < len then None
               else let buf = take len remaining
                    in chunk_loop blake3 (drop len remaining) (offset + of_nat len)
                         (out @ [\<lparr> ch_hash = blake3 buf, ch_offset = offset, ch_len = of_nat len, ch_bytes = buf \<rparr>]))"

definition chunkBytes :: "(byte list \<Rightarrow> byte list) \<Rightarrow> byte list \<Rightarrow> Chunk list option" where
  "chunkBytes blake3 data =
     (if data = [] then Some [\<lparr> ch_hash = blake3 [], ch_offset = 0, ch_len = 0, ch_bytes = [] \<rparr>]
      else chunk_loop blake3 data 0 [])"

text \<open>A file or stream that cannot be opened or read is \<open>Inl\<close>.\<close>

definition ChunkReader :: "(byte list \<Rightarrow> byte list) \<Rightarrow> 'e + byte list \<Rightarrow> ('e + Chunk list) option" where
  "ChunkReader blake3 r = (case r of Inl e \<Rightarrow> Some (Inl e) | Inr data \<Rightarrow> map_option Inr (chunkBytes blake3 data))"

section \<open>The two lanes are one gear hash\<close>

text \<open>The gear hash one byte at a time.\<close>

fun gear_scan :: "byte list \<Rightarrow> nat \<Rightarrow> nat \<Rightarrow> 64 word \<Rightarrow> 64 word \<Rightarrow> nat + 64 word" where
  "gear_scan src i 0 mk h = Inr h"
| "gear_scan src i (Suc k) mk h =
     (let h' = push_bit 1 h + gear_at (src ! i)
      in if h' AND mk = 0 then Inl i else gear_scan src (Suc i) k mk h')"

definition reference_cut :: "byte list \<Rightarrow> nat \<Rightarrow> nat \<Rightarrow> nat \<Rightarrow> 64 word \<Rightarrow> 64 word \<Rightarrow> nat" where
  "reference_cut src minSize avgSize maxSize maskS maskL =
     (let n = min (length src) maxSize; lo = 2 * (minSize div 2); mid = 2 * (min avgSize n div 2); hi = 2 * (n div 2)
      in if length src \<le> minSize then length src
         else case gear_scan src lo (mid - lo) maskS 0 of
                Inl c \<Rightarrow> c
              | Inr h \<Rightarrow> (case gear_scan src (max lo mid) (hi - max lo mid) maskL h of Inl c \<Rightarrow> c | Inr _ \<Rightarrow> n))"


lemma length_gear: "length gear = 256"
  by (simp add: gear_def)

lemma gearLS_push: "gearLS_at b = push_bit 1 (gear_at b)"
proof -
  have "unat b < 256" using unsigned_less [of b] by simp
  then show ?thesis by (simp add: gearLS_at_def gear_at_def gearLS_def length_gear)
qed

lemma lane_shift: "push_bit 2 h + gearLS_at b = push_bit 1 (push_bit 1 h + gear_at b)"
  by (simp add: gearLS_push push_bit_eq_mult algebra_simps)

lemma lane_mask:
  fixes x m :: "64 word"
  assumes "\<not> bit m 63"
  shows "push_bit 1 x AND push_bit 1 m = 0 \<longleftrightarrow> x AND m = 0"
proof -
  have "push_bit 1 y = 0 \<longleftrightarrow> y = 0" if "\<not> bit y 63" for y :: "64 word"
  proof
    assume p: "push_bit 1 y = 0"
    have "\<not> bit y n" if "n < 64" for n
    proof (cases "n = 63")
      case False
      have "bit (push_bit 1 y) (Suc n) \<longleftrightarrow> 1 \<le> Suc n \<and> Suc n < 64 \<and> bit y (Suc n - 1)"
        unfolding bit_push_bit_iff by simp
      with p False that show ?thesis by simp
    qed (use \<open>\<not> bit y 63\<close> in simp)
    then show "y = 0" by (intro bit_word_eqI) simp
  qed simp
  from this [of "x AND m"] assms show ?thesis unfolding push_bit_and by (simp only: bit_and_iff simp_thms)
qed

lemma lane_test:
  fixes h g m :: "64 word"
  assumes "\<not> bit m 63"
  shows "4 * h + g * 2 AND m * 2 = 0 \<longleftrightarrow> h * 2 + g AND m = 0"
proof -
  have p: "4 * h + g * 2 = push_bit 1 (h * 2 + g)" "m * 2 = push_bit 1 m" by simp_all
  show ?thesis unfolding p by (rule lane_mask [OF assms])
qed

lemma scan_gear_reference:
  assumes "2 * stop \<le> length src" "\<not> bit mk 63"
  shows "scan_gear src stop mk (push_bit 1 mk) index h =
    (case gear_scan src (2 * index) (2 * (stop - index)) mk h of Inl c \<Rightarrow> Some (CutAt c) | Inr h' \<Rightarrow> Some (ScanTo (max index stop) h'))"
proof (induction "stop - index" arbitrary: index h)
  case 0
  then show ?case by (subst scan_gear.simps) simp
next
  case (Suc k)
  then have lt: "index < stop" by simp
  let ?h1 = "push_bit 1 h + gear_at (src ! (2 * index))" and ?h2 = "push_bit 1 (push_bit 1 h + gear_at (src ! (2 * index))) + gear_at (src ! Suc (2 * index))"
  have in_range: "2 * index < length src" "Suc (2 * index) < length src" using lt assms(1) by linarith+
  have k: "2 * (stop - index) = Suc (Suc (2 * (stop - Suc index)))" using lt by simp
  have step: "scan_gear src stop mk (push_bit 1 mk) index h =
      (if ?h1 AND mk = 0 then Some (CutAt (2 * index))
       else if ?h2 AND mk = 0 then Some (CutAt (Suc (2 * index)))
       else scan_gear src stop mk (push_bit 1 mk) (Suc index) ?h2)"
    by (subst scan_gear.simps)
       (simp add: lt byte_at_def in_range lane_shift lane_test [OF assms(2)] Let_def mult.commute [of index 2])
  have IH: "scan_gear src stop mk (push_bit 1 mk) (Suc index) ?h2 =
      (case gear_scan src (2 * Suc index) (2 * (stop - Suc index)) mk ?h2 of Inl c \<Rightarrow> Some (CutAt c) | Inr h' \<Rightarrow> Some (ScanTo (max (Suc index) stop) h'))"
    by (rule Suc.hyps(1)) (use Suc.hyps(2) in simp)
  from lt have m: "max (Suc index) stop = max index stop" by simp
  show ?case unfolding k step IH m by (simp add: Let_def)
qed

lemma masks_bit63: "\<not> bit cdc_maskS 63" "\<not> bit cdc_maskL 63"
  by (simp_all add: cdc_maskS_def cdc_maskL_def)

lemma next_cut_reference: "next_cut src = Some (reference_cut src ChunkMin ChunkAvg ChunkMax cdc_maskS cdc_maskL)"
proof (cases "length src \<le> ChunkMin")
  case True
  then show ?thesis by (simp add: next_cut_def v2020Cut_def reference_cut_def)
next
  case False
  let ?n = "min (length src) ChunkMax" and ?c = "min ChunkAvg (min (length src) ChunkMax)"
  have n: "(if length src > ChunkMax then ChunkMax else length src) = ?n" by simp
  have c: "(if length src > ChunkMax then ChunkAvg else if length src < ChunkAvg then length src else ChunkAvg) = ?c"
    by (simp add: ChunkAvg_def ChunkMax_def)
  have "2 * (?c div 2) \<le> length src" "2 * (?n div 2) \<le> length src" by linarith+
  note s = scan_gear_reference [OF this(1) masks_bit63(1)] scan_gear_reference [OF this(2) masks_bit63(2)]
  have m: "2 * max a b = max (2 * a) (2 * b)" for a b :: nat by simp
  have d: "2 * (a - b) = 2 * a - 2 * b" for a b :: nat by simp
  show ?thesis using False unfolding next_cut_def v2020Cut_def reference_cut_def Let_def n c s
    by (simp add: m d split: sum.split)
qed

section \<open>Bounds and partition\<close>

lemma gear_scan_range: "gear_scan src i k mk h = Inl c \<Longrightarrow> i \<le> c \<and> c < i + k"
  by (induction src i k mk h rule: gear_scan.induct) (auto simp: Let_def split: if_splits)

lemma two_scans:
  assumes "lo \<le> n" "mid \<le> n" "hi \<le> n"
    and c_def: "(case gear_scan src lo (mid - lo) m1 h0 of Inl c \<Rightarrow> c
      | Inr h \<Rightarrow> (case gear_scan src (max lo mid) (hi - max lo mid) m2 h of Inl c \<Rightarrow> c | Inr _ \<Rightarrow> n)) = c"
  shows "lo \<le> c \<and> c \<le> n"
proof (cases "gear_scan src lo (mid - lo) m1 h0")
  case (Inl c')
  then have "c = c'" using c_def by simp
  with gear_scan_range [OF Inl] assms(2) show ?thesis by linarith
next
  case first: (Inr h)
  show ?thesis
  proof (cases "gear_scan src (max lo mid) (hi - max lo mid) m2 h")
    case (Inl c')
    with first have "c = c'" using c_def by simp
    with gear_scan_range [OF Inl] assms(3) max.cobounded1 [of lo mid] show ?thesis by linarith
  next
    case (Inr h')
    with first have "c = n" using c_def by simp
    with assms(1) show ?thesis by simp
  qed
qed

lemma next_cut_bounds:
  assumes "src \<noteq> []"
  shows "\<exists>c. next_cut src = Some c \<and> 0 < c \<and> c \<le> length src \<and> c \<le> ChunkMax \<and> (c = length src \<or> ChunkMin \<le> c)"
proof (cases "length src \<le> ChunkMin")
  case True
  have "ChunkMin \<le> ChunkMax" by (simp add: ChunkMin_def ChunkMax_def)
  with True assms show ?thesis by (simp add: next_cut_reference reference_cut_def)
next
  case False
  let ?n = "min (length src) ChunkMax"
  have k: "2 * (ChunkMin div 2) = ChunkMin" "0 < ChunkMin" "ChunkMin \<le> ChunkMax" by (simp_all add: ChunkMin_def ChunkMax_def)
  have n: "ChunkMin \<le> ?n" "?n \<le> length src" "?n \<le> ChunkMax" using False k(3) by auto
  have hi: "2 * (?n div 2) \<le> ?n" by (rule times_div_less_eq_dividend)
  have mid: "2 * (min ChunkAvg ?n div 2) \<le> ?n" by (rule le_trans [OF times_div_less_eq_dividend min.cobounded2])
  obtain c where c: "reference_cut src ChunkMin ChunkAvg ChunkMax cdc_maskS cdc_maskL = c" by blast
  have "ChunkMin \<le> c \<and> c \<le> ?n"
    by (rule two_scans [OF n(1) mid hi])
       (use c False in \<open>simp only: reference_cut_def Let_def k(1) if_False\<close>)
  with n k(2) have "0 < c" "c \<le> length src" "c \<le> ChunkMax" "ChunkMin \<le> c" by linarith+
  then show ?thesis unfolding next_cut_reference c by blast
qed

text \<open>What the chunks of a file look like, from a position on.\<close>

fun chunks_from :: "(byte list \<Rightarrow> byte list) \<Rightarrow> nat \<Rightarrow> Chunk list \<Rightarrow> bool" where
  "chunks_from blake3 pos [] \<longleftrightarrow> True"
| "chunks_from blake3 pos (c # cs) \<longleftrightarrow>
     ch_hash c = blake3 (ch_bytes c) \<and> ch_offset c = of_nat pos \<and> unat (ch_len c) = length (ch_bytes c) \<and>
     0 < length (ch_bytes c) \<and> length (ch_bytes c) \<le> ChunkMax \<and> (cs = [] \<or> ChunkMin \<le> length (ch_bytes c)) \<and>
     chunks_from blake3 (pos + length (ch_bytes c)) cs"

lemma chunk_loop_returns:
  "\<exists>cs. chunk_loop blake3 remaining (of_nat pos) out = Some (out @ cs) \<and> concat (map ch_bytes cs) = remaining \<and> chunks_from blake3 pos cs"
proof (induction "length remaining" arbitrary: remaining pos out rule: less_induct)
  case less
  show ?case
  proof (cases "remaining = []")
    case True
    then show ?thesis by (subst chunk_loop.simps) (auto intro!: exI [of _ "[]"])
  next
    case False
    from next_cut_bounds [OF this] obtain c where c: "next_cut remaining = Some c" "0 < c" "c \<le> length remaining" "c \<le> ChunkMax"
      "c = length remaining \<or> ChunkMin \<le> c" by blast
    let ?x = "\<lparr> ch_hash = blake3 (take c remaining), ch_offset = of_nat pos, ch_len = of_nat c, ch_bytes = take c remaining \<rparr>"
    have shorter: "length (drop c remaining) < length remaining" using c False by simp

    from less [OF shorter, of "pos + c" "out @ [?x]"] obtain cs
      where cs: "chunk_loop blake3 (drop c remaining) (of_nat (pos + c)) (out @ [?x]) = Some ((out @ [?x]) @ cs)"
        "concat (map ch_bytes cs) = drop c remaining" "chunks_from blake3 (pos + c) cs" by blast
    have "chunk_loop blake3 remaining (of_nat pos) out = Some (out @ ?x # cs)"
      by (subst chunk_loop.simps) (use False c(1,3) cs(1) in \<open>simp add: Let_def\<close>)
    moreover have "concat (map ch_bytes (?x # cs)) = remaining" by (simp add: cs(2))
    moreover have "chunks_from blake3 pos (?x # cs)"
    proof -
      have "c < 2 ^ 32" using c(4) by (simp add: ChunkMax_def)
      then have "unat (of_nat c :: 32 word) = c" by (simp add: unsigned_of_nat take_bit_nat_eq_self)
      moreover have "cs = [] \<or> ChunkMin \<le> c" using c cs(2) cs(3) by (cases cs) auto
      ultimately show ?thesis using c cs(3) by (simp add: min_absorb2)
    qed
    ultimately show ?thesis by blast
  qed
qed

text \<open>
  C35. Chunking a file always returns, without ever reading out of range, and the chunks are a
  partition of the file: their bytes in order are the file, the offsets and lengths recorded are where
  each one lies, each hash is the hash of the chunk's bytes, no chunk is empty or longer than the
  maximum and only the last may be shorter than the minimum. An empty file is one empty chunk.
\<close>

theorem chunks_partition_file:
  "\<exists>cs. chunkBytes blake3 data = Some cs \<and> concat (map ch_bytes cs) = data \<and>
     (if data = [] then cs = [\<lparr> ch_hash = blake3 [], ch_offset = 0, ch_len = 0, ch_bytes = [] \<rparr>] else chunks_from blake3 0 cs)"
  using chunk_loop_returns [of blake3 data 0 "[]"] by (simp add: chunkBytes_def)

text \<open>
  C36. The two-bytes-per-turn loop with its pre-shifted table and masks cuts exactly where the plain
  gear hash, one byte at a time, first meets the mask.
\<close>

theorem cut_is_gear_hash: "next_cut src = Some (reference_cut src ChunkMin ChunkAvg ChunkMax cdc_maskS cdc_maskL)"
  by (rule next_cut_reference)

end
