(* ===== verification/Revert_Props.thy ===== *)
theory Revert_Props
  imports Revert
begin

text \<open>
  What a revert does to the files a reader sees. \<open>content\<close> is the size, mode, modification time and
  chunk list a path reads back with; the lemmas follow it through each kind of change and through the
  inverse the journal row of that change asks for.
\<close>

section \<open>Content\<close>

definition content :: "tenant_db \<Rightarrow> string \<Rightarrow> (64 word \<times> 32 word \<times> int \<times> ChunkRef list) option" where
  "content db q = (case Get db q of Inl _ \<Rightarrow> None | Inr m \<Rightarrow> Some (m_size m, m_mode m, m_mtime m, m_chunks m))"

definition row_content :: "manifest_row \<Rightarrow> 64 word \<times> 32 word \<times> int \<times> ChunkRef list" where
  "row_content r = (mf_size r, mf_mode r, mf_mtime r, chunks_of (mf_chunks r))"

lemma row_content_upd [simp]:
  "row_content (r\<lparr>mf_rev := v\<rparr>) = row_content r" "row_content (r\<lparr>mf_path := q\<rparr>) = row_content r"
  by (simp_all add: row_content_def)

lemma content_row: "db_inv db \<Longrightarrow> content db q = map_option row_content (tbl_get mf_path (db_manifests db) q)"
  by (simp add: content_def Get_row row_manifest_def row_content_def split: option.splits)

lemma content_cong: "db_manifests db' = db_manifests db \<Longrightarrow> content db' q = content db q"
  by (simp add: content_def Get_def split: option.splits)

lemma content_stamp: "map_option row_content (tbl_get mf_path (stamp_inode rv i rows) q) = map_option row_content (tbl_get mf_path rows q)"
  by (subst tbl_get_update) (auto simp: option.map_comp o_def if_distrib cong: if_cong)

lemma same_file_content:
  assumes "db_inv db" "same_file db p q"
  shows "content db q = content db p"
proof -
  obtain x y where xy: "tbl_get mf_path (db_manifests db) p = Some x" "tbl_get mf_path (db_manifests db) q = Some y" "mf_inode x = mf_inode y"
    using assms(2) by (auto simp: same_file_def split: option.splits)
  then have "inode_data x = inode_data y"
    using alias_data [OF db_invD(5) [OF assms(1)], of y x] by (auto dest: tbl_get_SomeD)
  with xy show ?thesis by (simp add: content_row [OF assms(1)] row_content_def inode_data_def)
qed

lemma Put_content:
  assumes "db_inv (ms_db st)" "Put E p n mf s a g st = (Inr v, st')"
  shows "content (ms_db st') q = (if q = p \<or> same_file (ms_db st) p q then Some (m_size mf, m_mode mf, m_mtime mf, m_chunks mf)
           else content (ms_db st) q)"
proof (cases "q = p \<or> same_file (ms_db st) p q")
  case True
  from Put_rows(1) [OF assms True] show ?thesis
    using True by (auto simp: content_row [OF Put_inv [OF assms]] row_content_def chunks_of_def)
next
  case False
  then show ?thesis by (simp add: content_def Put_get_frame [OF assms])
qed

lemma Link_content:
  assumes "db_inv (ms_db st)" "Link E src dst s a g st = (Inr n, st')"
  shows "content (ms_db st') q = (if q = dst then content (ms_db st) src else content (ms_db st) q)"
proof -
  obtain je0 rv0 where c: "Link_tx E src dst s a g (ms_db st) = Inr (Commit n je0 rv0, ms_db st')" using assms(2) by (rule Link_Inr)
  from c obtain x rv where x: "tbl_get mf_path (db_manifests (ms_db st)) src = Some x" "dst \<notin> tbl_keys mf_path (db_manifests (ms_db st))"
    and rows: "db_manifests (ms_db st') = stamp_inode rv (mf_inode x) (db_manifests (ms_db st) @ [x\<lparr>mf_path := dst, mf_rev := rv\<rparr>])"
    by (auto elim!: Link_Commit)
  from x(2) have d: "tbl_get mf_path (db_manifests (ms_db st)) dst = None" by (simp add: tbl_get_None)
  show ?thesis
    unfolding content_row [OF link.commit_inv [OF assms(1) c]] content_row [OF assms(1)] rows content_stamp
    using x(1) d by (auto simp: tbl_get_append tbl_get_Cons split: option.splits)
qed

lemma Delete_content:
  assumes "db_inv (ms_db st)" "Delete E p n s a g st = (Inr u, st')"
    "p \<notin> tbl_keys sn_path (db_specials (ms_db st))" "p \<notin> tbl_keys sl_path (db_symlinks (ms_db st))"
  shows "content (ms_db st') q = (if q = p then None else content (ms_db st) q)"
proof (rule Delete_get [OF assms])
  fix m
  assume g: "Get (ms_db st') p = Inl ErrManifestNotFound"
    and al: "\<And>q mq. q \<noteq> p \<Longrightarrow> same_file (ms_db st) p q \<Longrightarrow> Get (ms_db st) q = Inr mq \<Longrightarrow>
        Get (ms_db st') q = Inr (mq\<lparr>m_nlink := m_nlink m - 1\<rparr>)"
    and fr: "\<And>q. q \<noteq> p \<Longrightarrow> \<not> same_file (ms_db st) p q \<Longrightarrow> Get (ms_db st') q = Get (ms_db st) q"
  consider "q = p" | mq where "q \<noteq> p" "same_file (ms_db st) p q" "Get (ms_db st) q = Inr mq" | "q \<noteq> p" "\<not> same_file (ms_db st) p q"
    by (cases "same_file (ms_db st) p q") (auto simp: same_file_def Get_row [OF assms(1)] split: option.splits)
  then show ?thesis
  proof cases
    case 1
    with g show ?thesis by (simp add: content_def)
  next
    case 2
    with al [OF 2] show ?thesis by (simp add: content_def)
  next
    case 3
    with fr [OF 3] show ?thesis by (simp add: content_def)
  qed
qed

section \<open>The row a change leaves\<close>

text \<open>\<open>j\<close> is the row a journalled change of \<open>p\<close> appended.\<close>

definition left_row :: "env \<Rightarrow> string \<Rightarrow> string \<Rightarrow> string \<Rightarrow> SessionOp \<Rightarrow> nat option \<Rightarrow> byte list option \<Rightarrow> string \<Rightarrow> tenant_db \<Rightarrow> tenant_db \<Rightarrow> journal_row \<Rightarrow> bool" where
  "left_row E s a p op after_v blob src db db' j \<longleftrightarrow> s \<noteq> '''' \<and> a \<noteq> '''' \<and>
     db_journal db' = db_journal db @ [j] \<and> j_session j = s \<and> j_alloc j = a \<and> j_path j = p \<and> j_op j = op \<and>
     j_seq j = next_seq s (db_journal db) \<and> j_ts j = e_now E \<and> j_after_version j = after_v \<and>
     j_before_manifest j = blob \<and> j_rename_from j = (if src = '''' then None else Some src)"

lemma journal_if_row:
  assumes "journal_if E s a g op p prior after_v src db = Inr (je, db')" "s \<noteq> ''''"
  obtains j where "left_row E s a p op after_v (case prior of None \<Rightarrow> None | Some mf \<Rightarrow> encodeJournalManifest E mf) src db db' j"
    "prior = Some mf \<Longrightarrow> encodeJournalManifest E mf \<noteq> None" "db' = db\<lparr>db_journal := db_journal db @ [j]\<rparr>"
proof -
  from assms obtain e where "journalBeforeWrite E s a g op p prior after_v src db = Inr (e, db')"
    by (auto simp: journal_if_def)
  then show thesis
    by (rule journalBeforeWrite_Inr) (rule that, auto simp: left_row_def journal_row_of_def split: option.splits)
qed

lemma Put_left_row:
  assumes "Put_tx E p n mf s a g db = Inr (out, db')" "s \<noteq> ''''"
  obtains (create) j where "n = 0" "tbl_get mf_path (db_manifests db) p = None" "left_row E s a p SessionOpCreate (Some 1) None '''' db db' j"
  | (update) x cs blob j where "0 < n" "tbl_get mf_path (db_manifests db) p = Some x" "unpackChunks (mf_chunks x) = Some cs"
      "encodeJournalManifest E (prior_manifest p (Some x) cs) = Some blob"
      "left_row E s a p SessionOpUpdate (Some (Suc n)) (Some blob) '''' db db' j"
proof (cases "n = 0")
  case True
  with assms(1) have p: "tbl_get mf_path (db_manifests db) p = None" by (auto elim!: Put_insert_Commit simp: tbl_get_None)
  let ?db1 = "db\<lparr>db_next_inode := Suc (db_next_inode db), db_last_rev := Suc (db_last_rev db)\<rparr>"
  from assms(1) p True obtain je db2 where
    "journal_if E s a g SessionOpCreate p None (Some 1) '''' ?db1 = Inr (je, db2)" "db_journal db' = db_journal db2"
    by (auto simp: Put_tx_def)
  with assms(2) obtain j where "left_row E s a p SessionOpCreate (Some 1) None '''' db db' j"
    by (elim journal_if_row) (auto simp: left_row_def)
  with True p show thesis by (rule create)
next
  case False
  then obtain x cs where x: "tbl_get mf_path (db_manifests db) p = Some x" "unpackChunks (mf_chunks x) = Some cs"
    using assms(1) by (auto elim!: Put_update_Commit)
  let ?db1 = "db\<lparr>db_last_rev := Suc (db_last_rev db)\<rparr>"
  from assms(1) x False obtain je db2 where
    "journal_if E s a g SessionOpUpdate p (Some (prior_manifest p (Some x) cs)) (Some (Suc n)) '''' ?db1 = Inr (je, db2)"
    "db_journal db' = db_journal db2"
    by (auto simp: Put_tx_def)
  with assms(2) obtain j where "left_row E s a p SessionOpUpdate (Some (Suc n)) (encodeJournalManifest E (prior_manifest p (Some x) cs)) '''' db db' j"
    "encodeJournalManifest E (prior_manifest p (Some x) cs) \<noteq> None"
    by (elim journal_if_row [where mf = "prior_manifest p (Some x) cs"]) (auto simp: left_row_def)
  with False x show thesis by (auto intro: update)
qed

lemma Link_left_row:
  assumes "Link_tx E src dst s a g db = Inr (out, db')" "s \<noteq> ''''"
  obtains x j where "tbl_get mf_path (db_manifests db) src = Some x"
    "left_row E s a dst SessionOpCreate (Some (mf_version x)) None '''' db db' j"
proof -
  from assms obtain x where x: "tbl_get mf_path (db_manifests db) src = Some x" by (auto simp: Link_tx_def)
  from assms(1) x obtain je db1 where
    "journal_if E s a g SessionOpCreate dst None (Some (mf_version x)) '''' db1 = Inr (je, db')" "db_journal db1 = db_journal db"
    by (auto simp: Link_tx_def restamp_inode_def)
  with assms(2) obtain j where "left_row E s a dst SessionOpCreate (Some (mf_version x)) None '''' db db' j"
    by (elim journal_if_row) (auto simp: left_row_def)
  with x show thesis by (rule that)
qed

lemma Delete_left_row:
  assumes "Delete_tx E p n s a g db = Inr (out, db')" "s \<noteq> ''''"
  obtains x cs blob j ali where "tbl_get mf_path (db_manifests db) p = Some x" "unpackChunks (mf_chunks x) = Some cs"
    "encodeJournalManifest E (prior_manifest p (Some x) cs) = Some blob"
    "left_row E s a p SessionOpDelete None (Some blob) ali db db' j"
    "if 1 < nlink_of db (mf_inode x) then surviving_alias db (mf_inode x) p = Some ali else ali = ''''"
proof -
  from assms obtain x cs where x: "tbl_get mf_path (db_manifests db) p = Some x" "unpackChunks (mf_chunks x) = Some cs"
    by (auto simp: Delete_tx_def)
  let ?nl = "nlink_of db (mf_inode x)"
  from assms x obtain je db1 ali where j: "delete_alias_tx ?nl (mf_inode x) p db = Inr (ali, db)"
    "journal_if E s a g SessionOpDelete p (Some (prior_manifest p (Some x) cs)) None ali db = Inr (je, db1)"
    and db': "db_journal db' = db_journal db1"
    by (auto simp: Delete_tx_def restamp_inode_def dest: delete_alias_tx_Inr split: if_splits)
  have "if 1 < ?nl then surviving_alias db (mf_inode x) p = Some ali else ali = ''''"
    using j(1) by (auto simp: delete_alias_tx_def)
  moreover from j(2) assms(2) db' obtain j where
    "left_row E s a p SessionOpDelete None (encodeJournalManifest E (prior_manifest p (Some x) cs)) ali db db' j"
    "encodeJournalManifest E (prior_manifest p (Some x) cs) \<noteq> None"
    by (elim journal_if_row [where mf = "prior_manifest p (Some x) cs"]) (auto simp: left_row_def)
  ultimately show thesis using x by (auto intro: that)
qed

section \<open>Finding the row again\<close>

definition clock_ok :: "env \<Rightarrow> string \<Rightarrow> string \<Rightarrow> string \<Rightarrow> tenant_db \<Rightarrow> bool" where
  "clock_ok E s a p db \<longleftrightarrow> (\<forall>j\<in>set (db_journal db). j_alloc j = a \<and> j_path j = p \<longrightarrow>
     j_ts j < e_now E \<or> j_ts j = e_now E \<and> j_session j = s)"

lemma newest_left_row:
  assumes "left_row E s a p op after_v blob src db db' j" "clock_ok E s a p db"
  shows "latestRowForPath a p db' = Some (scanRevertRow j)"
proof -
  let ?f = "\<lambda>j. (- j_ts j, - int (j_seq j))" and ?xs = "filter (\<lambda>j. j_alloc j = a \<and> j_path j = p) (db_journal db)"
  have "\<forall>k\<in>set ?xs. ?f j < ?f k"
  proof
    fix k assume k: "k \<in> set ?xs"
    then consider "j_ts k < e_now E" | "j_ts k = e_now E" "j_session k = s" using assms(2) by (auto simp: clock_ok_def)
    then show "?f j < ?f k"
    proof cases
      case 2
      with k have "j_seq k < next_seq s (db_journal db)" using seq_less_next [of k "db_journal db" s] by auto
      with 2 assms(1) show ?thesis by (simp add: left_row_def)
    qed (use assms(1) in \<open>simp add: left_row_def\<close>)
  qed
  from sort_key_new_min [OF this] show ?thesis
    using assms(1) by (simp add: latestRowForPath_def newest_row_def left_row_def)
qed

section \<open>The inverse calls succeed\<close>

lemma surviving_alias_row:
  assumes "surviving_alias db i p = Some q"
  shows "\<exists>r\<in>set (db_manifests db). mf_path r = q \<and> mf_inode r = i \<and> q \<noteq> p"
proof -
  have "q \<in> set (sort (map mf_path (filter (\<lambda>r. mf_inode r = i \<and> mf_path r \<noteq> p) (db_manifests db))))"
    using assms by (auto simp: surviving_alias_def simp del: set_sort split: list.splits)
  then show ?thesis by auto
qed

lemma surviving_alias_ex:
  assumes inv: "db_inv db" and x: "tbl_get mf_path (db_manifests db) p = Some x" and nl: "1 < nlink_of db (mf_inode x)"
  shows "\<exists>q. surviving_alias db (mf_inode x) p = Some q"
proof -
  have xin: "x \<in> set (db_manifests db)" "mf_path x = p" using x by (auto dest: tbl_get_SomeD)
  have "\<exists>r\<in>set (db_manifests db). mf_inode r = mf_inode x \<and> mf_path r \<noteq> p"
  proof (rule ccontr)
    assume "\<not> ?thesis"
    then have "tbl_count (\<lambda>r. mf_inode r = mf_inode x) (tbl_delete (\<lambda>r. mf_path r = p) (db_manifests db)) = 0" by auto
    with count_delete_row [OF db_invD(1) [OF inv] xin, of "mf_inode x"] nl show False by (simp add: nlink_of_def)
  qed
  then obtain q where "q \<in> set (sort (map mf_path (filter (\<lambda>r. mf_inode r = mf_inode x \<and> mf_path r \<noteq> p) (db_manifests db))))"
    by auto
  then show ?thesis by (auto simp: surviving_alias_def simp del: set_sort split: list.splits)
qed

lemma Delete_tx_defined:
  assumes inv: "db_inv db" and x: "tbl_get mf_path (db_manifests db) p = Some x" "mf_version x = n"
    and j: "s = '''' \<or> a \<noteq> ''''"
    and enc: "\<And>cs. unpackChunks (mf_chunks x) = Some cs \<Longrightarrow> encodeJournalManifest E (prior_manifest p (Some x) cs) \<noteq> None"
  shows "\<exists>je rv db'. Delete_tx E p n s a g db = Inr (Commit () je rv, db')"
proof -
  have xin: "x \<in> set (db_manifests db)" "mf_path x = p" using x(1) by (auto dest: tbl_get_SomeD)
  obtain cs where cs: "unpackChunks (mf_chunks x) = Some cs"
    using rows_okD [OF db_invD(7) [OF inv] xin(1)] by (auto simp: row_ok_def)
  let ?nl = "nlink_of db (mf_inode x)"
  obtain ali where ali: "delete_alias_tx ?nl (mf_inode x) p db = Inr (ali, db)"
  proof (cases "1 < ?nl")
    case True
    then obtain q where "surviving_alias db (mf_inode x) p = Some q" using surviving_alias_ex [OF inv x(1)] by blast
    with True show thesis by (intro that [of q]) (simp add: delete_alias_tx_def tx_eval)
  qed (intro that [of "''''"], simp add: delete_alias_tx_def tx_eval)
  let ?jm = "if s = '''' then tx_return None
      else tx_bind (delete_alias_tx ?nl (mf_inode x) p) (\<lambda>alias.
           journal_if E s a g SessionOpDelete p (Some (prior_manifest p (Some x) cs)) None alias)"
  obtain je js where je: "?jm db = Inr (je, db\<lparr>db_journal := js\<rparr>)"
  proof (cases "s = ''''")
    case True
    then show thesis by (intro that [of None "db_journal db"]) (simp add: tx_eval)
  next
    case False
    obtain je js where "journal_if E s a g SessionOpDelete p (Some (prior_manifest p (Some x) cs)) None ali db = Inr (je, db\<lparr>db_journal := js\<rparr>)"
      using journal_if_total [OF j, where prior = "Some (prior_manifest p (Some x) cs)"] enc [OF cs] by blast
    with False ali show thesis by (intro that) (simp add: tx_bind_def)
  qed
  obtain cks where cks: "applyChunkRefDelta (chunkRefDelta cs []) (db_chunks db) = Some cks"
    using refs_defined [OF inv, where x = "Some x" and cs = cs] xin(1) cs by auto
  obtain db1 where "tx_when (?nl = 1) (refs_tx (chunkRefDelta cs [])) (db\<lparr>db_journal := js\<rparr>) = Inr ((), db1)"
    using cks by (cases "?nl = 1") (simp_all add: tx_when_def refs_tx_def tx_try_def tx_return_def)
  note steps = tx_steps tx_bind_eval [where m = ?jm and db = db, OF je]
    tx_seq_eval [where m = "tx_when (?nl = 1) (refs_tx (chunkRefDelta cs []))" and db = "db\<lparr>db_journal := js\<rparr>", OF this]
  let ?db1 = "db1\<lparr>db_manifests := tbl_delete (\<lambda>r. mf_path r = p) (db_manifests db1)\<rparr>"
  obtain db2 where "removeDirEntryTx p ?db1 = Inr ((), db2)" by simp
  note steps = steps tx_seq_eval [where m = "removeDirEntryTx p" and db = ?db1, OF this]
  obtain rv db3 where "allocChangeRevTx db2 = Inr (rv, db3)" by (simp add: allocChangeRevTx_def tx_eval)
  note steps = steps tx_bind_eval [where m = allocChangeRevTx and db = db2, OF this]
  obtain db4 where "upsertTombstoneTx (e_now_tomb E) p rv db3 = Inr ((), db4)" by (simp add: upsertTombstoneTx_def tx_eval)
  note steps = steps tx_seq_eval [where m = "upsertTombstoneTx (e_now_tomb E) p rv" and db = db3, OF this]
  obtain db5 where "tx_when (1 < ?nl) (tx_exec (restamp_inode rv (mf_inode x))) db4 = Inr ((), db5)"
    by (cases "1 < ?nl") (simp_all add: tx_when_def tx_eval)
  note steps = steps tx_seq_eval [where m = "tx_when (1 < ?nl) (tx_exec (restamp_inode rv (mf_inode x)))" and db = db4, OF this]
  have "Delete_tx E p n s a g db = Inr (Commit () je rv, db5)"
    by (simp only: Delete_tx_def steps x cs simp_thms tx_return_def)
  then show ?thesis by blast
qed

lemma Link_tx_defined:
  assumes "parent_ok db dst" "resolveKind db dst = nodeAbsent" "tbl_get mf_path (db_manifests db) src = Some x" "s = '''' \<or> a \<noteq> ''''"
  shows "\<exists>n je rv db'. Link_tx E src dst s a g db = Inr (Commit n je rv, db')"
proof -
  let ?rv = "Suc (db_last_rev db)" and ?d = "dir_default (fst (splitParentName dst)) (snd (splitParentName dst))"
  let ?db1 = "db\<lparr>db_last_rev := ?rv, db_manifests := stamp_inode ?rv (mf_inode x) (db_manifests db @ [x\<lparr>mf_path := dst, mf_rev := ?rv\<rparr>]),
      db_tombs := tbl_delete (\<lambda>t. tb_path t = dst) (db_tombs db), db_dirs := db_dirs db @ [?d]\<rparr>"
  have new: "dst \<notin> tbl_keys mf_path (db_manifests db)" "de_key ?d \<notin> tbl_keys de_key (db_dirs db)"
    using assms(2) by (auto simp: resolveKind_def dir_default_def tbl_has_iff split: if_splits)
  obtain je js where "journal_if E s a g SessionOpCreate dst None (Some (mf_version x)) '''' ?db1 = Inr (je, ?db1\<lparr>db_journal := js\<rparr>)"
    using journal_if_total [OF assms(4), where prior = None] by blast
  note j = this
  have p: "checkParentExists dst db = Inr ((), db)" using assms(1) checkParentExists_Inr [of dst db "()" db] by simp
  have "allocChangeRevTx db = Inr (?rv, db\<lparr>db_last_rev := ?rv\<rparr>)" by (simp add: allocChangeRevTx_def tx_eval)
  note steps = tx_steps tx_seq_eval [where m = "checkParentExists dst" and db = db, OF p]
    tx_bind_eval [where m = allocChangeRevTx and db = db, OF this]
  let ?r = "x\<lparr>mf_path := dst, mf_rev := ?rv\<rparr>"
  have "insert_manifest_new ?r (db\<lparr>db_last_rev := ?rv\<rparr>) = Inr ((), db\<lparr>db_last_rev := ?rv, db_manifests := db_manifests db @ [?r]\<rparr>)"
    using new(1) by (simp add: insert_manifest_new_def tbl_insert_new_def tx_eval)
  note steps = steps tx_seq_eval [where m = "insert_manifest_new ?r" and db = "db\<lparr>db_last_rev := ?rv\<rparr>", OF this]
  let ?db2 = "restamp_inode ?rv (mf_inode x) (db\<lparr>db_last_rev := ?rv, db_manifests := db_manifests db @ [?r]\<rparr>)"
  let ?db3 = "?db2\<lparr>db_tombs := tbl_delete (\<lambda>t. tb_path t = dst) (db_tombs ?db2)\<rparr>"
  have "clearTombstoneTx dst ?db2 = Inr ((), ?db3)" by (simp add: clearTombstoneTx_def tx_eval)
  note steps = steps tx_seq_eval [where m = "clearTombstoneTx dst" and db = ?db2, OF this]
  have "insert_dir_new ?d ?db3 = Inr ((), ?db1)"
    using new(2) by (simp add: insert_dir_new_def tbl_insert_new_def tx_eval restamp_inode_def)
  note steps = steps tx_seq_eval [where m = "insert_dir_new ?d" and db = ?db3, OF this]
    tx_bind_eval [where m = "journal_if E s a g SessionOpCreate dst None (Some (mf_version x)) ''''" and db = ?db1, OF j]
  have "Link_tx E src dst s a g db = Inr (Commit (nlink_of (?db1\<lparr>db_journal := js\<rparr>) (mf_inode x)) je ?rv, ?db1\<lparr>db_journal := js\<rparr>)"
    by (simp only: Link_tx_def steps assms(2,3) simp_thms tx_return_def)
  then show ?thesis by blast
qed

section \<open>One revert\<close>

lemma revert_newest:
  assumes j: "left_row E s a p op after_v blob src db (ms_db st1) j" and t: "clock_ok E s a p db"
    and live: "liveManifestVersion (ms_db st1) p = Inr after_v" and op: "op \<noteq> SessionOpRename"
    and inv: "applyInverse E2 (scanRevertRow j) [(p, after_v)] ws a wg st1 = (Inr w, st2)"
  shows "RevertPaths (\<lambda>_. E2) a [p] None None ws wg force st1 =
    (([p], [], None), st2\<lparr>ms_db := DeleteRow s (next_seq s (db_journal db)) (ms_db st2)\<rparr>)"
proof -
  let ?row = "scanRevertRow j"
  have row: "je_after_version ?row = after_v" "je_op ?row \<noteq> SessionOpRename" "je_session ?row = s" "je_seq ?row = next_seq s (db_journal db)"
    using j op by (simp_all add: left_row_def scanRevertRow_def)
  have "equalOptVersion after_v after_v" by (cases after_v) (simp_all add: equalOptVersion_def)
  with row have "revert_path E2 a p '''' 0 ws wg force st1 = apply_row E2 a p ?row [(p, after_v)] ws wg st1"
    by (simp add: revert_path_def newest_left_row [OF j t] live)
  also have "\<dots> = (Reverted p, st2\<lparr>ms_db := DeleteRow s (next_seq s (db_journal db)) (ms_db st2)\<rparr>)"
    by (simp add: apply_row_def inv row)
  finally show ?thesis by (simp add: RevertPaths_def)
qed

lemma content_DeleteRow [simp]: "content (DeleteRow s k db) q = content db q"
  by (rule content_cong) (simp add: DeleteRow_def)

text \<open>What undoing the change from \<open>st\<close> to \<open>st1\<close> means.\<close>

definition undone :: "env \<Rightarrow> string \<Rightarrow> string \<Rightarrow> string \<Rightarrow> string \<Rightarrow> bool \<Rightarrow> mstore \<Rightarrow> mstore \<Rightarrow> bool" where
  "undone E2 a p ws wg force st st1 \<longleftrightarrow>
     (\<exists>st2. RevertPaths (\<lambda>_. E2) a [p] None None ws wg force st1 = (([p], [], None), st2) \<and>
        (\<forall>q. content (ms_db st2) q = content (ms_db st) q))"

lemma undoneI:
  assumes "left_row E s a p op after_v blob src (ms_db st) (ms_db st1) j" "clock_ok E s a p (ms_db st)"
    "liveManifestVersion (ms_db st1) p = Inr after_v" "op \<noteq> SessionOpRename"
    "applyInverse E2 (scanRevertRow j) [(p, after_v)] ws a wg st1 = (Inr w, st2)"
    "\<And>q. content (ms_db st2) q = content (ms_db st) q"
  shows "undone E2 a p ws wg force st st1"
  unfolding undone_def using revert_newest [OF assms(1-5)] assms(6) by simp

text \<open>
  The revert runs with working storage: the codec is the one the row was written with and it decodes what
  it encodes, the version about to be overwritten can be encoded, the chunks of the content to restore
  are still there, its size fits the column, and the commit succeeds.
\<close>

definition revert_works :: "env \<Rightarrow> env \<Rightarrow> string \<Rightarrow> mstore \<Rightarrow> mstore \<Rightarrow> bool" where
  "revert_works E E2 p st st1 \<longleftrightarrow> msgpack_ok E \<and> e_unmarshal E2 = e_unmarshal E \<and> e_commit E2 \<and>
     (\<forall>mf. Get (ms_db st) p = Inr mf \<longrightarrow> lockAndValidateChunks E2 (m_chunks mf) = Inr () \<and> bind_uint64 (m_size mf)) \<and>
     (\<forall>mf. Get (ms_db st1) p = Inr mf \<longrightarrow> encodeJournalManifest E2 mf \<noteq> None)"

lemma encode_prior:
  assumes "unpackChunks (mf_chunks x) = Some cs"
  shows "encodeJournalManifest E (prior_manifest p (Some x) cs) = encodeJournalManifest E (row_manifest db x)"
  using assms by (simp add: encodeJournalManifest_def prior_manifest_def row_manifest_def chunks_of_def)

lemma revert_encodes:
  assumes "revert_works E E2 p st st1" "db_inv (ms_db st1)" "tbl_get mf_path (db_manifests (ms_db st1)) p = Some x"
    "unpackChunks (mf_chunks x) = Some cs"
  shows "encodeJournalManifest E2 (prior_manifest p (Some x) cs) \<noteq> None"
  using assms unfolding encode_prior [OF assms(4), of E2 p "ms_db st1"] by (simp add: revert_works_def Get_row)

lemma decode_left_row:
  assumes "revert_works E E2 p st st1" "encodeJournalManifest E (prior_manifest p (Some x) cs) = Some blob"
    "left_row E s a p op after_v (Some blob) src db db' j"
  shows "decode_before E2 (scanRevertRow j) = Some (prior_manifest p (Some x) cs)"
proof -
  have "decodeJournalManifest E2 p blob = decodeJournalManifest E p blob"
    using assms(1) by (simp add: decodeJournalManifest_def revert_works_def)
  also have "\<dots> = Some (prior_manifest p (Some x) cs)"
    using assms(1) by (subst decode_encode_journal [OF _ assms(2)]) (simp_all add: revert_works_def prior_manifest_def)
  finally show ?thesis using assms(3) by (simp add: decode_before_def scanRevertRow_def left_row_def)
qed

lemma live_row:
  assumes "db_inv db"
  shows "liveManifestVersion db p = Inr (map_option mf_version (tbl_get mf_path (db_manifests db) p))"
  by (simp add: liveManifestVersion_def Get_row [OF assms] row_manifest_def split: option.splits)

lemma Delete_defined:
  assumes inv: "db_inv (ms_db st)" and x: "tbl_get mf_path (db_manifests (ms_db st)) p = Some x" "mf_version x = n"
    and kind: "p \<notin> tbl_keys sn_path (db_specials (ms_db st))" "p \<notin> tbl_keys sl_path (db_symlinks (ms_db st))"
    and j: "s = '''' \<or> a \<noteq> ''''" and c: "e_commit E"
    and enc: "\<And>cs. unpackChunks (mf_chunks x) = Some cs \<Longrightarrow> encodeJournalManifest E (prior_manifest p (Some x) cs) \<noteq> None"
  shows "\<exists>st'. Delete E p n s a g st = (Inr (), st')"
proof -
  have k: "run_store E (deleteSpecialNode_tx E p) st = (Inl ErrManifestNotFound, st)"
    "run_store E (deleteSymlink_tx E p) st = (Inl ErrManifestNotFound, st)"
    using kind by (simp_all add: run_store_def deleteSpecialNode_tx_def deleteSymlink_tx_def tx_eval)
  obtain je rv db' where "Delete_tx E p n s a g (ms_db st) = Inr (Commit () je rv, db')"
    using Delete_tx_defined [OF inv x j enc] by blast
  with j c have "\<exists>st'. run_store E (Delete_tx E p n s a g) st = (Inr (), st')" by (simp add: run_store_def)
  with j k show ?thesis by (auto simp: Delete_def)
qed

lemma undo_create:
  assumes inv: "db_inv (ms_db st1)" and j: "left_row E s a p SessionOpCreate (Some v) None '''' (ms_db st) (ms_db st1) j"
    and t: "clock_ok E s a p (ms_db st)" and w: "revert_works E E2 p st st1"
    and x: "tbl_get mf_path (db_manifests (ms_db st1)) p = Some x" "mf_version x = v"
    and kind: "p \<notin> tbl_keys sn_path (db_specials (ms_db st1))" "p \<notin> tbl_keys sl_path (db_symlinks (ms_db st1))"
    and c: "content (ms_db st) p = None" "\<And>q. q \<noteq> p \<Longrightarrow> content (ms_db st1) q = content (ms_db st) q"
  shows "undone E2 a p ws wg force st st1"
proof -
  have ac: "ws = '''' \<or> a \<noteq> ''''" "e_commit E2" using j w by (simp_all add: left_row_def revert_works_def)
  obtain st2 where d: "Delete E2 p v ws a wg st1 = (Inr (), st2)"
    using Delete_defined [OF inv x kind ac revert_encodes [OF w inv x(1)]] by blast
  have inverse: "applyInverse E2 (scanRevertRow j) [(p, Some v)] ws a wg st1 = (Inr [(p, None), (p, Some v)], st2)"
    using j d by (simp add: applyInverse_def scanRevertRow_def left_row_def working_get_def)
  show ?thesis
  proof (rule undoneI [OF j t _ _ inverse])
    show "liveManifestVersion (ms_db st1) p = Inr (Some v)" using x by (simp add: live_row [OF inv])
    show "content (ms_db st2) q = content (ms_db st) q" for q using c by (simp add: Delete_content [OF inv d kind])
  qed simp
qed

lemma parent_ok_mono: "parent_ok db p \<Longrightarrow> tbl_keys de_key (db_dirs db) \<subseteq> tbl_keys de_key (db_dirs db') \<Longrightarrow> parent_ok db' p"
  by (auto simp: parent_ok_def Let_def)

lemma Put_parent_ok:
  assumes "Put_tx E p n mf s a g db = Inr (out, db')"
  shows "parent_ok db' p"
proof (cases "n = 0")
  case True
  then have "parent_ok db p" "db_dirs db' = add_dir p (db_dirs db)" using assms by (auto elim!: Put_insert_Commit)
  then show ?thesis by (auto intro!: parent_ok_mono [of db] simp: add_dir_def tbl_insert_def)
next
  case False
  then have "parent_ok db p" "db_dirs db' = add_dir p (db_dirs db)" using assms by (auto elim!: Put_update_Commit)
  then show ?thesis by (auto intro!: parent_ok_mono [of db] simp: add_dir_def tbl_insert_def)
qed

lemma same_file_Put:
  assumes "Put_tx E p n mf s a g db = Inr (out, db')" "0 < n"
  shows "same_file db' p q = same_file db p q"
proof (rule Put_update_Commit [OF assms])
  fix je js cks rv x cs
  let ?f = "rewrite_manifest_row (mf_uid x) (mf_gid x) (mf_atime x) (Suc n) rv mf"
  assume "db' = db\<lparr>db_last_rev := rv, db_journal := js, db_chunks := cks,
    db_manifests := tbl_update (\<lambda>r. mf_inode r = mf_inode x) ?f (db_manifests db), db_dirs := add_dir p (db_dirs db)\<rparr>"
  then have new: "db_manifests db' = tbl_update (\<lambda>r. mf_inode r = mf_inode x) ?f (db_manifests db)" by simp
  have "tbl_get mf_path (db_manifests db') q = map_option (\<lambda>r. if mf_inode r = mf_inode x then ?f r else r) (tbl_get mf_path (db_manifests db) q)" for q
    unfolding new by (rule tbl_get_update) simp
  then show ?thesis by (simp add: same_file_def rewrite_manifest_row_def split: option.splits)
qed

lemma prior_content:
  assumes "db_inv db" "tbl_get mf_path (db_manifests db) p = Some x" "unpackChunks (mf_chunks x) = Some cs"
  shows "Some (m_size (prior_manifest p (Some x) cs), m_mode (prior_manifest p (Some x) cs), m_mtime (prior_manifest p (Some x) cs), m_chunks (prior_manifest p (Some x) cs)) = content db p"
  using assms by (simp add: content_row prior_manifest_def row_content_def chunks_of_def)

lemma revert_restores:
  assumes "revert_works E E2 p st st1" "db_inv (ms_db st)" "tbl_get mf_path (db_manifests (ms_db st)) p = Some x" "unpackChunks (mf_chunks x) = Some cs"
  shows "lockAndValidateChunks E2 (m_chunks (prior_manifest p (Some x) cs)) = Inr ()" "bind_uint64 (m_size (prior_manifest p (Some x) cs))"
    "m_path (prior_manifest p (Some x) cs) = p"
  using assms by (simp_all add: revert_works_def Get_row row_manifest_def chunks_of_def prior_manifest_def)

lemma undo_put:
  assumes inv: "db_inv (ms_db st)" and run: "Put E p n mf s a g st = (Inr v, st1)" and s: "s \<noteq> ''''"
    and t: "clock_ok E s a p (ms_db st)" and w: "revert_works E E2 p st st1"
    and kind: "p \<notin> tbl_keys sn_path (db_specials (ms_db st))" "p \<notin> tbl_keys sl_path (db_symlinks (ms_db st))"
  shows "undone E2 a p ws wg force st st1"
proof -
  obtain je rv where c: "Put_tx E p n mf s a g (ms_db st) = Inr (Commit v je rv, ms_db st1)" using run by (rule Put_Inr)
  note inv1 = Put_inv [OF inv run]
  obtain x1 where x1: "tbl_get mf_path (db_manifests (ms_db st1)) p = Some x1" "mf_version x1 = Suc n"
    using Put_rows(1) [OF inv run, of p] Put_version [OF inv run] by auto
  from c s show ?thesis
  proof (cases rule: Put_left_row)
    case (create j)
    have "db_specials (ms_db st1) = db_specials (ms_db st)" "db_symlinks (ms_db st1) = db_symlinks (ms_db st)"
      using c create(1) by (auto elim!: Put_insert_Commit)
    moreover have "\<not> same_file (ms_db st) p q" for q using create(2) by (simp add: same_file_def)
    ultimately show ?thesis
      using create(1,2) x1 kind
      by (intro undo_create [OF inv1 create(3) t w x1(1)]) (auto simp: Put_content [OF inv run] content_row [OF inv])
  next
    case (update x cs blob j)
    let ?prior = "prior_manifest p (Some x) cs"
    have ac: "ws = '''' \<or> a \<noteq> ''''" "e_commit E2" using update(5) w by (simp_all add: left_row_def revert_works_def)
    note res = revert_restores [OF w inv update(2,3)]
    have "stored_version (ms_db st1) p = Suc n" using x1 by (simp add: stored_version_def existing_version_def)
    then obtain st2 where d: "Put E2 p (Suc n) ?prior ws a wg st1 = (Inr (Suc (Suc n)), st2)"
      using Put_defined [OF inv1 res(3) ac(1) res(1) Put_parent_ok [OF c] _ res(2) ac(2) revert_encodes [OF w inv1]] by blast
    have inverse: "applyInverse E2 (scanRevertRow j) [(p, Some (Suc n))] ws a wg st1 = (Inr [(p, Some (Suc (Suc n))), (p, Some (Suc n))], st2)"
      using update(5) d decode_left_row [OF w update(4,5)] by (simp add: applyInverse_def scanRevertRow_def left_row_def working_get_def)
    show ?thesis
    proof (rule undoneI [OF update(5) t _ _ inverse])
      show "liveManifestVersion (ms_db st1) p = Inr (Some (Suc n))" using x1 by (simp add: live_row [OF inv1])
      show "content (ms_db st2) q = content (ms_db st) q" for q
        using same_file_content [OF inv, of p q]
        by (auto simp: Put_content [OF inv1 d] Put_content [OF inv run] prior_content [OF inv update(2,3)] same_file_Put [OF c update(1)])
    qed simp
  qed
qed

lemma undo_link:
  assumes inv: "db_inv (ms_db st)" and run: "Link E src p s a g st = (Inr n, st1)" and s: "s \<noteq> ''''"
    and t: "clock_ok E s a p (ms_db st)" and w: "revert_works E E2 p st st1"
  shows "undone E2 a p ws wg force st st1"
proof -
  obtain je rv where c: "Link_tx E src p s a g (ms_db st) = Inr (Commit n je rv, ms_db st1)" using run by (rule Link_Inr)
  note inv1 = link.commit_inv [OF inv c]
  from c s obtain x j where x: "tbl_get mf_path (db_manifests (ms_db st)) src = Some x"
    and j: "left_row E s a p SessionOpCreate (Some (mf_version x)) None '''' (ms_db st) (ms_db st1) j" by (rule Link_left_row)
  have "Get (ms_db st1) p = Inr ((row_manifest (ms_db st) x)\<lparr>m_path := p, m_nlink := n\<rparr>)" "Get (ms_db st) p = Inl ErrManifestNotFound"
    using Link_get [OF inv run] x by (auto simp: Get_row [OF inv])
  then obtain y where y: "tbl_get mf_path (db_manifests (ms_db st1)) p = Some y" "mf_version y = mf_version x"
    and p: "tbl_get mf_path (db_manifests (ms_db st)) p = None"
    by (auto simp: Get_row [OF inv1] Get_row [OF inv] row_manifest_def split: option.splits)
  have k: "resolveKind (ms_db st) p = nodeAbsent" "db_specials (ms_db st1) = db_specials (ms_db st)"
    "db_symlinks (ms_db st1) = db_symlinks (ms_db st)" using c by (auto elim!: Link_Commit)
  then have kind: "p \<notin> tbl_keys sn_path (db_specials (ms_db st1))" "p \<notin> tbl_keys sl_path (db_symlinks (ms_db st1))"
    by (auto simp: resolveKind_def tbl_has_iff split: if_splits)
  show ?thesis
    by (rule undo_create [OF inv1 j t w y kind]) (simp_all add: Link_content [OF inv run] content_row [OF inv] p)
qed

lemma drop_dir_parent:
  assumes "canonical p" "p \<noteq> ''/''" "parent_ok db p" "db_dirs db' = drop_dir p (db_dirs db)"
  shows "parent_ok db' p"
proof -
  let ?q = "fst (splitParentName p)"
  note split = full_path_split [OF assms(1,2)]
  have "splitParentName ?q \<noteq> splitParentName p" if "?q \<noteq> ''/''"
  proof
    assume "splitParentName ?q = splitParentName p"
    then have "?q = p" using full_path_split(1) [OF split(3) that] split(1) by simp
    with split(1) that have "p @ ''/'' @ snd (splitParentName p) = p" by (simp add: full_path_def)
    then show False by simp
  qed
  with assms(3,4) show ?thesis by (auto simp: parent_ok_def Let_def drop_dir_def)
qed

text \<open>A path that, apart from a file, names nothing else and has an existing parent.\<close>

definition file_name_only :: "tenant_db \<Rightarrow> string \<Rightarrow> bool" where
  "file_name_only db p \<longleftrightarrow> canonical p \<and> p \<noteq> ''/'' \<and> parent_ok db p \<and> p \<notin> tbl_keys sn_path (db_specials db) \<and>
     p \<notin> tbl_keys sl_path (db_symlinks db) \<and> p \<notin> tbl_keys de_parent (db_dirs db)"

lemma deleted_absent:
  assumes f: "file_name_only db p" and c: "Delete_tx E p n s a g db = Inr (out, db')"
  shows "resolveKind db' p = nodeAbsent" "parent_ok db' p" "tbl_get mf_path (db_manifests db') p = None"
proof -
  have d: "db_dirs db' = drop_dir p (db_dirs db)" "db_specials db' = db_specials db" "db_symlinks db' = db_symlinks db"
    using c by (auto elim!: Delete_Commit)
  from c obtain x rv where "tbl_get mf_path (db_manifests db) p = Some x" and rows: "db_manifests db' = (if 1 < nlink_of db (mf_inode x) then stamp_inode rv (mf_inode x) else id)
          (tbl_delete (\<lambda>r. mf_path r = p) (db_manifests db))"
    by (rule Delete_Commit) auto
  have m: "p \<notin> tbl_keys mf_path (db_manifests db')" unfolding rows by (cases "1 < nlink_of db (mf_inode x)") auto
  have n: "snd (splitParentName p) \<noteq> ''''" using f full_path_split(2) [of p] by (simp add: file_name_only_def)
  show "tbl_get mf_path (db_manifests db') p = None" using m by (simp add: tbl_get_None)
  show "parent_ok db' p" using f d(1) unfolding file_name_only_def by (blast intro: drop_dir_parent)
  show "resolveKind db' p = nodeAbsent"
    using f d m n by (auto simp: resolveKind_def file_name_only_def tbl_has_iff drop_dir_def)
qed

lemma undo_delete:
  assumes inv: "db_inv (ms_db st)" and run: "Delete E p n s a g st = (Inr u, st1)" and s: "s \<noteq> ''''"
    and t: "clock_ok E s a p (ms_db st)" and w: "revert_works E E2 p st st1" and f: "file_name_only (ms_db st) p"
  shows "undone E2 a p ws wg force st st1"
proof -
  have kind: "p \<notin> tbl_keys sn_path (db_specials (ms_db st))" "p \<notin> tbl_keys sl_path (db_symlinks (ms_db st))"
    using f by (simp_all add: file_name_only_def)
  obtain je rv where c: "Delete_tx E p n s a g (ms_db st) = Inr (Commit () je rv, ms_db st1)" using run kind by (rule Delete_file_Inr)
  note inv1 = del_manifest.commit_inv [OF inv c] and gone = deleted_absent [OF f c]
  from c s obtain x cs blob j ali where x: "tbl_get mf_path (db_manifests (ms_db st)) p = Some x" "unpackChunks (mf_chunks x) = Some cs"
    and e: "encodeJournalManifest E (prior_manifest p (Some x) cs) = Some blob"
    and j: "left_row E s a p SessionOpDelete None (Some blob) ali (ms_db st) (ms_db st1) j"
    and al: "if 1 < nlink_of (ms_db st) (mf_inode x) then surviving_alias (ms_db st) (mf_inode x) p = Some ali else ali = ''''"
    by (rule Delete_left_row)
  have ac: "ws = '''' \<or> a \<noteq> ''''" "e_commit E2" using j w by (simp_all add: left_row_def revert_works_def)
  have live: "liveManifestVersion (ms_db st1) p = Inr None" using gone(3) by (simp add: live_row [OF inv1])
  show ?thesis
  proof (cases "ali = ''''")
    case True
    let ?prior = "prior_manifest p (Some x) cs"
    note res = revert_restores [OF w inv x]
    have "stored_version (ms_db st1) p = 0" using gone(3) by (simp add: stored_version_def existing_version_def)
    then obtain st2 where d: "Put E2 p 0 ?prior ws a wg st1 = (Inr 1, st2)"
      using Put_defined [OF inv1 res(3) ac(1) res(1) gone(2) _ res(2) ac(2) revert_encodes [OF w inv1]] by auto
    have inverse: "applyInverse E2 (scanRevertRow j) [(p, None)] ws a wg st1 = (Inr [(p, Some 1), (p, None)], st2)"
      using j d decode_left_row [OF w e j] True by (simp add: applyInverse_def scanRevertRow_def left_row_def working_get_def)
    show ?thesis
      by (rule undoneI [OF j t live _ inverse])
        (use gone(3) in \<open>auto simp: Put_content [OF inv1 d] Delete_content [OF inv run kind] prior_content [OF inv x] same_file_def\<close>)
  next
    case False
    with al have al: "surviving_alias (ms_db st) (mf_inode x) p = Some ali" by (simp split: if_splits)
    from surviving_alias_row [OF this] obtain r where r: "r \<in> set (db_manifests (ms_db st))" "mf_path r = ali" "mf_inode r = mf_inode x" "ali \<noteq> p"
      by blast
    then have same: "same_file (ms_db st) p ali"
      using x(1) tbl_get_unique [OF db_invD(1) [OF inv] r(1)] by (simp add: same_file_def)
    then have ca: "content (ms_db st) ali = content (ms_db st) p" by (rule same_file_content [OF inv])
    moreover have "content (ms_db st) p \<noteq> None" using x by (simp add: content_row [OF inv])
    ultimately obtain y where y: "tbl_get mf_path (db_manifests (ms_db st1)) ali = Some y"
      using r(4) Delete_content [OF inv run kind, of ali] by (auto simp: content_row [OF inv1])
    obtain m je' rv' db' where "Link_tx E2 ali p ws a wg (ms_db st1) = Inr (Commit m je' rv', db')"
      using Link_tx_defined [OF gone(2,1) y ac(1), of E2 wg] by blast
    with ac have "\<exists>st2. Link E2 ali p ws a wg st1 = (Inr m, st2)" by (auto simp: Link_def run_store_def)
    then obtain st2 where d: "Link E2 ali p ws a wg st1 = (Inr m, st2)" by blast
    have inverse: "\<exists>w. applyInverse E2 (scanRevertRow j) [(p, None)] ws a wg st1 = (Inr w, st2)"
      using j d r(4) False y
      by (simp add: applyInverse_def scanRevertRow_def left_row_def working_get_def working_seed_def live_row [OF inv1])
    then obtain w' where inverse: "applyInverse E2 (scanRevertRow j) [(p, None)] ws a wg st1 = (Inr w', st2)" by blast
    show ?thesis
      by (rule undoneI [OF j t live _ inverse])
        (use r(4) ca in \<open>auto simp: Link_content [OF inv1 d] Delete_content [OF inv run kind]\<close>)
  qed
qed

section \<open>Reverts stay within the store machine\<close>

lemma reachable_call: "reachable st \<Longrightarrow> reachable (snd (apply_mutation E m st))"
  by (rule reachable.step [where res = "fst (apply_mutation E m st)"]) simp_all

lemma snd_drop_result [simp]: "snd (drop_result r) = snd r"
  by (simp add: drop_result_def)

lemma reachable_calls:
  assumes "reachable st"
  shows "reachable (snd (Put E p n mf s a g st))" "reachable (snd (Link E src p s a g st))" "reachable (snd (Delete E p n s a g st))"
    "reachable (snd (Rename E p src n k s a g st))" "reachable (st\<lparr>ms_db := DeleteRow s n (ms_db st)\<rparr>)"
  using reachable_call [OF assms, of E "MPut p n mf s a g"] reachable_call [OF assms, of E "MLink src p s a g"]
    reachable_call [OF assms, of E "MDelete p n s a g"] reachable_call [OF assms, of E "MRename p src n k False s a g"]
    reachable_call [OF assms, of E "MDeleteRow s n"]
  by (simp_all add: Rename_def on_db_def)

lemma snd_case_call: "snd (case r of (Inl e, st') \<Rightarrow> (f e, st') | (Inr v, st') \<Rightarrow> (h v, st')) = snd r"
  by (cases r; cases "fst r") auto

lemma applyInverse_reachable:
  assumes "reachable st"
  shows "reachable (snd (applyInverse E row w s a g st))"
  by (simp add: applyInverse_def Let_def snd_case_call reachable_calls [OF assms] assms split: SessionOp.split option.split sum.split)

lemma revert_path_reachable:
  assumes "reachable st"
  shows "reachable (snd (revert_path E alloc p ps k ws wg force st))"
proof -
  have "reachable (snd (apply_row E alloc p row w ws wg st))" for row w
    using applyInverse_reachable [OF assms, of E row w ws alloc wg] reachable_calls(5)
    by (cases "applyInverse E row w ws alloc wg st") (auto simp: apply_row_def split: sum.split revert_error.split)
  with assms show ?thesis by (auto simp: revert_path_def Let_def split: option.split sum.split)
qed

lemma RevertPaths_reachable:
  assumes "reachable st"
  shows "reachable (snd (RevertPaths E alloc paths sess seqs ws wg force st))"
proof -
  have "reachable (snd (revert_loop alloc ws wg force items ok bad st))" if "reachable st" for items ok bad st
    using that
  proof (induction items arbitrary: ok bad st)
    case (Cons i items)
    obtain E p ps k where i: "i = (E, p, ps, k)" by (metis surj_pair)
    from revert_path_reachable [OF Cons.prems, of E alloc p ps k ws wg force] Cons.IH show ?case
      by (cases "revert_path E alloc p ps k ws wg force st") (auto simp: i split: path_outcome.split)
  qed simp
  with assms show ?thesis by (simp add: RevertPaths_def split: option.split)
qed

section \<open>Properties\<close>

text \<open>The path, session and allocation a journalled write, link or delete is recorded under.\<close>

fun undo_target :: "mutation \<Rightarrow> (string \<times> string \<times> string) option" where
  "undo_target (MPut p n mf s a g) = Some (p, s, a)"
| "undo_target (MLink src dst s a g) = Some (dst, s, a)"
| "undo_target (MDelete p n s a g) = Some (p, s, a)"
| "undo_target m = None"

text \<open>
  C39. Undo restores: after a journalled write (of a new or an existing file), link or delete, reverting
  the path in its allocation succeeds and gives every path of the store the content it had before the
  change, size, mode, modification time and chunk list, deleted hard links included. It assumes working
  storage for the revert, that the clock does not run backwards between changes of the path, and that
  the path names no directory, symlink or special node.
\<close>

theorem undo_restores_content:
  assumes "db_inv (ms_db st)" "apply_mutation E m st = (Inr (), st1)" "undo_target m = Some (p, s, a)" "s \<noteq> ''''"
    "clock_ok E s a p (ms_db st)" "revert_works E E2 p st st1" "file_name_only (ms_db st) p"
  shows "\<exists>st2. RevertPaths (\<lambda>_. E2) a [p] None None ws wg force st1 = (([p], [], None), st2) \<and>
    (\<forall>q. content (ms_db st2) q = content (ms_db st) q)"
proof -
  have k: "p \<notin> tbl_keys sn_path (db_specials (ms_db st))" "p \<notin> tbl_keys sl_path (db_symlinks (ms_db st))"
    using assms(7) by (simp_all add: file_name_only_def)
  have "undone E2 a p ws wg force st st1"
  proof (cases m)
    case (MPut p' n mf s' a' g)
    with assms(2,3) obtain v where "Put E p n mf s a g st = (Inr v, st1)"
      by (cases "Put E p n mf s a g st"; cases "fst (Put E p n mf s a g st)") (auto simp: drop_result_def)
    then show ?thesis by (rule undo_put [OF assms(1) _ assms(4-6) k])
  next
    case (MLink src dst s' a' g)
    with assms(2,3) obtain v where "Link E src p s a g st = (Inr v, st1)"
      by (cases "Link E src p s a g st"; cases "fst (Link E src p s a g st)") (auto simp: drop_result_def)
    then show ?thesis by (rule undo_link [OF assms(1) _ assms(4-6)])
  next
    case (MDelete p' n s' a' g)
    with assms(2,3) have "Delete E p n s a g st = (Inr (), st1)" by simp
    then show ?thesis by (rule undo_delete [OF assms(1) _ assms(4-7)])
  qed (use assms(3) in simp_all)
  then show ?thesis by (simp add: undone_def)
qed

lemma newest_row_append: "j_alloc j \<noteq> a \<or> j_path j \<noteq> p \<Longrightarrow> newest_row a p (rows @ [j]) = newest_row a p rows"
  by (auto simp: newest_row_def)

lemma Put_newest_row:
  assumes "Put_tx E p n mf s a' g db = Inr (out, db')" "s = '''' \<or> a' \<noteq> a"
  shows "latestRowForPath a p db' = latestRowForPath a p db"
proof (cases "s = ''''")
  case True
  have "db_journal db' = db_journal db"
    using assms(1) True
    by (cases "n = 0") (auto simp: Put_tx_def journal_if_def put_update_def existing_version_def split: option.splits if_splits)
  then show ?thesis by (simp add: latestRowForPath_def)
next
  case False
  with assms(2) have a: "a' \<noteq> a" by simp
  obtain j where "db_journal db' = db_journal db @ [j]" "j_alloc j = a'"
    using assms(1) False by (rule Put_left_row) (auto simp: left_row_def)
  with a show ?thesis by (simp add: latestRowForPath_def newest_row_append)
qed

text \<open>
  C40. A later write is not undone behind its author's back: when a path was written in an allocation and
  then again without a session or in another allocation, reverting the path in the first allocation
  without force reports a concurrent writer and changes nothing.
\<close>

theorem revert_spares_newer_write:
  assumes inv: "db_inv (ms_db st)" and run: "Put E p n mf s a g st = (Inr v, st1)" "Put E' p n' mf' s' a' g' st1 = (Inr v', st2)"
    and s: "s \<noteq> ''''" "s' = '''' \<or> a' \<noteq> a" and t: "clock_ok E s a p (ms_db st)"
  shows "RevertPaths Er a [p] None None ws wg False st2 = (([], [\<lparr> rc_path = p, rc_reason = ReasonConcurrentWriter \<rparr>], None), st2)"
proof -
  note inv1 = Put_inv [OF inv run(1)] note inv2 = Put_inv [OF inv1 run(2)]
  obtain je rv where c: "Put_tx E p n mf s a g (ms_db st) = Inr (Commit v je rv, ms_db st1)" using run(1) by (rule Put_Inr)
  obtain je' rv' where c': "Put_tx E' p n' mf' s' a' g' (ms_db st1) = Inr (Commit v' je' rv', ms_db st2)" using run(2) by (rule Put_Inr)
  have n: "v = Suc n" "v' = Suc n'" "stored_version (ms_db st1) p = n'"
    using Put_version [OF inv run(1)] Put_version [OF inv1 run(2)] by simp_all
  obtain x1 where "tbl_get mf_path (db_manifests (ms_db st1)) p = Some x1" "mf_version x1 = Suc n"
    using Put_rows(1) [OF inv run(1), of p] n by auto
  with n have n': "n' = Suc n" by (simp add: stored_version_def existing_version_def)
  obtain op blob j where j: "left_row E s a p op (Some (Suc n)) blob '''' (ms_db st) (ms_db st1) j"
    using c s(1) by (rule Put_left_row) (auto intro: that)
  have row: "latestRowForPath a p (ms_db st2) = Some (scanRevertRow j)"
    using Put_newest_row [OF c' s(2)] newest_left_row [OF j t] by simp
  obtain x2 where "tbl_get mf_path (db_manifests (ms_db st2)) p = Some x2" "mf_version x2 = Suc (Suc n)"
    using Put_rows(1) [OF inv1 run(2), of p] n n' by auto
  then have "liveManifestVersion (ms_db st2) p = Inr (Some (Suc (Suc n)))" by (simp add: live_row [OF inv2])
  moreover have "je_after_version (scanRevertRow j) = Some (Suc n)" using j by (simp add: left_row_def scanRevertRow_def)
  ultimately show ?thesis by (simp add: RevertPaths_def revert_path_def row equalOptVersion_def conflict_def)
qed

text \<open>A codec for the two versions of a file of the concrete history.\<close>

definition demo_version :: "nat \<Rightarrow> hash \<Rightarrow> journalManifestBlob" where
  "demo_version v h = \<lparr> jb_size = 4, jb_mode = 420, jb_mtime = 7, jb_version = v,
     jb_chunks = [\<lparr> jc_hash = be_put HashLen h, jc_offset = 0, jc_len = 4 \<rparr>] \<rparr>"

definition demo_undo :: env where
  "demo_undo = demo_env\<lparr>e_marshal := (\<lambda>b. if b = demo_version 1 5 then Some [1] else if b = demo_version 2 9 then Some [2] else None),
     e_unmarshal := (\<lambda>bs. if bs = [1] then Some (demo_version 1 5) else if bs = [2] then Some (demo_version 2 9) else None)\<rparr>"

definition demo_change :: mutation where
  "demo_change = MPut ''/d/a'' 1 (demo_file ''/d/a'' [demo_chunk 9]) ''s1'' ''al'' ''ag''"

lemma demo_codec_ok: "msgpack_ok demo_undo"
  by (simp add: msgpack_ok_def demo_undo_def demo_version_def)

theorem undo_restores_content_witness:
  "content (ms_db (snd (apply_mutation demo_undo demo_change demo_store))) ''/d/b'' = Some (4, 420, 7, [demo_chunk 9]) \<and>
   (\<exists>st2. RevertPaths (\<lambda>_. demo_undo) ''al'' [''/d/a''] None None ''s2'' ''ag'' False (snd (apply_mutation demo_undo demo_change demo_store))
      = (([''/d/a''], [], None), st2) \<and> content (ms_db st2) ''/d/b'' = Some (4, 420, 7, [demo_chunk 5]))"
proof -
  let ?st1 = "snd (apply_mutation demo_undo demo_change demo_store)"
  have run: "fst (apply_mutation demo_undo demo_change demo_store) = Inr ()" by code_simp
  have target: "undo_target demo_change = Some (''/d/a'', ''s1'', ''al'')" by code_simp
  have clock: "clock_ok demo_undo ''s1'' ''al'' ''/d/a'' (ms_db demo_store)" by code_simp
  have name: "file_name_only (ms_db demo_store) ''/d/a''" by code_simp
  have old: "case Get (ms_db demo_store) ''/d/a'' of Inl _ \<Rightarrow> True
    | Inr mf \<Rightarrow> lockAndValidateChunks demo_undo (m_chunks mf) = Inr () \<and> bind_uint64 (m_size mf)" by code_simp
  have new: "case Get (ms_db ?st1) ''/d/a'' of Inl _ \<Rightarrow> True | Inr mf \<Rightarrow> encodeJournalManifest demo_undo mf \<noteq> None" by code_simp
  have works: "revert_works demo_undo demo_undo ''/d/a'' demo_store ?st1"
    unfolding revert_works_def using old new demo_codec_ok by (auto simp: demo_undo_def demo_env_def)
  have before: "content (ms_db demo_store) ''/d/b'' = Some (4, 420, 7, [demo_chunk 5])" by code_simp
  have after: "content (ms_db ?st1) ''/d/b'' = Some (4, 420, 7, [demo_chunk 9])" by code_simp
  obtain st2 where
    "RevertPaths (\<lambda>_. demo_undo) ''al'' [''/d/a''] None None ''s2'' ''ag'' False ?st1 = (([''/d/a''], [], None), st2)"
    "\<forall>q. content (ms_db st2) q = content (ms_db demo_store) q"
    using undo_restores_content [OF demo_store_inv answered [OF run] target _ clock works name, where ws = "''s2''" and wg = "''ag''" and force = False] by auto
  with before after show ?thesis by auto
qed

theorem revert_spares_newer_write_witness:
  "let st1 = snd (Put demo_env ''/d/a'' 1 (demo_file ''/d/a'' []) ''s1'' ''al'' ''ag'' demo_store);
       st2 = snd (Put demo_env ''/d/a'' 2 (demo_file ''/d/a'' [demo_chunk 9]) ''s7'' ''other'' ''you'' st1)
   in RevertPaths (\<lambda>_. demo_env) ''al'' [''/d/a''] None None ''s2'' ''ag'' False st2
        = (([], [\<lparr> rc_path = ''/d/a'', rc_reason = ReasonConcurrentWriter \<rparr>], None), st2)"
proof -
  have 1: "fst (Put demo_env ''/d/a'' 1 (demo_file ''/d/a'' []) ''s1'' ''al'' ''ag'' demo_store) = Inr 2" by code_simp
  have 2: "fst (Put demo_env ''/d/a'' 2 (demo_file ''/d/a'' [demo_chunk 9]) ''s7'' ''other'' ''you''
      (snd (Put demo_env ''/d/a'' 1 (demo_file ''/d/a'' []) ''s1'' ''al'' ''ag'' demo_store))) = Inr 3" by code_simp
  have clock: "clock_ok demo_env ''s1'' ''al'' ''/d/a'' (ms_db demo_store)" by code_simp
  from revert_spares_newer_write [OF demo_store_inv answered [OF 1] answered [OF 2] _ _ clock] show ?thesis
    by (simp add: Let_def)
qed

end
