(* ===== verification/Confinement.thy ===== *)
theory Confinement
  imports Request_Gates Revert_Props
begin

text \<open>
  What a call of the store on one agent's paths leaves alone. The first component of a path names the
  agent it belongs to (\<open>top_dir\<close>). \<open>confined A out I db\<close> describes a database as seen by the agent \<open>A\<close>:
  the files, symlinks and special nodes outside \<open>A\<close>'s directory are as in the snapshot \<open>out\<close>, \<open>A\<close>'s own
  files have the inodes \<open>I\<close> and nobody else's have, and no journal row names another agent's path as the
  origin of a change. Every transaction, every call and every revert on \<open>A\<close>'s paths keeps it, except the
  rename of a directory.
\<close>

section \<open>Whose path\<close>

definition top_dir :: "string \<Rightarrow> string" where
  "top_dir p = takeWhile (\<lambda>c. c \<noteq> slash) (dropWhile (\<lambda>c. c = slash) p)"

lemma top_dir_prefix:
  assumes "slash \<notin> set A" "A \<noteq> ''''"
  shows "top_dir A = A" "top_dir (slash # A) = A" "top_dir (A @ slash # t) = A" "top_dir (slash # A @ slash # t) = A"
proof -
  obtain c cs where A: "A = c # cs" "c \<noteq> slash" using assms by (cases A) auto
  have no: "\<forall>x\<in>set A. x \<noteq> slash" using assms(1) by auto
  then have "takeWhile (\<lambda>c. c \<noteq> slash) A = A" by (simp only: takeWhile_eq_all_conv)
  moreover have "takeWhile (\<lambda>c. c \<noteq> slash) (A @ slash # t) = A" using no by (subst takeWhile_append2; auto)
  moreover note A
  ultimately show "top_dir A = A" "top_dir (slash # A) = A" "top_dir (A @ slash # t) = A" "top_dir (slash # A @ slash # t) = A"
    by (simp_all add: top_dir_def)
qed

lemma checkAgentPath_top:
  assumes "checkAgentPath ident p" "id_scoped ident \<noteq> ''''" "slash \<notin> set (id_scoped ident)"
  shows "top_dir p = id_scoped ident"
proof -
  let ?A = "id_scoped ident" and ?raw = "if p = '''' \<or> hd p \<noteq> slash then slash # p else p"
  have "?raw = slash # ?A \<or> has_prefix ?raw (slash # ?A @ ''/'')"
    using assms(1,2) by (auto simp: checkAgentPath_def Let_def split: if_splits)
  then consider "?raw = slash # ?A" | t where "?raw = slash # ?A @ slash # t"
    by (auto simp: has_prefix_iff)
  then show ?thesis
    by cases (use top_dir_prefix [OF assms(3,2)] in \<open>auto split: if_splits\<close>)
qed

section \<open>Confinement\<close>

type_synonym snapshot = "manifest_row list \<times> symlink_row list \<times> special_row list"

text \<open>The files, symlinks and special nodes of everybody else, up to their revisions.\<close>

definition outside :: "string \<Rightarrow> tenant_db \<Rightarrow> snapshot" where
  "outside A db =
     (map (\<lambda>r. r\<lparr>mf_rev := 0\<rparr>) (filter (\<lambda>r. top_dir (mf_path r) \<noteq> A) (db_manifests db)),
      map (\<lambda>r. r\<lparr>sl_rev := 0\<rparr>) (filter (\<lambda>r. top_dir (sl_path r) \<noteq> A) (db_symlinks db)),
      map (\<lambda>r. r\<lparr>sn_rev := 0\<rparr>) (filter (\<lambda>r. top_dir (sn_path r) \<noteq> A) (db_specials db)))"

definition journal_local :: "journal_row list \<Rightarrow> bool" where
  "journal_local rows \<longleftrightarrow> (\<forall>j\<in>set rows.
     case j_rename_from j of None \<Rightarrow> j_op j \<noteq> SessionOpRename | Some f \<Rightarrow> top_dir f = top_dir (j_path j))"

definition confined :: "string \<Rightarrow> snapshot \<Rightarrow> nat set \<Rightarrow> tenant_db \<Rightarrow> bool" where
  "confined A out I db \<longleftrightarrow> outside A db = out \<and>
     (\<forall>r\<in>set (db_manifests db). top_dir (mf_path r) = A \<longrightarrow> mf_inode r \<in> I) \<and> (\<forall>n>db_next_inode db. n \<in> I) \<and>
     (\<forall>r\<in>set (fst out). mf_inode r \<notin> I) \<and> journal_local (db_journal db)"

lemma journal_local_iff:
  "journal_local rows \<longleftrightarrow> (\<forall>j\<in>set rows. (\<forall>f. j_rename_from j = Some f \<longrightarrow> top_dir f = top_dir (j_path j)) \<and>
     (j_op j = SessionOpRename \<longrightarrow> j_rename_from j \<noteq> None))"
  by (auto simp: journal_local_def split: option.split)

lemma outside_upd [simp]:
  "outside A (db\<lparr>db_chunks := x1\<rparr>) = outside A db" "outside A (db\<lparr>db_dirs := x2\<rparr>) = outside A db"
  "outside A (db\<lparr>db_tombs := x3\<rparr>) = outside A db" "outside A (db\<lparr>db_last_rev := x4\<rparr>) = outside A db"
  "outside A (db\<lparr>db_journal := x5\<rparr>) = outside A db" "outside A (db\<lparr>db_next_inode := x6\<rparr>) = outside A db"
  by (simp_all add: outside_def)

lemma confined_cong:
  assumes "confined A out I db" "db_manifests db' = db_manifests db" "db_symlinks db' = db_symlinks db" "db_specials db' = db_specials db"
    "db_next_inode db \<le> db_next_inode db'" "journal_local (db_journal db')"
  shows "confined A out I db'"
  using assms by (auto simp: confined_def outside_def)

lemma filter_tbl_update:
  assumes "\<And>r. r \<in> set rows \<Longrightarrow> c r \<Longrightarrow> P (f r) = P r \<and> (P r \<longrightarrow> g (f r) = g r)"
  shows "map g (filter P (tbl_update c f rows)) = map g (filter P rows)"
  using assms by (induction rows) (auto simp: tbl_update_def)

lemma filter_tbl_delete:
  assumes "\<And>r. r \<in> set rows \<Longrightarrow> c r \<Longrightarrow> \<not> P r"
  shows "filter P (tbl_delete c rows) = filter P rows"
  using assms by (induction rows) (auto simp: tbl_delete_def)

text \<open>A file is \<open>A\<close>'s by its path exactly when it is by its inode.\<close>

lemma confined_own:
  assumes "confined A out I db" "r \<in> set (db_manifests db)"
  shows "top_dir (mf_path r) = A \<Longrightarrow> mf_inode r \<in> I" and "mf_inode r \<in> I \<Longrightarrow> top_dir (mf_path r) = A"
proof -
  show "top_dir (mf_path r) = A \<Longrightarrow> mf_inode r \<in> I" using assms by (simp add: confined_def)
  assume i: "mf_inode r \<in> I"
  show "top_dir (mf_path r) = A"
  proof (rule ccontr)
    assume "top_dir (mf_path r) \<noteq> A"
    with assms(2) have "r\<lparr>mf_rev := 0\<rparr> \<in> set (fst (outside A db))" by (auto simp: outside_def)
    then have "mf_inode (r\<lparr>mf_rev := 0\<rparr>) \<notin> I" using assms(1) unfolding confined_def by blast
    with i show False by simp
  qed
qed

text \<open>An update of files by their inode, one of \<open>A\<close>'s, or of their revisions.\<close>

lemma confined_inode_update:
  assumes "confined A out I db" "i \<in> I" "\<And>r. mf_path (f r) = mf_path r" "\<And>r. mf_inode (f r) = mf_inode r"
  shows "confined A out I (db\<lparr>db_manifests := tbl_update (\<lambda>r. mf_inode r = i) f (db_manifests db)\<rparr>)"
proof -
  have "map (\<lambda>r. r\<lparr>mf_rev := 0\<rparr>) (filter (\<lambda>r. top_dir (mf_path r) \<noteq> A) (tbl_update (\<lambda>r. mf_inode r = i) f (db_manifests db)))
      = map (\<lambda>r. r\<lparr>mf_rev := 0\<rparr>) (filter (\<lambda>r. top_dir (mf_path r) \<noteq> A) (db_manifests db))"
  proof (rule filter_tbl_update)
    fix r assume "r \<in> set (db_manifests db)" "mf_inode r = i"
    with confined_own(2) [OF assms(1)] assms(2) have "top_dir (mf_path r) = A" by simp
    then show "(top_dir (mf_path (f r)) \<noteq> A) = (top_dir (mf_path r) \<noteq> A) \<and>
      (top_dir (mf_path r) \<noteq> A \<longrightarrow> (f r)\<lparr>mf_rev := 0\<rparr> = r\<lparr>mf_rev := 0\<rparr>)" by (simp add: assms(3))
  qed
  then have "outside A (db\<lparr>db_manifests := tbl_update (\<lambda>r. mf_inode r = i) f (db_manifests db)\<rparr>) = outside A db"
    by (simp add: outside_def)
  moreover have "\<forall>r\<in>set (tbl_update (\<lambda>r. mf_inode r = i) f (db_manifests db)). top_dir (mf_path r) = A \<longrightarrow> mf_inode r \<in> I"
    using assms unfolding confined_def set_tbl_update by auto
  ultimately show ?thesis using assms(1) by (simp add: confined_def)
qed

lemma confined_stamp:
  assumes "confined A out I db"
  shows "confined A out I (db\<lparr>db_manifests := stamp_inode rv i (db_manifests db)\<rparr>)"
proof -
  have "map (\<lambda>r. r\<lparr>mf_rev := 0\<rparr>) (filter (\<lambda>r. top_dir (mf_path r) \<noteq> A) (stamp_inode rv i (db_manifests db)))
      = map (\<lambda>r. r\<lparr>mf_rev := 0\<rparr>) (filter (\<lambda>r. top_dir (mf_path r) \<noteq> A) (db_manifests db))"
    by (intro filter_tbl_update) simp
  then have "outside A (db\<lparr>db_manifests := stamp_inode rv i (db_manifests db)\<rparr>) = outside A db" by (simp add: outside_def)
  with assms show ?thesis by (auto simp: confined_def)
qed

lemma confined_insert:
  assumes "confined A out I db" "top_dir (mf_path r) = A" "mf_inode r \<in> I"
  shows "confined A out I (db\<lparr>db_manifests := db_manifests db @ [r]\<rparr>)"
  using assms by (auto simp: confined_def outside_def)

lemma confined_delete:
  assumes "confined A out I db" "top_dir p = A"
  shows "confined A out I (db\<lparr>db_manifests := tbl_delete (\<lambda>r. mf_path r = p) (db_manifests db)\<rparr>)"
proof -
  have "outside A (db\<lparr>db_manifests := tbl_delete (\<lambda>r. mf_path r = p) (db_manifests db)\<rparr>) = outside A db"
    unfolding outside_def using assms(2) by (simp, subst filter_tbl_delete; auto)
  with assms show ?thesis by (auto simp: confined_def)
qed

lemma confined_rekey:
  assumes "confined A out I db" "top_dir p = A" "top_dir q = A"
  shows "confined A out I (db\<lparr>db_manifests := tbl_update (\<lambda>r. mf_path r = p) (\<lambda>r. r\<lparr>mf_path := q\<rparr>) (db_manifests db)\<rparr>)"
proof -
  have "outside A (db\<lparr>db_manifests := tbl_update (\<lambda>r. mf_path r = p) (\<lambda>r. r\<lparr>mf_path := q\<rparr>) (db_manifests db)\<rparr>) = outside A db"
    unfolding outside_def using assms(2,3) by (auto intro!: filter_tbl_update)
  with assms show ?thesis by (auto simp: confined_def)
qed

lemma confined_same_files:
  "confined A out I db \<Longrightarrow> outside A db' = outside A db \<Longrightarrow> db_manifests db' = db_manifests db \<Longrightarrow> db_next_inode db' = db_next_inode db \<Longrightarrow>
   db_journal db' = db_journal db \<Longrightarrow> confined A out I db'"
  by (simp add: confined_def)

lemma confined_symlinks:
  assumes "confined A out I db" "top_dir p = A"
  shows "confined A out I (db\<lparr>db_symlinks := tbl_delete (\<lambda>r. sl_path r = p) (db_symlinks db)\<rparr>)"
    and "sl_path r = p \<Longrightarrow> confined A out I (db\<lparr>db_symlinks := db_symlinks db @ [r]\<rparr>)"
    and "(\<And>r. sl_path r = p \<Longrightarrow> top_dir (sl_path (f r)) = A) \<Longrightarrow> confined A out I (db\<lparr>db_symlinks := tbl_update (\<lambda>r. sl_path r = p) f (db_symlinks db)\<rparr>)"
proof -
  show "confined A out I (db\<lparr>db_symlinks := tbl_delete (\<lambda>r. sl_path r = p) (db_symlinks db)\<rparr>)"
    by (rule confined_same_files [OF assms(1)]) (use assms(2) in \<open>simp_all add: outside_def, (subst filter_tbl_delete; auto)\<close>)
  show "sl_path r = p \<Longrightarrow> confined A out I (db\<lparr>db_symlinks := db_symlinks db @ [r]\<rparr>)"
    by (rule confined_same_files [OF assms(1)]) (use assms(2) in \<open>simp_all add: outside_def\<close>)
  assume "\<And>r. sl_path r = p \<Longrightarrow> top_dir (sl_path (f r)) = A"
  with assms(2) have "map (\<lambda>r. r\<lparr>sl_rev := 0\<rparr>) (filter (\<lambda>r. top_dir (sl_path r) \<noteq> A) (tbl_update (\<lambda>r. sl_path r = p) f (db_symlinks db)))
      = map (\<lambda>r. r\<lparr>sl_rev := 0\<rparr>) (filter (\<lambda>r. top_dir (sl_path r) \<noteq> A) (db_symlinks db))"
    by (intro filter_tbl_update) simp
  then show "confined A out I (db\<lparr>db_symlinks := tbl_update (\<lambda>r. sl_path r = p) f (db_symlinks db)\<rparr>)"
    by (intro confined_same_files [OF assms(1)]) (simp_all add: outside_def)
qed

lemma confined_specials:
  assumes "confined A out I db" "top_dir p = A"
  shows "confined A out I (db\<lparr>db_specials := tbl_delete (\<lambda>r. sn_path r = p) (db_specials db)\<rparr>)"
    and "sn_path r = p \<Longrightarrow> confined A out I (db\<lparr>db_specials := db_specials db @ [r]\<rparr>)"
    and "(\<And>r. sn_path r = p \<Longrightarrow> top_dir (sn_path (f r)) = A) \<Longrightarrow> confined A out I (db\<lparr>db_specials := tbl_update (\<lambda>r. sn_path r = p) f (db_specials db)\<rparr>)"
proof -
  show "confined A out I (db\<lparr>db_specials := tbl_delete (\<lambda>r. sn_path r = p) (db_specials db)\<rparr>)"
    by (rule confined_same_files [OF assms(1)]) (use assms(2) in \<open>simp_all add: outside_def, (subst filter_tbl_delete; auto)\<close>)
  show "sn_path r = p \<Longrightarrow> confined A out I (db\<lparr>db_specials := db_specials db @ [r]\<rparr>)"
    by (rule confined_same_files [OF assms(1)]) (use assms(2) in \<open>simp_all add: outside_def\<close>)
  assume "\<And>r. sn_path r = p \<Longrightarrow> top_dir (sn_path (f r)) = A"
  with assms(2) have "map (\<lambda>r. r\<lparr>sn_rev := 0\<rparr>) (filter (\<lambda>r. top_dir (sn_path r) \<noteq> A) (tbl_update (\<lambda>r. sn_path r = p) f (db_specials db)))
      = map (\<lambda>r. r\<lparr>sn_rev := 0\<rparr>) (filter (\<lambda>r. top_dir (sn_path r) \<noteq> A) (db_specials db))"
    by (intro filter_tbl_update) simp
  then show "confined A out I (db\<lparr>db_specials := tbl_update (\<lambda>r. sn_path r = p) f (db_specials db)\<rparr>)"
    by (intro confined_same_files [OF assms(1)]) (simp_all add: outside_def)
qed

section \<open>The store's transactions\<close>

lemma local_append:
  "journal_local (rows @ [j]) \<longleftrightarrow> journal_local rows \<and> (\<forall>f. j_rename_from j = Some f \<longrightarrow> top_dir f = top_dir (j_path j)) \<and>
     (j_op j = SessionOpRename \<longrightarrow> j_rename_from j \<noteq> None)"
  by (auto simp: journal_local_iff)

lemma confined_local [simp]: "confined A out I db \<Longrightarrow> journal_local (db_journal db)"
  by (simp add: confined_def)

lemma journal_if_local:
  assumes "journal_if E s a g op p prior after_v src db = Inr (je, db')" "journal_local (db_journal db)"
    "src \<noteq> '''' \<Longrightarrow> top_dir src = top_dir p" "op = SessionOpRename \<Longrightarrow> src \<noteq> ''''"
  shows "journal_local (db_journal db')"
proof (cases "s = ''''")
  case True
  with assms show ?thesis by (simp add: journal_if_def)
next
  case False
  from assms(1) this obtain j where "db_journal db' = db_journal db @ [j]" "j_path j = p" "j_op j = op"
      "j_rename_from j = (if src = '''' then None else Some src)"
    by (rule journal_if_row) (auto simp: left_row_def)
  with assms show ?thesis by (auto simp: local_append split: if_splits)
qed

lemma Put_local:
  assumes "Put_tx E p n mf s a g db = Inr (out, db')" "journal_local (db_journal db)"
  shows "journal_local (db_journal db')"
proof (cases "n = 0")
  case True
  with assms(1) have p: "tbl_get mf_path (db_manifests db) p = None" by (auto elim!: Put_insert_Commit simp: tbl_get_None)
  from assms(1) p True obtain je db2 where
    "journal_if E s a g SessionOpCreate p None (Some 1) '''' (db\<lparr>db_next_inode := Suc (db_next_inode db), db_last_rev := Suc (db_last_rev db)\<rparr>) = Inr (je, db2)"
    "db_journal db' = db_journal db2"
    by (auto simp: Put_tx_def)
  with journal_if_local [OF this(1)] assms(2) show ?thesis by simp
next
  case False
  then obtain x cs where x: "tbl_get mf_path (db_manifests db) p = Some x" "unpackChunks (mf_chunks x) = Some cs"
    using assms(1) by (auto elim!: Put_update_Commit)
  from assms(1) x False obtain je db2 where
    "journal_if E s a g SessionOpUpdate p (Some (prior_manifest p (Some x) cs)) (Some (Suc n)) '''' (db\<lparr>db_last_rev := Suc (db_last_rev db)\<rparr>) = Inr (je, db2)"
    "db_journal db' = db_journal db2"
    by (auto simp: Put_tx_def)
  with journal_if_local [OF this(1)] assms(2) show ?thesis by simp
qed

lemma Put_confined:
  assumes run: "Put_tx E p n mf s a g db = Inr (out, db')" and c: "confined A sn I db" and p: "top_dir p = A"
  shows "confined A sn I db'"
proof (cases "n = 0")
  case True
  from run [unfolded True] show ?thesis
  proof (rule Put_insert_Commit)
    fix js cks rv
    let ?n = "new_manifest_row p (Suc (db_next_inode db)) 1 rv mf"
    assume db': "db' = db\<lparr>db_next_inode := Suc (db_next_inode db), db_last_rev := rv, db_journal := js, db_chunks := cks,
       db_manifests := db_manifests db @ [?n], db_tombs := tbl_delete (\<lambda>t. tb_path t = p) (db_tombs db), db_dirs := add_dir p (db_dirs db)\<rparr>"
    have "mf_inode ?n \<in> I" using c by (simp add: confined_def)
    with confined_insert [OF c, of ?n] p have "confined A sn I (db\<lparr>db_manifests := db_manifests db @ [?n]\<rparr>)" by simp
    then show ?thesis by (rule confined_cong) (use Put_local [OF run] c in \<open>simp_all add: db'\<close>)
  qed
next
  case False
  then have "0 < n" by simp
  with run show ?thesis
  proof (rule Put_update_Commit)
    fix js cks rv and x :: manifest_row
    let ?f = "rewrite_manifest_row (mf_uid x) (mf_gid x) (mf_atime x) (Suc n) rv mf"
    assume x: "tbl_get mf_path (db_manifests db) p = Some x"
      and db': "db' = db\<lparr>db_last_rev := rv, db_journal := js, db_chunks := cks,
       db_manifests := tbl_update (\<lambda>r. mf_inode r = mf_inode x) ?f (db_manifests db), db_dirs := add_dir p (db_dirs db)\<rparr>"
    from x p confined_own(1) [OF c] have "mf_inode x \<in> I" by (auto dest: tbl_get_SomeD)
    then have "confined A sn I (db\<lparr>db_manifests := tbl_update (\<lambda>r. mf_inode r = mf_inode x) ?f (db_manifests db)\<rparr>)"
      by (intro confined_inode_update [OF c]) simp_all
    then show ?thesis by (rule confined_cong) (use Put_local [OF run] c in \<open>simp_all add: db'\<close>)
  qed
qed

lemma Link_confined:
  assumes run: "Link_tx E src dst s a g db = Inr (out, db')" and c: "confined A sn I db" and p: "top_dir src = A" "top_dir dst = A"
  shows "confined A sn I db'"
  using run
proof (rule Link_Commit)
  fix js rv d and x :: manifest_row
  let ?n = "x\<lparr>mf_path := dst, mf_rev := rv\<rparr>"
  assume x: "tbl_get mf_path (db_manifests db) src = Some x"
    and db': "db' = db\<lparr>db_last_rev := rv, db_manifests := stamp_inode rv (mf_inode x) (db_manifests db @ [?n]),
       db_tombs := tbl_delete (\<lambda>t. tb_path t = dst) (db_tombs db), db_dirs := db_dirs db @ [d], db_journal := js\<rparr>"
  from x p confined_own(1) [OF c] have "mf_inode x \<in> I" by (auto dest: tbl_get_SomeD)
  with confined_insert [OF c, of ?n] p have "confined A sn I (db\<lparr>db_manifests := db_manifests db @ [?n]\<rparr>)" by simp
  from confined_stamp [OF this, where rv = rv and i = "mf_inode x"]
  have "confined A sn I (db\<lparr>db_manifests := stamp_inode rv (mf_inode x) (db_manifests db @ [?n])\<rparr>)" by simp
  moreover from run x obtain je db1 where j:
    "journal_if E s a g SessionOpCreate dst None (Some (mf_version x)) '''' db1 = Inr (je, db')" "db_journal db1 = db_journal db"
    by (auto simp: Link_tx_def restamp_inode_def)
  have "journal_local (db_journal db')" using journal_if_local [OF j(1)] j(2) c by simp
  ultimately show ?thesis by (elim confined_cong) (simp_all add: db')
qed


lemma confined_alias:
  assumes "confined A sn I db" "i \<in> I" "surviving_alias db i p = Some q"
  shows "top_dir q = A"
proof -
  from surviving_alias_row [OF assms(3)] obtain r where "r \<in> set (db_manifests db)" "mf_path r = q" "mf_inode r = i" by blast
  with confined_own(2) [OF assms(1)] assms(2) show ?thesis by auto
qed

lemma Delete_local:
  assumes run: "Delete_tx E p n s a g db = Inr (out, db')" and c: "confined A sn I db" and p: "top_dir p = A"
  shows "journal_local (db_journal db')"
proof (cases "s = ''''")
  case True
  with run have "db_journal db' = db_journal db"
    by (auto simp: Delete_tx_def restamp_inode_def tx_when_def split: if_splits)
  with c show ?thesis by simp
next
  case False
  from run this show ?thesis
  proof (rule Delete_left_row)
    fix x blob j ali
    assume x: "tbl_get mf_path (db_manifests db) p = Some x" and j: "left_row E s a p SessionOpDelete None (Some blob) ali db db' j"
      and ali: "if 1 < nlink_of db (mf_inode x) then surviving_alias db (mf_inode x) p = Some ali else ali = ''''"
    from x p confined_own(1) [OF c] have "mf_inode x \<in> I" by (auto dest: tbl_get_SomeD)
    with ali confined_alias [OF c] have "ali \<noteq> '''' \<Longrightarrow> top_dir ali = A" by (auto split: if_splits)
    with j c p show ?thesis by (auto simp: left_row_def local_append split: if_splits)
  qed
qed

lemma Delete_confined:
  assumes run: "Delete_tx E p n s a g db = Inr (out, db')" and c: "confined A sn I db" and p: "top_dir p = A"
  shows "confined A sn I db'"
  using run
proof (rule Delete_Commit)
  fix js cks rv cs and x :: manifest_row
  let ?rows = "tbl_delete (\<lambda>r. mf_path r = p) (db_manifests db)" and ?nl = "nlink_of db (mf_inode x)"
  assume x: "tbl_get mf_path (db_manifests db) p = Some x" "unpackChunks (mf_chunks x) = Some cs"
    and db': "db' = db\<lparr>db_journal := js, db_chunks := cks,
       db_manifests := (if 1 < ?nl then stamp_inode rv (mf_inode x) else id) ?rows,
       db_dirs := drop_dir p (db_dirs db), db_last_rev := rv, db_tombs := tomb_upsert p rv (e_now_tomb E) (db_tombs db)\<rparr>"
  have "confined A sn I (db\<lparr>db_manifests := ?rows\<rparr>)" by (rule confined_delete [OF c p])
  from this confined_stamp [OF this, where rv = rv and i = "mf_inode x"]
  have "confined A sn I (db\<lparr>db_manifests := (if 1 < ?nl then stamp_inode rv (mf_inode x) else id) ?rows\<rparr>)" by simp
  moreover have "journal_local (db_journal db')" using Delete_local [OF run c p] .
  ultimately show ?thesis by (elim confined_cong) (simp_all add: db')
qed


lemma confined_rev: "confined A sn I db \<Longrightarrow> confined A sn I (db\<lparr>db_last_rev := n\<rparr>)"
  by (frule confined_local, erule confined_cong) simp_all

lemma node_confined:
  assumes c: "confined A sn I db" and p: "top_dir p = A"
  shows "DirCreate_tx p mode db = Inr (o1, db') \<Longrightarrow> confined A sn I db'"
    and "DirRemove_tx E p db = Inr (o2, db') \<Longrightarrow> confined A sn I db'"
    and "Symlink_tx p target mode db = Inr (o3, db') \<Longrightarrow> confined A sn I db'"
    and "Mknod_tx p mode rdev db = Inr (o4, db') \<Longrightarrow> confined A sn I db'"
    and "deleteSpecialNode_tx E p db = Inr (o5, db') \<Longrightarrow> confined A sn I db'"
    and "deleteSymlink_tx E p db = Inr (o6, db') \<Longrightarrow> confined A sn I db'"
proof -
  show "confined A sn I db'" if "DirCreate_tx p mode db = Inr (o1, db')"
    by (rule confined_cong [OF c]) (use that c in \<open>simp_all add: DirCreate_Commit\<close>)
  show "confined A sn I db'" if "DirRemove_tx E p db = Inr (o2, db')"
    by (rule confined_cong [OF c]) (use that c in \<open>simp_all add: DirRemove_Commit\<close>)
  show "confined A sn I db'" if "Symlink_tx p target mode db = Inr (o3, db')"
    using that
  proof (rule Symlink_Commit)
    fix m rv
    let ?r = "\<lparr> sl_path = p, sl_target = target, sl_mode = m, sl_mtime = 0, sl_uid = 0, sl_gid = 0, sl_atime = 0, sl_rev = rv \<rparr>"
    assume db': "db' = db\<lparr>db_last_rev := rv, db_symlinks := db_symlinks db @ [?r],
      db_dirs := db_dirs db @ [(dir_default (fst (splitParentName p)) (snd (splitParentName p)))\<lparr>de_mode := m\<rparr>],
      db_tombs := tbl_delete (\<lambda>t. tb_path t = p) (db_tombs db)\<rparr>"
    show ?thesis by (rule confined_cong [OF confined_symlinks(2) [OF c p, of ?r]]) (use c in \<open>simp_all add: db'\<close>)
  qed
  show "confined A sn I db'" if "Mknod_tx p mode rdev db = Inr (o4, db')"
    using that
  proof (rule Mknod_Commit)
    fix rv
    let ?r = "\<lparr> sn_path = p, sn_mode = mode, sn_rdev = rdev, sn_mtime = 0, sn_uid = 0, sn_gid = 0, sn_atime = 0, sn_rev = rv \<rparr>"
    assume db': "db' = db\<lparr>db_last_rev := rv, db_specials := db_specials db @ [?r],
      db_dirs := db_dirs db @ [(dir_default (fst (splitParentName p)) (snd (splitParentName p)))\<lparr>de_mode := mode AND perm_mask\<rparr>],
      db_tombs := tbl_delete (\<lambda>t. tb_path t = p) (db_tombs db)\<rparr>"
    show ?thesis by (rule confined_cong [OF confined_specials(2) [OF c p, of ?r]]) (use c in \<open>simp_all add: db'\<close>)
  qed
  show "confined A sn I db'" if "deleteSpecialNode_tx E p db = Inr (o5, db')"
    by (rule confined_cong [OF confined_specials(1) [OF c p]]) (use that c in \<open>simp_all add: deleteSpecialNode_Commit\<close>)
  show "confined A sn I db'" if "deleteSymlink_tx E p db = Inr (o6, db')"
    by (rule confined_cong [OF confined_symlinks(1) [OF c p]]) (use that c in \<open>simp_all add: deleteSymlink_Commit\<close>)
qed

lemma set_meta_rest_confined:
  assumes run: "set_meta_rest fs fn fd p rv db = Inr (out, db')" and c: "confined A sn I db" and p: "top_dir p = A"
    and keep: "\<And>r. sl_path (fs r) = sl_path r" "\<And>r. sn_path (fn r) = sn_path r"
  shows "confined A sn I db'"
proof -
  from set_meta_rest_Commit [OF run] consider
      (same) "db' = db"
    | (sl) "db' = db\<lparr>db_symlinks := tbl_update (\<lambda>r. sl_path r = p) (\<lambda>r. (fs r)\<lparr>sl_rev := rv\<rparr>) (db_symlinks db)\<rparr>"
    | (sn) "db' = db\<lparr>db_specials := tbl_update (\<lambda>r. sn_path r = p) (\<lambda>r. (fn r)\<lparr>sn_rev := rv\<rparr>) (db_specials db)\<rparr>"
    | (de) ds where "db' = db\<lparr>db_dirs := ds\<rparr>"
    by blast
  then show ?thesis
  proof cases
    case sl
    show ?thesis unfolding sl by (rule confined_symlinks(3) [OF c p]) (simp add: keep p)
  next
    case sn
    show ?thesis unfolding sn by (rule confined_specials(3) [OF c p]) (simp add: keep p)
  next
    case de
    show ?thesis unfolding de by (rule confined_cong [OF c]) (use c in simp_all)
  qed (use c in simp)
qed

lemma set_meta_confined:
  assumes run: "set_meta_tx ff fs fn fd p db = Inr (out, db')" and c: "confined A sn I db" and p: "top_dir p = A"
    and keep: "\<And>r. mf_path (ff r) = mf_path r" "\<And>r. mf_inode (ff r) = mf_inode r" "\<And>r. sl_path (fs r) = sl_path r" "\<And>r. sn_path (fn r) = sn_path r"
  shows "confined A sn I db'"
  using run
proof (cases rule: set_meta_tx_Commit)
  case (manifest x)
  then have "mf_inode x \<in> I" using p confined_own(1) [OF c] by (auto dest: tbl_get_SomeD)
  then have "confined A sn I (db\<lparr>db_manifests := tbl_update (\<lambda>r. mf_inode r = mf_inode x) (\<lambda>r. (ff r)\<lparr>mf_rev := Suc (db_last_rev db)\<rparr>) (db_manifests db)\<rparr>)"
    by (intro confined_inode_update [OF c]) (simp_all add: keep)
  then show ?thesis by (rule confined_cong) (use c in \<open>simp_all add: manifest\<close>)
next
  case rest
  from set_meta_rest_confined [OF this confined_rev [OF c] p keep(3,4)] show ?thesis .
qed


section \<open>Renames\<close>

lemma deleteDest_confined:
  assumes run: "deleteDestTx p k rv db = Inr (u, db')" and c: "confined A sn I db" and p: "top_dir p = A"
  shows "confined A sn I db'"
proof (cases k)
  case nodeRegular
  with run show ?thesis
  proof (cases rule: deleteDest_Inr)
    case (file_row x cks)
    let ?rows = "tbl_delete (\<lambda>r. mf_path r = p) (db_manifests db)"
    have "confined A sn I (db\<lparr>db_manifests := ?rows\<rparr>)" by (rule confined_delete [OF c p])
    from this confined_stamp [OF this, where rv = rv and i = "mf_inode x"]
    have "confined A sn I (db\<lparr>db_manifests := (if 1 < nlink_of db (mf_inode x) then stamp_inode rv (mf_inode x) else id) ?rows\<rparr>)" by simp
    then show ?thesis by (rule confined_cong) (use c in \<open>simp_all add: file_row\<close>)
  qed simp
next
  case nodeSymlink
  with run show ?thesis by (intro confined_cong [OF confined_symlinks(1) [OF c p]]) (use c in \<open>auto simp: deleteDestTx_def\<close>)
next
  case nodeSpecial
  with run show ?thesis by (intro confined_cong [OF confined_specials(1) [OF c p]]) (use c in \<open>auto simp: deleteDestTx_def\<close>)
qed (use run c in \<open>auto simp: deleteDestTx_def intro: confined_cong\<close>)

lemma journalRename_confined:
  assumes run: "journalRenameTx E src dst v x s a g db = Inr (u, db')" and c: "confined A sn I db" and p: "top_dir src = A" "top_dir dst = A" "src \<noteq> ''''"
  shows "confined A sn I db'"
proof -
  have "journal_local (db_journal db')"
  proof (cases "x = None \<or> s = ''''")
    case True
    with run c show ?thesis by (auto simp: journalRenameTx_def split: option.splits)
  next
    case False
    with run obtain mf e where "journalBeforeWrite E s a g SessionOpRename dst (Some mf) (Some (Suc v)) src db = Inr (e, db')"
      by (auto simp: journalRenameTx_def)
    then obtain j where "db_journal db' = db_journal db @ [j]" "j_path j = dst" "j_rename_from j = Some src"
      by (rule journalBeforeWrite_Inr) (use p(3) in \<open>auto simp: journal_row_of_def\<close>)
    with c p show ?thesis by (simp add: local_append)
  qed
  moreover from journalRename_tables [OF run] obtain js where "db' = db\<lparr>db_journal := js\<rparr>" by blast
  ultimately show ?thesis by (intro confined_cong [OF c]) simp_all
qed

lemma move_confined:
  assumes run: "moveRenameSourceTx now src dst k v i rv db = Inr (u, db')" and c: "confined A sn I db"
    and p: "top_dir src = A" "top_dir dst = A" and k: "k \<noteq> nodeDir" "k = nodeRegular \<Longrightarrow> i \<in> I"
  shows "confined A sn I db'"
proof (cases k)
  case nodeRegular
  let ?rows = "tbl_update (\<lambda>r. mf_path r = src) (\<lambda>r. r\<lparr>mf_path := dst\<rparr>) (db_manifests db)"
  have db': "db' = db\<lparr>db_manifests := tbl_update (\<lambda>r. mf_inode r = i) (\<lambda>r. r\<lparr>mf_version := v, mf_rev := rv\<rparr>) ?rows\<rparr>"
    using run nodeRegular by (auto simp: moveRenameSourceTx_def dest!: rekey_manifests_Inr(1))
  from confined_inode_update [OF confined_rekey [OF c p] k(2) [OF nodeRegular], of "\<lambda>r. r\<lparr>mf_version := v, mf_rev := rv\<rparr>"]
  show ?thesis unfolding db' by simp
next
  case nodeSymlink
  with run have db': "db' = db\<lparr>db_symlinks := tbl_update (\<lambda>r. sl_path r = src) (\<lambda>r. r\<lparr>sl_path := dst, sl_rev := rv\<rparr>) (db_symlinks db)\<rparr>"
    by (auto simp: moveRenameSourceTx_def dest!: rekey_symlinks_Inr(1))
  show ?thesis unfolding db' by (rule confined_symlinks(3) [OF c p(1)]) (simp add: p)
next
  case nodeSpecial
  with run have db': "db' = db\<lparr>db_specials := tbl_update (\<lambda>r. sn_path r = src) (\<lambda>r. r\<lparr>sn_path := dst, sn_rev := rv\<rparr>) (db_specials db)\<rparr>"
    by (auto simp: moveRenameSourceTx_def dest!: rekey_specials_Inr(1))
  show ?thesis unfolding db' by (rule confined_specials(3) [OF c p(1)]) (simp add: p)
qed (use k run c in \<open>auto simp: moveRenameSourceTx_def\<close>)

lemma rename_apply_confined:
  assumes run: "rename_apply E src dst k dk dv x s a g db = Inr (out, db')" and c: "confined A sn I db"
    and p: "top_dir src = A" "top_dir dst = A" "src \<noteq> ''''" and k: "k \<noteq> nodeDir" "k = nodeRegular \<Longrightarrow> (case x of None \<Rightarrow> 0 | Some r \<Rightarrow> mf_inode r) \<in> I"
  shows "confined A sn I db'"
proof -
  let ?rv = "Suc (db_last_rev db)" and ?i = "case x of None \<Rightarrow> 0 | Some r \<Rightarrow> mf_inode r"
  from run obtain db2 nv je db3 db4 db5 where d: "tx_when (dk \<noteq> nodeAbsent) (deleteDestTx dst dk ?rv) (db\<lparr>db_last_rev := ?rv\<rparr>) = Inr ((), db2)"
    and j: "journalRenameTx E src dst dv x s a g db2 = Inr ((nv, je), db3)"
    and m: "moveRenameSourceTx (e_now_tomb E) src dst k nv ?i ?rv db3 = Inr ((), db4)"
    and t: "rewriteRenameDirEntriesTx src dst k ?rv db4 = Inr ((), db5)"
    and db': "db' = db5\<lparr>db_tombs := tbl_delete (\<lambda>t. tb_path t = dst) (tomb_upsert src ?rv (e_now_tomb E) (db_tombs db5))\<rparr>"
    by (fastforce simp: rename_apply_def simp del: tx_when_Inr)
  have "confined A sn I db2"
    using d deleteDest_confined [OF _ confined_rev [OF c] p(2)] confined_rev [OF c] by (cases "dk = nodeAbsent") auto
  from journalRename_confined [OF j this p] have "confined A sn I db3" .
  from move_confined [OF m this p(1,2) k] have c4: "confined A sn I db4" .
  from rewriteDirs_node [OF t k(1)] have "\<exists>ds. db5 = db4\<lparr>db_dirs := ds\<rparr>" by blast
  then show ?thesis using c4 unfolding db' by (intro confined_cong [OF c4]) auto
qed

lemma rename_confined:
  assumes run: "renameOpt_tx E src dst ef et nr s a g db = Inr (out, db')" and c: "confined A sn I db"
    and p: "top_dir src = A" "top_dir dst = A" "src \<noteq> ''''" and k: "resolveKind db src \<noteq> nodeDir"
  shows "confined A sn I db'"
  using run
proof (cases rule: renameOpt_Inr)
  case (moved dv x)
  have "(case x of None \<Rightarrow> 0 | Some r \<Rightarrow> mf_inode r) \<in> I" if "resolveKind db src = nodeRegular"
    using that moved(5) p(1) confined_own(1) [OF c] by (auto dest: tbl_get_SomeD)
  from rename_apply_confined [OF moved(7) c p k this] show ?thesis .
qed (use c in simp_all)


section \<open>The store's calls\<close>

lemma run_confined:
  assumes "confined A sn I (ms_db st)" "\<And>out db'. m (ms_db st) = Inr (out, db') \<Longrightarrow> confined A sn I db'"
  shows "confined A sn I (ms_db (snd (run_store E m st)))"
  using assms by (auto simp: run_store_def notifyChange_def broadcast_def split: sum.split outcome.split option.split)

lemma call_confined:
  assumes c: "confined A sn I (ms_db st)" and p: "top_dir p = A"
  shows "confined A sn I (ms_db (snd (Put E p n mf s a g st)))"
    and "top_dir src = A \<Longrightarrow> confined A sn I (ms_db (snd (Link E src p s a g st)))"
    and "confined A sn I (ms_db (snd (Delete E p n s a g st)))"
    and "top_dir src = A \<Longrightarrow> src \<noteq> '''' \<Longrightarrow> resolveKind (ms_db st) src \<noteq> nodeDir \<Longrightarrow> confined A sn I (ms_db (snd (renameOpt E src p ef et nr s a g st)))"
    and "confined A sn I (ms_db (snd (DirCreate E p mode st)))" "confined A sn I (ms_db (snd (DirRemove E p st)))"
    and "confined A sn I (ms_db (snd (Symlink E p target mode st)))" "confined A sn I (ms_db (snd (Mknod E p mode rdev st)))"
    and "confined A sn I (ms_db (snd (SetOwner E p u v st)))" "confined A sn I (ms_db (snd (SetAtime E p t st)))"
proof -
  note run = run_confined [OF c]
  have "confined A sn I (ms_db (snd (run_store E (Put_tx E p n mf s a g) st)))" by (rule run, erule Put_confined [OF _ c p])
  with c show "confined A sn I (ms_db (snd (Put E p n mf s a g st)))" by (auto simp: Put_def split: sum.split)
  show "confined A sn I (ms_db (snd (Link E src p s a g st)))" if "top_dir src = A"
  proof -
    have "confined A sn I (ms_db (snd (run_store E (Link_tx E src p s a g) st)))" by (rule run, erule Link_confined [OF _ c that p])
    with c show ?thesis by (auto simp: Link_def)
  qed
  show "confined A sn I (ms_db (snd (renameOpt E src p ef et nr s a g st)))" if "top_dir src = A" "src \<noteq> ''''" "resolveKind (ms_db st) src \<noteq> nodeDir"
  proof -
    have "confined A sn I (ms_db (snd (run_store E (renameOpt_tx E src p ef et nr s a g) st)))"
      by (rule run, erule rename_confined [OF _ c that(1) p that(2,3)])
    with c show ?thesis by (auto simp: renameOpt_def)
  qed
  show "confined A sn I (ms_db (snd (DirCreate E p mode st)))" "confined A sn I (ms_db (snd (DirRemove E p st)))"
    "confined A sn I (ms_db (snd (Symlink E p target mode st)))" "confined A sn I (ms_db (snd (Mknod E p mode rdev st)))"
    unfolding DirCreate_def DirRemove_def Symlink_def Mknod_def by (rule run, erule node_confined [OF c p])+
  show "confined A sn I (ms_db (snd (SetOwner E p u v st)))" "confined A sn I (ms_db (snd (SetAtime E p t st)))"
    unfolding SetOwner_def SetAtime_def SetOwner_tx_def SetAtime_tx_def by (rule run, erule set_meta_confined [OF _ c p], simp_all)+
  show "confined A sn I (ms_db (snd (Delete E p n s a g st)))"
  proof -
    obtain r1 st1 where 1: "run_store E (deleteSpecialNode_tx E p) st = (r1, st1)" by fastforce
    have "confined A sn I (ms_db (snd (run_store E (deleteSpecialNode_tx E p) st)))" by (rule run, erule node_confined(5) [OF c p])
    with 1 have c1: "confined A sn I (ms_db st1)" by simp
    obtain r2 st2 where 2: "run_store E (deleteSymlink_tx E p) st1 = (r2, st2)" by fastforce
    have "confined A sn I (ms_db (snd (run_store E (deleteSymlink_tx E p) st1)))" by (rule run_confined [OF c1], erule node_confined(6) [OF c1 p])
    with 2 have c2: "confined A sn I (ms_db st2)" by simp
    have "confined A sn I (ms_db (snd (run_store E (Delete_tx E p n s a g) st2)))"
      by (rule run_confined [OF c2], erule Delete_confined [OF _ c2 p])
    with c c1 c2 show ?thesis by (auto simp: Delete_def 1 2 split: sum.split)
  qed
qed

lemma setmode_confined:
  assumes c: "confined A sn I (ms_db st)" and p: "top_dir p = A"
  shows "confined A sn I (ms_db (snd (SetMode E p mode s a g lease st)))"
proof -
  have "confined A sn I (ms_db (snd (run_store E (SetMode_tx p m) st)))" for m
    by (rule run_confined [OF c], unfold SetMode_tx_def, simp, erule set_meta_rest_confined [OF _ confined_rev [OF c] p], simp_all)
  moreover have "confined A sn I (ms_db (snd (PutWithLeaseCheck E p n mf s a g lease st)))" for n mf
    using call_confined(1) [OF c p] c by (simp add: PutWithLeaseCheck_def split: sum.split)
  ultimately show ?thesis using c by (simp add: SetMode_def Let_def snd_case_call split: sum.split)
qed

text \<open>The inverse of a journalled change stays where the change was.\<close>

lemma working_live:
  assumes "working_get w p = Some v" "\<And>q v. (q, v) \<in> set w \<Longrightarrow> liveManifestVersion db q = Inr v"
  shows "resolveKind db p = nodeRegular"
proof -
  from assms(1) have "(p, Some v) \<in> set w" by (auto simp: working_get_def dest: map_of_SomeD split: option.splits)
  from assms(2) [OF this] have "tbl_get mf_path (db_manifests db) p \<noteq> None"
    by (auto simp: liveManifestVersion_def Get_def split: sum.splits option.splits if_splits)
  then show ?thesis by (auto simp: resolveKind_def dest: tbl_get_SomeD)
qed


definition inverse_local :: "string \<Rightarrow> SessionJournalEntry \<Rightarrow> bool" where
  "inverse_local A row \<longleftrightarrow> top_dir (je_path row) = A \<and> (je_rename_from row \<noteq> '''' \<longrightarrow> top_dir (je_rename_from row) = A) \<and>
     (je_op row = SessionOpRename \<longrightarrow> je_rename_from row \<noteq> '''')"

lemma applyInverse_confined:
  assumes c: "confined A sn I (ms_db st)" and row: "inverse_local A row" and A: "A \<noteq> ''''"
    and w: "\<And>q v. (q, v) \<in> set w \<Longrightarrow> liveManifestVersion (ms_db st) q = Inr v"
  shows "confined A sn I (ms_db (snd (applyInverse E row w s a g st)))"
proof -
  let ?p = "je_path row" and ?src = "je_rename_from row"
  have p: "top_dir ?p = A" "?p \<noteq> ''''" using row A by (auto simp: inverse_local_def top_dir_def)
  note calls = call_confined(1,3) [OF c p(1)] call_confined(2) [OF c p(1)]
  have ren: "confined A sn I (ms_db (snd (Rename E ?p ?src v 0 s a g st)))" if "je_op row = SessionOpRename" "working_get w ?p = Some v" for v
  proof -
    have "top_dir ?src = A" using row that(1) by (simp add: inverse_local_def)
    moreover have "resolveKind (ms_db st) ?p \<noteq> nodeDir" using working_live [OF that(2) w] by simp
    ultimately show ?thesis unfolding Rename_def by (intro call_confined(4) [OF c]) (use p in simp_all)
  qed
  have lk: "confined A sn I (ms_db (snd (Link E ?src ?p s a g st)))" if "?src \<noteq> ''''"
    using calls(3) row that by (simp add: inverse_local_def)
  show ?thesis
    by (cases "je_op row") (use ren lk in \<open>simp_all add: applyInverse_def Let_def snd_case_call calls c split: option.split sum.split\<close>)
qed


lemma found_local:
  assumes "journal_local (db_journal db)" "top_dir p = A" and A: "A \<noteq> ''''"
    and "(if pinnedSession \<noteq> '''' \<and> pinnedSeq \<noteq> 0 then rowForSessionSeq alloc p pinnedSession pinnedSeq db else latestRowForPath alloc p db) = Some row"
  shows "inverse_local A row"
proof -
  obtain j where j: "j \<in> set (db_journal db)" "j_path j = p" "row = scanRevertRow j"
  proof (cases "pinnedSession \<noteq> '''' \<and> pinnedSeq \<noteq> 0")
    case True
    with assms(4) show thesis by (auto simp: rowForSessionSeq_def find_Some_iff intro!: that)
  next
    case False
    with assms(4) obtain j where f: "newest_row alloc p (db_journal db) = Some j" "row = scanRevertRow j"
      by (auto simp: latestRowForPath_def)
    from f(1) have "j \<in> set (sort_key (\<lambda>j. (- j_ts j, - int (j_seq j))) (filter (\<lambda>j. j_alloc j = alloc \<and> j_path j = p) (db_journal db)))"
      unfolding newest_row_def by (auto simp del: set_sort split: list.splits)
    with f(2) show thesis by (intro that) auto
  qed
  with assms(1,2) A have "j_rename_from j \<noteq> Some ''''" by (auto simp: journal_local_iff top_dir_def)
  with j assms(1,2) show ?thesis by (auto simp: inverse_local_def scanRevertRow_def journal_local_iff split: option.splits)
qed

lemma DeleteRow_confined: "confined A sn I db \<Longrightarrow> confined A sn I (DeleteRow s n db)"
  by (rule confined_cong) (auto simp: DeleteRow_def journal_local_iff confined_def)

lemma revert_path_confined:
  assumes c: "confined A sn I (ms_db st)" and p: "top_dir p = A" and A: "A \<noteq> ''''"
  shows "confined A sn I (ms_db (snd (revert_path E alloc p ps k ws wg force st)))"
proof -
  have row: "confined A sn I (ms_db (snd (apply_row E alloc p row w ws wg st)))"
    if "inverse_local A row" "\<And>q v. (q, v) \<in> set w \<Longrightarrow> liveManifestVersion (ms_db st) q = Inr v" for row w
    using applyInverse_confined [OF c that(1) A that(2), of w E ws alloc wg] DeleteRow_confined
    by (cases "applyInverse E row w ws alloc wg st") (auto simp: apply_row_def split: sum.split revert_error.split)
  let ?found = "if ps \<noteq> '''' \<and> k \<noteq> 0 then rowForSessionSeq alloc p ps k (ms_db st) else latestRowForPath alloc p (ms_db st)"
  show ?thesis
  proof (cases ?found)
    case None
    with c show ?thesis unfolding revert_path_def Let_def by simp
  next
    case (Some r)
    note own = found_local [OF confined_local [OF c] p A Some]
    have "confined A sn I (ms_db (snd (apply_row E alloc p r [(p, live)] ws wg st)))"
      "liveManifestVersion (ms_db st) (je_rename_from r) = Inr l \<Longrightarrow>
         confined A sn I (ms_db (snd (apply_row E alloc p r [(je_rename_from r, l), (p, live)] ws wg st)))"
      if "liveManifestVersion (ms_db st) p = Inr live" for live l
      using that by (auto intro!: row [OF own])
    with c Some show ?thesis unfolding revert_path_def Let_def by (simp split: sum.split)
  qed
qed

lemma RevertPaths_confined:
  assumes "confined A sn I (ms_db st)" "\<forall>p\<in>set paths. top_dir p = A" "A \<noteq> ''''"
  shows "confined A sn I (ms_db (snd (RevertPaths E alloc paths sess seqs ws wg force st)))"
proof -
  have "confined A sn I (ms_db (snd (revert_loop alloc ws wg force items ok bad st)))"
    if "confined A sn I (ms_db st)" "\<forall>i\<in>set items. top_dir (fst (snd i)) = A" for items ok bad st
    using that
  proof (induction items arbitrary: ok bad st)
    case (Cons i items)
    obtain E p ps k where i: "i = (E, p, ps, k)" by (metis surj_pair)
    with Cons.prems have p: "top_dir p = A" by simp
    from revert_path_confined [OF Cons.prems(1) p assms(3), of E alloc ps k ws wg force] Cons.IH Cons.prems(2) show ?case
      by (cases "revert_path E alloc p ps k ws wg force st") (auto simp: i split: path_outcome.split)
  qed simp
  with assms(1,2) show ?thesis by (auto simp: RevertPaths_def split: option.split)
qed

end
