(* ===== verification/Wire_Messages.thy ===== *)
theory Wire_Messages
  imports Change_Feed
begin

text \<open>
  The requests and responses of the data plane (dataplane/messages.go, the error numbers of
  dataplane/protocol.go) as they are once msgpack has decoded them, and the errors a handler answers
  with. The free-text message of an error is not kept; its number and its recovery hint are.
\<close>

section \<open>Errors\<close>

definition ErrnoEIO :: int where "ErrnoEIO = 5"
definition ErrnoEACCES :: int where "ErrnoEACCES = 13"
definition ErrnoENOENT :: int where "ErrnoENOENT = 2"
definition ErrnoEINVAL :: int where "ErrnoEINVAL = 22"
definition ErrnoEEXIST :: int where "ErrnoEEXIST = 17"
definition ErrnoENOTDIR :: int where "ErrnoENOTDIR = 20"
definition ErrnoEISDIR :: int where "ErrnoEISDIR = 21"
definition ErrnoENOSPC :: int where "ErrnoENOSPC = 28"
definition ErrnoENOTEMPTY :: int where "ErrnoENOTEMPTY = 39"
definition ErrnoEDQUOT :: int where "ErrnoEDQUOT = 122"
definition ErrnoESTALE :: int where "ErrnoESTALE = 116"
definition ErrnoEBUSY :: int where "ErrnoEBUSY = 16"

record LastWriter =
  wr_agent :: "string option"
  wr_session :: "string option"
  wr_at :: int

record RecoveryHint =
  rh_kind :: string
  rh_your_version :: "nat option"
  rh_current_version :: "nat option"
  rh_last_writer :: "LastWriter option"
  rh_action :: string

definition RecoveryKindCasConflict :: string where "RecoveryKindCasConflict = ''cas_conflict''"

record ErrorPayload =
  ep_errno :: int
  ep_recovery :: "RecoveryHint option"

definition wire_err :: "int \<Rightarrow> ErrorPayload" where
  "wire_err n = \<lparr> ep_errno = n, ep_recovery = None \<rparr>"

definition WithRecovery :: "ErrorPayload \<Rightarrow> RecoveryHint \<Rightarrow> ErrorPayload" where
  "WithRecovery e h = e\<lparr>ep_recovery := Some h\<rparr>"

section \<open>Requests\<close>

record WireChunkRef =
  wc_hash :: "byte list"
  wc_offset :: "64 word"
  wc_len :: "32 word"

record ManifestPutRequest =
  mp_path :: string
  mp_version_expected :: nat
  mp_size :: "64 word"
  mp_mode :: "32 word"
  mp_mtime :: int
  mp_chunks :: "WireChunkRef list"
  mp_session :: "string option"
  mp_alloc :: "string option"

record ManifestDeleteRequest =
  md_path :: string
  md_expected :: nat
  md_session :: "string option"
  md_alloc :: "string option"

record ManifestRenameRequest =
  mr_from :: string
  mr_to :: string
  mr_expected_from :: nat
  mr_expected_to :: nat
  mr_no_replace :: bool
  mr_session :: "string option"
  mr_alloc :: "string option"

record LinkRequest =
  lk_from :: string
  lk_to :: string
  lk_session :: "string option"
  lk_alloc :: "string option"

record SetattrRequest =
  sa_path :: string
  sa_mode :: "32 word"
  sa_uid :: "32 word option"
  sa_gid :: "32 word option"
  sa_atime :: "int option"
  sa_session :: "string option"
  sa_alloc :: "string option"

record MknodRequest =
  mk_path :: string
  mk_mode :: "32 word"
  mk_rdev :: "64 word"
  mk_session :: "string option"
  mk_alloc :: "string option"

record JournalQueryRequest =
  jq_alloc :: string
  jq_limit :: nat
  jq_cursor :: string

record JournalRevertPathRequest =
  jr_alloc :: string
  jr_paths :: "string list"
  jr_force :: bool

text \<open>
  One constructor per operation. Directory and symlink requests carry a session only for the audit log.
  A lease request's mode is the byte on the wire.
\<close>

datatype request =
    ListReq string
  | StatReq string
  | ManifestGetReq string
  | ManifestPutReq ManifestPutRequest
  | ManifestDeleteReq ManifestDeleteRequest
  | ManifestRenameReq ManifestRenameRequest
  | LinkReq LinkRequest
  | DirCreateReq string "32 word"
  | DirRemoveReq string
  | SetattrReq SetattrRequest
  | SymlinkReq string string "32 word"
  | ReadlinkReq string
  | MknodReq MknodRequest
  | ChunkGetReq "byte list"
  | ChunkHasReq "byte list"
  | ChunkPutReq "byte list" "byte list"
  | JournalQueryReq JournalQueryRequest
  | JournalRevertPathReq JournalRevertPathRequest
  | ChangesFetchReq "32 word" ChangesFetchRequest
  | ChangesSubscribeReq "32 word"
  | LeaseGrantReq string "8 word"
  | LeaseRefreshReq "byte list"
  | LeaseReleaseReq "byte list"

section \<open>Responses\<close>

record EntryWire =
  ew_name :: string
  ew_kind :: string
  ew_size :: "64 word"
  ew_inode :: nat
  ew_nlink :: nat
  ew_mode :: "32 word"
  ew_uid :: "32 word"
  ew_gid :: "32 word"
  ew_atime :: int
  ew_target :: string
  ew_rdev :: "64 word"
  ew_mtime :: int
  ew_version :: nat

definition no_entry :: EntryWire where
  "no_entry = \<lparr> ew_name = '''', ew_kind = '''', ew_size = 0, ew_inode = 0, ew_nlink = 0, ew_mode = 0, ew_uid = 0, ew_gid = 0,
     ew_atime = 0, ew_target = '''', ew_rdev = 0, ew_mtime = 0, ew_version = 0 \<rparr>"

record ManifestGetResponse =
  mg_version :: nat
  mg_size :: "64 word"
  mg_mode :: "32 word"
  mg_mtime :: int
  mg_chunks :: "WireChunkRef list"

datatype response =
    ListResp "EntryWire list"
  | StatResp EntryWire
  | ManifestGetResp ManifestGetResponse
  | ManifestPutResp nat
  | ManifestRenameResp nat
  | LinkResp nat
  | ReadlinkResp string
  | ChunkGetResp "byte list"
  | ChunkHasResp "byte list"
  | ChunkPutResp bool
  | JournalQueryResp "JournalQueryRow list" string
  | JournalRevertPathResp "string list" "(string \<times> string) list"
  | ChangesFetchResp ChangesFetchResponse
  | ChangesSubscribeResp nat string
  | LeaseGrantResp "byte list" int "8 word"
  | LeaseRefreshResp int
  | EmptyResp

section \<open>Chunk references\<close>

definition toWireChunks :: "ChunkRef list \<Rightarrow> WireChunkRef list" where
  "toWireChunks cs = map (\<lambda>c. \<lparr> wc_hash = be_put HashLen (cr_hash c), wc_offset = cr_offset c, wc_len = cr_len c \<rparr>) cs"

text \<open>A hash of the wrong length becomes the zero hash.\<close>

definition fromWireChunks :: "WireChunkRef list \<Rightarrow> ChunkRef list" where
  "fromWireChunks cs = map (\<lambda>c. \<lparr> cr_hash = (if length (wc_hash c) = HashLen then be_get (wc_hash c) else 0),
     cr_offset = wc_offset c, cr_len = wc_len c \<rparr>) cs"

lemma fromWire_toWire [simp]: "fromWireChunks (toWireChunks cs) = cs"
  by (induction cs) (simp_all add: fromWireChunks_def toWireChunks_def HashLen_def)

end
