(* ===== verification/Wire_Frames.thy ===== *)
theory Wire_Frames
  imports Chunk_Refs
begin

text \<open>
  Frames on the wire (dataplane/protocol.go, dataplane/codec.go): a 16-byte header and a payload. A
  reader is a byte list, what is left of the stream before it closes; a writer takes the bytes of each
  call and may fail after some of them.

  Reading is shown to accept exactly the byte strings writing produces.
\<close>

section \<open>Protocol constants\<close>

definition HeaderLen :: nat where "HeaderLen = 16"

definition MaxPayloadLen :: "32 word" where "MaxPayloadLen = 64 * 1024 * 1024"

type_synonym Op = "8 word"

definition op_names :: "(Op \<times> string) list" where
  "op_names = [(0x01, ''LIST''), (0x02, ''STAT''), (0x04, ''PING''), (0x05, ''CLOSE''), (0x06, ''MANIFEST_GET''), (0x07, ''MANIFEST_PUT''),
     (0x08, ''CHUNK_GET''), (0x09, ''CHUNK_HAS''), (0x0A, ''CHUNK_PUT''), (0x0B, ''MANIFEST_DELETE''), (0x0C, ''MANIFEST_RENAME''),
     (0x0D, ''DIR_CREATE''), (0x0E, ''DIR_REMOVE''), (0x0F, ''SETATTR''), (0x16, ''SYMLINK''), (0x17, ''READLINK''), (0x19, ''MKNOD''),
     (0x1A, ''LINK''), (0x10, ''LEASE_GRANT''), (0x11, ''LEASE_REFRESH''), (0x12, ''LEASE_RELEASE''), (0x13, ''LEASE_REVOKE''),
     (0x15, ''JOURNAL_QUERY''), (0x18, ''JOURNAL_REVERT_PATH''), (0x1B, ''CHANGES_FETCH''), (0x1C, ''CHANGES_SUBSCRIBE''), (0x1D, ''CHANGES_EVENT'')]"

definition op_String :: "Op \<Rightarrow> string" where
  "op_String o1 = (case map_of op_names o1 of Some s \<Rightarrow> s | None \<Rightarrow> ''UNKNOWN'')"

definition op_Valid :: "Op \<Rightarrow> bool" where
  "op_Valid o1 = (o1 \<in> set [0x01, 0x02, 0x04, 0x05, 0x06, 0x07, 0x08, 0x09, 0x0A, 0x0B, 0x0C, 0x0D, 0x0E, 0x0F, 0x16, 0x17, 0x19, 0x1A,
     0x10, 0x11, 0x12, 0x13, 0x15, 0x18, 0x1B, 0x1C, 0x1D])"

definition FlagResponse :: "8 word" where "FlagResponse = 1"

definition FlagError :: "8 word" where "FlagError = 2"

section \<open>Frames\<close>

record Frame =
  fr_op :: Op
  fr_flags :: "8 word"
  fr_rid :: "64 word"
  fr_payload :: "byte list"

definition IsResponse :: "Frame \<Rightarrow> bool" where "IsResponse f \<longleftrightarrow> and (fr_flags f) FlagResponse \<noteq> 0"

definition IsError :: "Frame \<Rightarrow> bool" where "IsError f \<longleftrightarrow> and (fr_flags f) FlagError \<noteq> 0"

datatype frame_error = TooLong | WriteFailed | EOF | UnexpectedEOF | UnknownOp | BadReserved

definition frame_header :: "Frame \<Rightarrow> byte list" where
  "frame_header f = [fr_op f, fr_flags f] @ be_put 8 (fr_rid f) @ [0, 0] @ be_put 4 (of_nat (length (fr_payload f)) :: 32 word)"

text \<open>
  \<open>cuts\<close> says for each call of \<^verbatim>\<open>Write\<close> whether it takes everything (\<open>None\<close>) or fails after some bytes.
  The answer comes with what reached the stream.
\<close>

definition WriteFrame :: "nat option \<Rightarrow> nat option \<Rightarrow> Frame \<Rightarrow> (frame_error + unit) \<times> byte list" where
  "WriteFrame cut_header cut_payload f =
     (if length (fr_payload f) > unat MaxPayloadLen then (Inl TooLong, [])
      else case cut_header of
        Some k \<Rightarrow> (Inl WriteFailed, take k (frame_header f))
      | None \<Rightarrow>
          if fr_payload f = [] then (Inr (), frame_header f)
          else case cut_payload of
            Some k \<Rightarrow> (Inl WriteFailed, frame_header f @ take k (fr_payload f))
          | None \<Rightarrow> (Inr (), frame_header f @ fr_payload f))"

definition read_full :: "nat \<Rightarrow> byte list \<Rightarrow> frame_error + (byte list \<times> byte list)" where
  "read_full n r = (if length r < n then Inl (if r = [] then EOF else UnexpectedEOF) else Inr (take n r, drop n r))"

definition ReadFrame :: "byte list \<Rightarrow> frame_error + (Frame \<times> byte list)" where
  "ReadFrame r =
     bindE (read_full HeaderLen r) (\<lambda>(hdr, rest).
       let op = hdr ! 0; plen = (be_get (take 4 (drop 12 hdr)) :: 32 word)
       in if \<not> op_Valid op then Inl UnknownOp
          else if hdr ! 10 \<noteq> 0 \<or> hdr ! 11 \<noteq> 0 then Inl BadReserved
          else if plen > MaxPayloadLen then Inl TooLong
          else let f = \<lparr> fr_op = op, fr_flags = hdr ! 1, fr_rid = be_get (take 8 (drop 2 hdr)), fr_payload = [] \<rparr>
               in if plen = 0 then Inr (f, rest)
                  else bindE (read_full (unat plen) rest) (\<lambda>(payload, rest'). Inr (f\<lparr>fr_payload := payload\<rparr>, rest')))"

section \<open>Reading is the inverse of writing\<close>

definition frame_ok :: "Frame \<Rightarrow> bool" where
  "frame_ok f \<longleftrightarrow> op_Valid (fr_op f) \<and> length (fr_payload f) \<le> unat MaxPayloadLen"

definition frame_bytes :: "Frame \<Rightarrow> byte list" where
  "frame_bytes f = frame_header f @ fr_payload f"

lemma WriteFrame_ok: "length (fr_payload f) \<le> unat MaxPayloadLen \<Longrightarrow> WriteFrame None None f = (Inr (), frame_bytes f)"
  by (simp add: WriteFrame_def frame_bytes_def)

lemma length_frame_header [simp]: "length (frame_header f) = HeaderLen"
  by (simp add: frame_header_def HeaderLen_def)

lemma MaxPayload_unat: "unat MaxPayloadLen = 67108864"
  by (simp add: MaxPayloadLen_def)

lemma header_fields:
  "frame_header f ! 0 = fr_op f" "frame_header f ! 1 = fr_flags f" "take 8 (drop 2 (frame_header f)) = be_put 8 (fr_rid f)"
  "frame_header f ! 10 = 0" "frame_header f ! 11 = 0" "take 4 (drop 12 (frame_header f)) = be_put 4 (of_nat (length (fr_payload f)) :: 32 word)"
  by (simp_all add: frame_header_def nth_append numeral_eq_Suc)

lemma payload_len:
  assumes "length p \<le> unat MaxPayloadLen"
  shows "unat (of_nat (length p) :: 32 word) = length p" "\<not> MaxPayloadLen < of_nat (length p)" "(of_nat (length p) :: 32 word) = 0 \<longleftrightarrow> p = []"
proof -
  have "length p < 2 ^ 32" using assms by (simp add: MaxPayload_unat)
  then show u: "unat (of_nat (length p) :: 32 word) = length p" by (simp add: unsigned_of_nat take_bit_nat_eq_self)
  from assms u show "\<not> MaxPayloadLen < of_nat (length p)" by (simp add: word_less_nat_alt)
  from u show "(of_nat (length p) :: 32 word) = 0 \<longleftrightarrow> p = []" by (metis length_0_conv unsigned_0 unsigned_eq_0_iff)
qed

lemma ReadFrame_bytes:
  assumes "frame_ok f"
  shows "ReadFrame (frame_bytes f @ rest) = Inr (f, rest)"
proof -
  from assms have ok: "op_Valid (fr_op f)" and len: "length (fr_payload f) \<le> unat MaxPayloadLen" by (simp_all add: frame_ok_def)
  have h: "read_full HeaderLen (frame_bytes f @ rest) = Inr (frame_header f, fr_payload f @ rest)"
    by (simp add: read_full_def frame_bytes_def)
  have p: "read_full (length (fr_payload f)) (fr_payload f @ rest) = Inr (fr_payload f, rest)" by (simp add: read_full_def)
  show ?thesis
    unfolding ReadFrame_def h bindE_Inr prod.case Let_def header_fields
    using ok len by (simp add: payload_len [OF len] p)
qed

lemma header_split:
  assumes "length h = 16"
  shows "h = [h ! 0, h ! 1] @ take 8 (drop 2 h) @ [h ! 10, h ! 11] @ take 4 (drop 12 h)"
proof -
  have "h = take 2 h @ take 8 (drop 2 h) @ take 2 (drop 10 h) @ take 4 (drop 12 h)"
  proof -
    have "drop 8 (drop 2 h) = drop 10 h" "drop 2 (drop 10 h) = drop 12 h" "take 4 (drop 12 h) = drop 12 h" using assms by simp_all
    then show ?thesis
      using append_take_drop_id [of 2 h] append_take_drop_id [of 8 "drop 2 h"] append_take_drop_id [of 2 "drop 10 h"] by simp
  qed
  moreover have "take 2 h = [h ! 0, h ! 1]" "take 2 (drop 10 h) = [h ! 10, h ! 11]"
    using assms by (simp_all add: take_Suc_conv_app_nth numeral_2_eq_2)
  ultimately show ?thesis by simp
qed


lemma ReadFrame_inv:
  assumes "ReadFrame r = Inr (f, rest)"
  shows "frame_ok f \<and> r = frame_bytes f @ rest"
proof -
  let ?h = "take HeaderLen r" and ?r = "drop HeaderLen r"
  let ?n = "be_get (take 4 (drop 12 ?h)) :: 32 word"
  from assms have len: "HeaderLen \<le> length r" by (auto simp: ReadFrame_def read_full_def bindE_def split: if_splits)
  then have h: "read_full HeaderLen r = Inr (?h, ?r)" and lh: "length ?h = 16" by (simp_all add: read_full_def HeaderLen_def)
  from assms have ok: "op_Valid (?h ! 0)" "?h ! 10 = 0" "?h ! 11 = 0" "\<not> MaxPayloadLen < ?n"
    unfolding ReadFrame_def h by (auto simp: Let_def split: if_splits)
  have f: "f = \<lparr> fr_op = ?h ! 0, fr_flags = ?h ! 1, fr_rid = be_get (take 8 (drop 2 ?h)), fr_payload = take (unat ?n) ?r \<rparr>"
    and rest: "rest = drop (unat ?n) ?r" and pl: "unat ?n \<le> length ?r"
    using assms ok unfolding ReadFrame_def h by (auto simp: Let_def read_full_def unsigned_eq_0_iff split: if_splits)
  have n: "unat ?n \<le> unat MaxPayloadLen" using ok(4) by (simp add: word_less_nat_alt)
  have lp: "length (fr_payload f) = unat ?n" using pl by (simp add: f)
  have "be_put 8 (fr_rid f) = take 8 (drop 2 ?h)"
    using be_put_get [where 'a = 64, of "take 8 (drop 2 ?h)"] lh by (simp add: f)
  moreover have "be_put 4 (of_nat (length (fr_payload f)) :: 32 word) = take 4 (drop 12 ?h)"
    using be_put_get [where 'a = 32, of "take 4 (drop 12 ?h)"] lh by (simp add: lp)
  ultimately have "frame_header f = ?h"
    using header_split [OF lh] ok unfolding frame_header_def by (simp add: f)
  moreover have "r = ?h @ take (unat ?n) ?r @ drop (unat ?n) ?r" by (simp del: drop_drop)
  ultimately have "r = frame_bytes f @ rest" unfolding frame_bytes_def rest by (simp add: f)
  moreover have "frame_ok f" using ok(1) n lp by (simp add: frame_ok_def f)
  ultimately show ?thesis by simp
qed

text \<open>Reading frames until the stream is empty or broken.\<close>

function read_all :: "byte list \<Rightarrow> Frame list \<times> frame_error" where
  "read_all r = (case ReadFrame r of Inl e \<Rightarrow> ([], e) | Inr (f, rest) \<Rightarrow> (let (fs, e) = read_all rest in (f # fs, e)))"
  by pat_completeness auto
termination
proof (relation "measure length", simp)
  fix r x f rest
  assume "ReadFrame r = Inr x" "(f, rest) = x"
  then have "r = frame_bytes f @ rest" using ReadFrame_inv [of r f rest] by simp
  then show "(rest, r) \<in> measure length" by (simp add: frame_bytes_def HeaderLen_def)
qed

declare read_all.simps [simp del]

lemma ReadFrame_cut:
  assumes "frame_ok f" "HeaderLen \<le> k" "k < length (frame_bytes f)"
  shows "ReadFrame (take k (frame_bytes f)) = Inl (if k = HeaderLen then EOF else UnexpectedEOF)"
proof -
  from assms(1) have ok: "op_Valid (fr_op f)" and len: "length (fr_payload f) \<le> unat MaxPayloadLen" by (simp_all add: frame_ok_def)
  let ?p = "take (k - HeaderLen) (fr_payload f)"
  have h: "read_full HeaderLen (take k (frame_bytes f)) = Inr (frame_header f, ?p)"
    using assms(2) by (simp add: read_full_def frame_bytes_def)
  have short: "length ?p < length (fr_payload f)" using assms(2,3) by (simp add: frame_bytes_def)
  then have ne: "fr_payload f \<noteq> []" by auto
  have "read_full (length (fr_payload f)) ?p = Inl (if k = HeaderLen then EOF else UnexpectedEOF)"
    using short ne assms(2) by (auto simp: read_full_def)
  then show ?thesis
    unfolding ReadFrame_def h bindE_Inr prod.case Let_def header_fields
    using ok len ne by (simp add: payload_len [OF len])
qed

text \<open>
  C37. Frames are read exactly as they were written: a frame is read from a byte string, leaving a
  rest, precisely when the byte string is the encoding of that frame followed by that rest and the
  frame has a known operation and a payload within the limit.
\<close>

theorem read_frame_exact: "ReadFrame r = Inr (f, rest) \<longleftrightarrow> frame_ok f \<and> r = snd (WriteFrame None None f) @ rest"
proof
  assume "ReadFrame r = Inr (f, rest)"
  from ReadFrame_inv [OF this] show "frame_ok f \<and> r = snd (WriteFrame None None f) @ rest" by (simp add: frame_ok_def WriteFrame_ok)
next
  assume "frame_ok f \<and> r = snd (WriteFrame None None f) @ rest"
  then show "ReadFrame r = Inr (f, rest)" using ReadFrame_bytes [of f rest] by (simp add: frame_ok_def WriteFrame_ok)
qed

text \<open>
  C38. A stream of well-formed frames that closes, cleanly or in the middle of one more frame, is read
  as exactly those frames. The error that ends it is end of file after a clean close and an unexpected
  end otherwise, except that a close right behind a header also looks clean.
\<close>

theorem read_stream_exact:
  assumes "\<forall>f\<in>set fs. frame_ok f" "frame_ok g" "k < length (frame_bytes g)"
  shows "read_all (concat (map frame_bytes fs) @ take k (frame_bytes g)) = (fs, if k = 0 \<or> k = HeaderLen then EOF else UnexpectedEOF)"
  using assms(1)
proof (induction fs)
  case Nil
  have "ReadFrame (take k (frame_bytes g)) = Inl (if k = 0 \<or> k = HeaderLen then EOF else UnexpectedEOF)"
  proof (cases "k < HeaderLen")
    case True
    then have "length (take k (frame_bytes g)) < HeaderLen" by simp
    moreover have "take k (frame_bytes g) = [] \<longleftrightarrow> k = 0" using assms(3) by auto
    ultimately have "read_full HeaderLen (take k (frame_bytes g)) = Inl (if k = 0 then EOF else UnexpectedEOF)"
      by (simp only: read_full_def if_True)
    with True show ?thesis by (simp add: ReadFrame_def)
  next
    case False
    then have "HeaderLen \<le> k" "k \<noteq> 0" by (simp_all add: HeaderLen_def)
    with ReadFrame_cut [OF assms(2) _ assms(3)] show ?thesis by simp
  qed
  then show ?case by (subst read_all.simps) simp
next
  case (Cons f fs)
  then have "ReadFrame (frame_bytes f @ concat (map frame_bytes fs) @ take k (frame_bytes g)) =
      Inr (f, concat (map frame_bytes fs) @ take k (frame_bytes g))" by (intro ReadFrame_bytes) simp
  with Cons show ?case by (subst read_all.simps) simp
qed


definition demo_frame :: Frame where
  "demo_frame = \<lparr> fr_op = 0x01, fr_flags = 0, fr_rid = 7, fr_payload = [1, 2] \<rparr>"

lemma demo_frame_ok: "frame_ok demo_frame"
  by (simp add: frame_ok_def demo_frame_def op_Valid_def MaxPayload_unat)

theorem read_stream_exact_witness:
  "read_all (concat (map frame_bytes [demo_frame]) @ take 16 (frame_bytes demo_frame)) = ([demo_frame], EOF)"
proof -
  have "16 < length (frame_bytes demo_frame)" by (simp add: frame_bytes_def HeaderLen_def demo_frame_def)
  with read_stream_exact [of "[demo_frame]" demo_frame 16] demo_frame_ok show ?thesis by (simp add: HeaderLen_def)
qed

end
