(* ===== verification/Handlers.thy ===== *)
theory Handlers
  imports Wire_Messages Wire_Frames Tenant_Server Request_Gates Revert
begin

text \<open>
  The data plane's request handlers (dataplane_server.go, dataplane_changes.go, lease_handlers.go,
  control_journal_revert.go): each runs its gates, calls the stores and turns the result into an answer.
  A handler takes the decoded request and the server's state and returns the answer and the new state.

  msgpack, the policy's glob matcher, BLAKE3, the disk and the clocks are in \<open>handler_env\<close>. Audit rows,
  metrics and the free text of error messages are left out.
\<close>

unbundle bit_operations_syntax

section \<open>State and environment\<close>

record server =
  sv_tenant :: tenantState
  sv_leases :: leaseManager
  sv_mounts :: mountLeaseRegistry
  sv_changes :: changeNotifier

text \<open>What the operating system or SQLite reported underneath an error.\<close>

datatype os_error = OsQuota | OsNoSpace | SqliteCode int | OsOther

record handler_env =
  h_env :: env
  h_io :: chunk_io
  h_now :: int
  h_unix :: int
  h_noted :: bool
  h_fresh :: "128 word"
  h_glob :: "string \<Rightarrow> string \<Rightarrow> bool option"
  h_policy :: Policy
  h_blake3 :: "byte list \<Rightarrow> byte list"
  h_commit_cause :: os_error
  h_check_cause :: os_error
  h_chunk_cause :: "chunk_error \<Rightarrow> os_error"

datatype reply = Failed ErrorPayload | Answer response | NoReply

definition store_of :: "server \<Rightarrow> mstore" where "store_of v = ts_store (sv_tenant v)"

definition db_of :: "server \<Rightarrow> tenant_db" where "db_of v = ms_db (store_of v)"

text \<open>The environment of a store call: the chunk check looks at the tenant's disk.\<close>

definition store_env :: "handler_env \<Rightarrow> server \<Rightarrow> env" where
  "store_env H v = (h_env H)\<lparr>e_has_many := Some (disk_has (h_io H) (ts_chunks (sv_tenant v)))\<rparr>"

definition with_store :: "(mstore \<Rightarrow> 'r \<times> mstore) \<Rightarrow> server \<Rightarrow> 'r \<times> server" where
  "with_store f v = (case f (store_of v) of (r, st) \<Rightarrow> (r, v\<lparr>sv_tenant := (sv_tenant v)\<lparr>ts_store := st\<rparr>\<rparr>))"

definition authorized :: "handler_env \<Rightarrow> Identity \<Rightarrow> string \<Rightarrow> bool" where
  "authorized H ident p = authorizePath (h_glob H) (h_policy H) ident p"

definition permitted :: "handler_env \<Rightarrow> string \<Rightarrow> bool" where
  "permitted H p = Permits (h_glob H) (h_policy H) (policyPath p)"

definition session_fence ::
  "handler_env \<Rightarrow> Identity \<Rightarrow> 64 word \<Rightarrow> string option \<Rightarrow> string option \<Rightarrow> server \<Rightarrow> (fence_error + (string \<times> string \<times> string)) \<times> server" where
  "session_fence H ident conn s a v =
     (case resolveSessionFence (h_now H) ident conn s a (sv_leases v) (sv_mounts v) of
        (r, m, mounts) \<Rightarrow> (r, v\<lparr>sv_leases := m, sv_mounts := mounts\<rparr>))"

section \<open>Errors to the wire\<close>

definition storageErrToWire :: "os_error \<Rightarrow> int \<Rightarrow> ErrorPayload" where
  "storageErrToWire cause fallback =
     (case cause of
        OsQuota \<Rightarrow> wire_err ErrnoEDQUOT
      | OsNoSpace \<Rightarrow> wire_err ErrnoENOSPC
      | SqliteCode c \<Rightarrow> if c AND 255 = 13 then wire_err ErrnoENOSPC else wire_err fallback
      | OsOther \<Rightarrow> wire_err fallback)"

definition store_cause :: "handler_env \<Rightarrow> store_error \<Rightarrow> os_error" where
  "store_cause H e = (case e of ErrCommit \<Rightarrow> h_commit_cause H | ErrChunkCheck \<Rightarrow> h_check_cause H | _ \<Rightarrow> OsOther)"

text \<open>Both backing-store errors wrap \<^verbatim>\<open>EDQUOT\<close>; a wrong hash wraps nothing.\<close>

definition chunk_cause :: "handler_env \<Rightarrow> chunk_error \<Rightarrow> os_error" where
  "chunk_cause H e =
     (case e of ErrBackingQuota \<Rightarrow> OsQuota | ErrBackingStall \<Rightarrow> OsQuota | ErrHashLen \<Rightarrow> OsOther | ErrHashMismatch \<Rightarrow> OsOther
      | _ \<Rightarrow> h_chunk_cause H e)"

definition manifestErrToWire :: "handler_env \<Rightarrow> store_error \<Rightarrow> ErrorPayload" where
  "manifestErrToWire H e =
     (case e of
        ErrManifestNotFound \<Rightarrow> wire_err ErrnoENOENT
      | ErrParentNotFound \<Rightarrow> wire_err ErrnoENOENT
      | ErrAlreadyExists \<Rightarrow> wire_err ErrnoEEXIST
      | ErrVersionConflict _ \<Rightarrow> wire_err ErrnoESTALE
      | ErrNotEmpty \<Rightarrow> wire_err ErrnoENOTEMPTY
      | ErrNotDir \<Rightarrow> wire_err ErrnoENOTDIR
      | ErrIsDir \<Rightarrow> wire_err ErrnoEISDIR
      | _ \<Rightarrow> storageErrToWire (store_cause H e) ErrnoEIO)"

definition opt_string :: "string \<Rightarrow> string option" where
  "opt_string s = (if s \<noteq> '''' then Some s else None)"

definition buildCasConflictHint :: "nat \<Rightarrow> nat option \<Rightarrow> LastWriterRow option \<Rightarrow> RecoveryHint" where
  "buildCasConflictHint yourVersion existing lastWriter =
     \<lparr> rh_kind = RecoveryKindCasConflict, rh_your_version = Some yourVersion, rh_current_version = existing,
       rh_last_writer = map_option (\<lambda>w. \<lparr> wr_agent = opt_string (lw_agent w), wr_session = opt_string (lw_session w), wr_at = lw_at w \<rparr>) lastWriter,
       rh_action =
         (case existing of
            Some cur \<Rightarrow> ''file changed since you read it; re-read manifest at version '' @ FormatInt (int cur) @
              '', re-apply your edit, re-put with expected='' @ FormatInt (int cur)
          | None \<Rightarrow> ''file changed since you read it; re-read manifest then retry'') \<rparr>"

definition conflict_payload :: "tenant_db \<Rightarrow> nat option \<Rightarrow> string \<Rightarrow> nat \<Rightarrow> ErrorPayload" where
  "conflict_payload db existing p yourVersion =
     WithRecovery (wire_err ErrnoESTALE) (buildCasConflictHint yourVersion existing (LookupLastWriter db p))"

definition manifestConflictToWire :: "handler_env \<Rightarrow> tenant_db \<Rightarrow> store_error \<Rightarrow> string \<Rightarrow> nat \<Rightarrow> ErrorPayload" where
  "manifestConflictToWire H db e p yourVersion =
     (case e of ErrVersionConflict existing \<Rightarrow> conflict_payload db existing p yourVersion | _ \<Rightarrow> manifestErrToWire H e)"

section \<open>Reading\<close>

text \<open>Go's \<^verbatim>\<open>path.Base\<close>.\<close>

definition path_base :: "string \<Rightarrow> string" where
  "path_base p =
     (if p = '''' then ''.''
      else let b = rev (takeWhile (\<lambda>c. c \<noteq> slash) (rev (trim_right slash p))) in if b = '''' then ''/'' else b)"

definition list_entry :: "tenant_db \<Rightarrow> string \<Rightarrow> DirChild \<Rightarrow> EntryWire" where
  "list_entry db child c =
     (let e = \<lparr> ew_name = dc_name c, ew_kind = dc_kind c, ew_size = dc_size c, ew_inode = dc_inode c, ew_nlink = dc_nlink c,
                ew_mode = dc_mode c, ew_uid = dc_uid c, ew_gid = dc_gid c, ew_atime = dc_atime c, ew_target = dc_target c,
                ew_rdev = 0, ew_mtime = dc_mtime c, ew_version = dc_version c \<rparr>
      in if dc_kind c = ''dir'' then
           (case SpecialNodeInfo db child of
              None \<Rightarrow> e
            | Some (mode, rdev, uid, gid, atime, kind) \<Rightarrow>
                e\<lparr>ew_kind := kind, ew_mode := mode, ew_rdev := rdev, ew_uid := uid, ew_gid := gid, ew_atime := atime, ew_size := 0\<rparr>)
         else e)"

definition handleList :: "handler_env \<Rightarrow> Identity \<Rightarrow> string \<Rightarrow> server \<Rightarrow> reply" where
  "handleList H ident p v =
     (if \<not> authorized H ident p then Failed (wire_err ErrnoEACCES)
      else Answer (ListResp (map (\<lambda>c. list_entry (db_of v) (joinVirtual p (dc_name c)) c)
             (filter (\<lambda>c. permitted H (joinVirtual p (dc_name c))) (ListChildren (db_of v) p)))))"

definition stat_entry :: "tenant_db \<Rightarrow> string \<Rightarrow> ErrorPayload + EntryWire" where
  "stat_entry db p =
     (let base = path_base p
      in case Get db p of
           Inr mf \<Rightarrow> Inr (no_entry\<lparr>ew_name := base, ew_kind := ''file'', ew_size := m_size mf, ew_mode := m_mode mf, ew_uid := m_uid mf,
                       ew_gid := m_gid mf, ew_atime := m_atime mf, ew_inode := m_inode mf, ew_nlink := m_nlink mf,
                       ew_mtime := m_mtime mf, ew_version := m_version mf\<rparr>)
         | Inl e \<Rightarrow>
             if e \<noteq> ErrManifestNotFound then Inl (wire_err ErrnoEIO)
             else case SymlinkInfo db p of
               Some (target, mode, uid, gid, atime) \<Rightarrow>
                 Inr (no_entry\<lparr>ew_name := base, ew_kind := ''symlink'', ew_size := of_nat (length target), ew_mode := mode,
                        ew_uid := uid, ew_gid := gid, ew_atime := atime, ew_target := target\<rparr>)
             | None \<Rightarrow>
                 (case SpecialNodeInfo db p of
                    Some (mode, rdev, uid, gid, atime, kind) \<Rightarrow>
                      Inr (no_entry\<lparr>ew_name := base, ew_kind := kind, ew_size := 0, ew_mode := mode, ew_uid := uid, ew_gid := gid,
                             ew_atime := atime, ew_rdev := rdev\<rparr>)
                  | None \<Rightarrow>
                      (case DirInfo db p of
                         None \<Rightarrow> Inl (wire_err ErrnoENOENT)
                       | Some (mode, uid, gid, atime) \<Rightarrow>
                           Inr (no_entry\<lparr>ew_name := base, ew_kind := ''dir'', ew_size := 0, ew_mode := mode, ew_uid := uid,
                                  ew_gid := gid, ew_atime := atime\<rparr>))))"

definition handleStat :: "handler_env \<Rightarrow> Identity \<Rightarrow> string \<Rightarrow> server \<Rightarrow> reply" where
  "handleStat H ident p v =
     (if \<not> authorized H ident p then Failed (wire_err ErrnoEACCES)
      else case stat_entry (db_of v) p of Inl e \<Rightarrow> Failed e | Inr entry \<Rightarrow> Answer (StatResp entry))"

definition handleManifestGet :: "handler_env \<Rightarrow> Identity \<Rightarrow> string \<Rightarrow> server \<Rightarrow> reply" where
  "handleManifestGet H ident p v =
     (if \<not> authorized H ident p then Failed (wire_err ErrnoEACCES)
      else case Get (db_of v) p of
        Inl e \<Rightarrow> Failed (wire_err (if e = ErrManifestNotFound then ErrnoENOENT else ErrnoEIO))
      | Inr mf \<Rightarrow> Answer (ManifestGetResp \<lparr> mg_version = m_version mf, mg_size = m_size mf, mg_mode = m_mode mf,
                    mg_mtime = m_mtime mf, mg_chunks = toWireChunks (m_chunks mf) \<rparr>))"

definition handleReadlink :: "handler_env \<Rightarrow> Identity \<Rightarrow> string \<Rightarrow> server \<Rightarrow> reply" where
  "handleReadlink H ident p v =
     (if \<not> authorized H ident p then Failed (wire_err ErrnoEACCES)
      else case Readlink (db_of v) p of Inl e \<Rightarrow> Failed (manifestErrToWire H e) | Inr target \<Rightarrow> Answer (ReadlinkResp target))"

section \<open>Writing manifests\<close>

text \<open>
  \<^verbatim>\<open>YieldFor\<close> under the request's deadline of one revoke timeout and a second: the caller waits for at most
  one revoke, and a wait behind another caller's revoke runs into the deadline.
\<close>

fun yield_alone :: "nat \<Rightarrow> int \<Rightarrow> string \<Rightarrow> string \<Rightarrow> string \<Rightarrow> leaseManager \<Rightarrow> (grant_error + unit) \<times> leaseManager" where
  "yield_alone 0 now requester p reason m = (Inl ErrBlocked, m)"
| "yield_alone (Suc fuel) now requester p reason m =
     (case yield_turn now requester p reason m of
        (Proceed, m1) \<Rightarrow> (Inr (), m1)
      | (LeaseHeld, m1) \<Rightarrow> (Inl ErrLeaseHeld, m1)
      | (QueueWait ch, m1) \<Rightarrow> (Inl ErrBlocked, m1)
      | (RevokeWait r ch, m1) \<Rightarrow> yield_alone fuel (now + lc_revoke_timeout (lm_cfg m)) requester p reason (yield_timeout p r m1))"

definition grant_errno :: "grant_error \<Rightarrow> int" where
  "grant_errno e = (case e of ErrLeaseHeld \<Rightarrow> ErrnoEBUSY | ErrBlocked \<Rightarrow> ErrnoEIO)"

definition handleManifestPut :: "handler_env \<Rightarrow> Identity \<Rightarrow> 64 word \<Rightarrow> ManifestPutRequest \<Rightarrow> server \<Rightarrow> reply \<times> server" where
  "handleManifestPut H ident conn req v =
     (let p = mp_path req
      in if \<not> authorized H ident p then (Failed (wire_err ErrnoEACCES), v)
         else case yield_alone 2 (h_now H) (id_agent ident) p ''manifest_put_contention'' (sv_leases v) of
           (Inl e, m) \<Rightarrow> (Failed (wire_err (grant_errno e)), v\<lparr>sv_leases := m\<rparr>)
         | (Inr _, m) \<Rightarrow>
             (let mf = \<lparr> m_path = p, m_inode = 0, m_nlink = 0, m_size = mp_size req, m_mode = mp_mode req, m_mtime = mp_mtime req,
                         m_version = 0, m_chunks = fromWireChunks (mp_chunks req), m_uid = 0, m_gid = 0, m_atime = 0 \<rparr>
              in case session_fence H ident conn (mp_session req) (mp_alloc req) (v\<lparr>sv_leases := m\<rparr>) of
                   (Inl _, v1) \<Rightarrow> (Failed (wire_err ErrnoEACCES), v1)
                 | (Inr (s, a, lease), v1) \<Rightarrow>
                     (case with_store (PutWithLeaseCheck (store_env H v1) p (mp_version_expected req) mf s a (id_agent ident) lease) v1 of
                        (Inr newVersion, v2) \<Rightarrow> (Answer (ManifestPutResp newVersion), v2)
                      | (Inl (ErrVersionConflict existing), v2) \<Rightarrow>
                          (Failed (conflict_payload (db_of v2) existing p (mp_version_expected req)), v2)
                      | (Inl e, v2) \<Rightarrow> (Failed (storageErrToWire (store_cause H e) ErrnoEIO), v2))))"

definition handleManifestDelete :: "handler_env \<Rightarrow> Identity \<Rightarrow> 64 word \<Rightarrow> ManifestDeleteRequest \<Rightarrow> server \<Rightarrow> reply \<times> server" where
  "handleManifestDelete H ident conn req v =
     (let p = md_path req
      in if \<not> authorized H ident p then (Failed (wire_err ErrnoEACCES), v)
         else case session_fence H ident conn (md_session req) (md_alloc req) v of
           (Inl _, v1) \<Rightarrow> (Failed (wire_err ErrnoEACCES), v1)
         | (Inr (s, a, lease), v1) \<Rightarrow>
             (case with_store (DeleteWithLeaseCheck (store_env H v1) p (md_expected req) s a (id_agent ident) lease) v1 of
                (Inl e, v2) \<Rightarrow> (Failed (manifestConflictToWire H (db_of v2) e p (md_expected req)), v2)
              | (Inr _, v2) \<Rightarrow> (Answer EmptyResp, v2)))"

text \<open>Both endpoints pass the policy first, then the agent's subtree.\<close>

definition both_authorized :: "handler_env \<Rightarrow> Identity \<Rightarrow> string \<Rightarrow> string \<Rightarrow> bool" where
  "both_authorized H ident p q \<longleftrightarrow> permitted H p \<and> permitted H q \<and> checkAgentPath ident p \<and> checkAgentPath ident q"

definition handleManifestRename :: "handler_env \<Rightarrow> Identity \<Rightarrow> 64 word \<Rightarrow> ManifestRenameRequest \<Rightarrow> server \<Rightarrow> reply \<times> server" where
  "handleManifestRename H ident conn req v =
     (if \<not> both_authorized H ident (mr_from req) (mr_to req) then (Failed (wire_err ErrnoEACCES), v)
      else case session_fence H ident conn (mr_session req) (mr_alloc req) v of
        (Inl _, v1) \<Rightarrow> (Failed (wire_err ErrnoEACCES), v1)
      | (Inr (s, a, lease), v1) \<Rightarrow>
          (case with_store (RenameWithLeaseCheck (store_env H v1) (mr_from req) (mr_to req) (mr_expected_from req) (mr_expected_to req)
                  (mr_no_replace req) s a (id_agent ident) lease) v1 of
             (Inl e, v2) \<Rightarrow> (Failed (manifestConflictToWire H (db_of v2) e (mr_from req) (mr_expected_from req)), v2)
           | (Inr newV, v2) \<Rightarrow> (Answer (ManifestRenameResp newV), v2)))"

definition handleLink :: "handler_env \<Rightarrow> Identity \<Rightarrow> 64 word \<Rightarrow> LinkRequest \<Rightarrow> server \<Rightarrow> reply \<times> server" where
  "handleLink H ident conn req v =
     (if \<not> both_authorized H ident (lk_from req) (lk_to req) then (Failed (wire_err ErrnoEACCES), v)
      else case session_fence H ident conn (lk_session req) (lk_alloc req) v of
        (Inl _, v1) \<Rightarrow> (Failed (wire_err ErrnoEACCES), v1)
      | (Inr (s, a, lease), v1) \<Rightarrow>
          (case with_store (LinkWithLeaseCheck (store_env H v1) (lk_from req) (lk_to req) s a (id_agent ident) lease) v1 of
             (Inl e, v2) \<Rightarrow> (Failed (manifestErrToWire H e), v2)
           | (Inr nlink, v2) \<Rightarrow> (Answer (LinkResp nlink), v2)))"

section \<open>Directories, symlinks, special nodes and attributes\<close>

definition store_reply :: "handler_env \<Rightarrow> (store_error + unit) \<times> server \<Rightarrow> reply \<times> server" where
  "store_reply H r = (case r of (Inl e, v) \<Rightarrow> (Failed (manifestErrToWire H e), v) | (Inr _, v) \<Rightarrow> (Answer EmptyResp, v))"

definition handleDirCreate :: "handler_env \<Rightarrow> Identity \<Rightarrow> string \<Rightarrow> 32 word \<Rightarrow> server \<Rightarrow> reply \<times> server" where
  "handleDirCreate H ident p mode v =
     (if \<not> authorized H ident p then (Failed (wire_err ErrnoEACCES), v)
      else store_reply H (with_store (DirCreate (store_env H v) p mode) v))"

definition handleDirRemove :: "handler_env \<Rightarrow> Identity \<Rightarrow> string \<Rightarrow> server \<Rightarrow> reply \<times> server" where
  "handleDirRemove H ident p v =
     (if \<not> authorized H ident p then (Failed (wire_err ErrnoEACCES), v)
      else store_reply H (with_store (DirRemove (store_env H v) p) v))"

definition handleSymlink :: "handler_env \<Rightarrow> Identity \<Rightarrow> string \<Rightarrow> string \<Rightarrow> 32 word \<Rightarrow> server \<Rightarrow> reply \<times> server" where
  "handleSymlink H ident p target mode v =
     (if \<not> authorized H ident p then (Failed (wire_err ErrnoEACCES), v)
      else store_reply H (with_store (Symlink (store_env H v) p target mode) v))"

definition handleMknod :: "handler_env \<Rightarrow> Identity \<Rightarrow> 64 word \<Rightarrow> MknodRequest \<Rightarrow> server \<Rightarrow> reply \<times> server" where
  "handleMknod H ident conn req v =
     (let p = mk_path req
      in if \<not> authorized H ident p then (Failed (wire_err ErrnoEACCES), v)
         else case session_fence H ident conn (mk_session req) (mk_alloc req) v of
           (Inl _, v1) \<Rightarrow> (Failed (wire_err ErrnoEACCES), v1)
         | (Inr _, v1) \<Rightarrow> store_reply H (with_store (Mknod (store_env H v1) p (mk_mode req) (mk_rdev req)) v1))"

definition statOwner :: "tenant_db \<Rightarrow> string \<Rightarrow> store_error + (32 word \<times> 32 word)" where
  "statOwner db p =
     (case Get db p of
        Inr mf \<Rightarrow> Inr (m_uid mf, m_gid mf)
      | Inl e \<Rightarrow>
          if e \<noteq> ErrManifestNotFound then Inl e
          else case SymlinkInfo db p of
            Some (_, _, uid, gid, _) \<Rightarrow> Inr (uid, gid)
          | None \<Rightarrow>
              (case SpecialNodeInfo db p of
                 Some (_, _, uid, gid, _, _) \<Rightarrow> Inr (uid, gid)
               | None \<Rightarrow> (case DirInfo db p of Some (_, uid, gid, _) \<Rightarrow> Inr (uid, gid) | None \<Rightarrow> Inr (0, 0))))"

definition set_owner_part :: "handler_env \<Rightarrow> SetattrRequest \<Rightarrow> server \<Rightarrow> (store_error + unit) \<times> server" where
  "set_owner_part H req v =
     (if sa_uid req = None \<and> sa_gid req = None then (Inr (), v)
      else case statOwner (db_of v) (sa_path req) of
        Inl e \<Rightarrow> (Inl e, v)
      | Inr (uid, gid) \<Rightarrow>
          with_store (SetOwner (store_env H v) (sa_path req) (case sa_uid req of None \<Rightarrow> uid | Some u \<Rightarrow> u)
            (case sa_gid req of None \<Rightarrow> gid | Some g \<Rightarrow> g)) v)"

definition set_atime_part :: "handler_env \<Rightarrow> SetattrRequest \<Rightarrow> server \<Rightarrow> (store_error + unit) \<times> server" where
  "set_atime_part H req v =
     (case sa_atime req of None \<Rightarrow> (Inr (), v) | Some t \<Rightarrow> with_store (SetAtime (store_env H v) (sa_path req) t) v)"

text \<open>Three steps, each its own transaction: what an earlier one changed stays when a later one fails.\<close>

definition handleSetattr :: "handler_env \<Rightarrow> Identity \<Rightarrow> 64 word \<Rightarrow> SetattrRequest \<Rightarrow> server \<Rightarrow> reply \<times> server" where
  "handleSetattr H ident conn req v =
     (let p = sa_path req
      in if \<not> authorized H ident p then (Failed (wire_err ErrnoEACCES), v)
         else case session_fence H ident conn (sa_session req) (sa_alloc req) v of
           (Inl _, v1) \<Rightarrow> (Failed (wire_err ErrnoEACCES), v1)
         | (Inr (s, a, lease), v1) \<Rightarrow>
             (case with_store (SetMode (store_env H v1) p (sa_mode req) s a (id_agent ident) lease) v1 of
                (Inl e, v2) \<Rightarrow> (Failed (manifestErrToWire H e), v2)
              | (Inr _, v2) \<Rightarrow>
                  (case set_owner_part H req v2 of
                     (Inl e, v3) \<Rightarrow> (Failed (manifestErrToWire H e), v3)
                   | (Inr _, v3) \<Rightarrow> store_reply H (set_atime_part H req v3))))"

section \<open>Chunks\<close>

definition handleChunkGet :: "handler_env \<Rightarrow> byte list \<Rightarrow> server \<Rightarrow> reply" where
  "handleChunkGet H hash v =
     (if length hash \<noteq> HashLen then Failed (wire_err ErrnoEINVAL)
      else case chunk_Get (h_io H) (ts_chunks (sv_tenant v)) hash of
        Inl e \<Rightarrow> Failed (wire_err (if e = ErrNotExist then ErrnoENOENT else ErrnoEIO))
      | Inr bytes \<Rightarrow> Answer (ChunkGetResp bytes))"

definition set_bit_at :: "nat \<Rightarrow> byte list \<Rightarrow> byte list" where
  "set_bit_at i bs = bs[i div 8 := bs ! (i div 8) OR push_bit (i mod 8) 1]"

definition bitmap :: "bool list \<Rightarrow> byte list" where
  "bitmap present = fold (\<lambda>(i, p) bs. if p then set_bit_at i bs else bs) (enumerate 0 present) (replicate ((length present + 7) div 8) 0)"

definition handleChunkHas :: "handler_env \<Rightarrow> byte list \<Rightarrow> server \<Rightarrow> reply" where
  "handleChunkHas H buf v =
     (if length buf mod HashLen \<noteq> 0 then Failed (wire_err ErrnoEINVAL)
      else let hashes = map (\<lambda>i. take HashLen (drop (i * HashLen) buf)) [0..<length buf div HashLen]
           in case HasMany (h_io H) (ts_chunks (sv_tenant v)) hashes of
                Inl _ \<Rightarrow> Failed (wire_err ErrnoEIO)
              | Inr present \<Rightarrow> Answer (ChunkHasResp (bitmap present)))"

definition handle_chunk_put :: "handler_env \<Rightarrow> byte list \<Rightarrow> byte list \<Rightarrow> server \<Rightarrow> reply \<times> server" where
  "handle_chunk_put H hash data v =
     (case handleChunkPut (h_blake3 H) (h_io H) (h_noted H) (h_unix H) hash data (sv_tenant v) of
        (r, t) \<Rightarrow>
          ((case r of
              TooLarge \<Rightarrow> Failed (wire_err ErrnoEINVAL)
            | TenantGone \<Rightarrow> Failed (wire_err ErrnoESTALE)
            | ChunkFailed e \<Rightarrow> Failed (storageErrToWire (chunk_cause H e) ErrnoEINVAL)
            | Stored stored \<Rightarrow> Answer (ChunkPutResp stored)), v\<lparr>sv_tenant := t\<rparr>))"

section \<open>Journal, feed and leases\<close>

definition handleJournalQuery :: "handler_env \<Rightarrow> JournalQueryRequest \<Rightarrow> server \<Rightarrow> reply" where
  "handleJournalQuery H req v =
     (let userAllocations = (if jq_alloc req = '''' then ListAllocations (db_of v) else [])
      in case Query (h_env H) (db_of v) (jq_alloc req) (jq_limit req) (jq_cursor req) userAllocations of
           (rows, nextCursor) \<Rightarrow> Answer (JournalQueryResp rows nextCursor))"

definition handleJournalRevertPath :: "handler_env \<Rightarrow> Identity \<Rightarrow> JournalRevertPathRequest \<Rightarrow> server \<Rightarrow> reply \<times> server" where
  "handleJournalRevertPath H ident req v =
     (if jr_alloc req = '''' then (Failed (wire_err ErrnoEINVAL), v)
      else if jr_paths req = [] then (Failed (wire_err ErrnoEINVAL), v)
      else if \<not> list_all (checkAgentPath ident) (jr_paths req) then (Failed (wire_err ErrnoEACCES), v)
      else case with_store (RevertPaths (\<lambda>_. store_env H v) (jr_alloc req) (jr_paths req) None None
                  (writerSessionForRevert (sv_mounts v) (jr_alloc req)) (id_agent ident) (jr_force req)) v of
        ((reverted, conflicts, None), v1) \<Rightarrow>
          (Answer (JournalRevertPathResp reverted (map (\<lambda>c. (rc_path c, rc_reason c)) conflicts)), v1)
      | ((_, _, Some _), v1) \<Rightarrow> (Failed (wire_err ErrnoEIO), v1))"

definition SyncProtocolV1 :: "32 word" where "SyncProtocolV1 = 1"

definition handleChangesFetch :: "handler_env \<Rightarrow> Identity \<Rightarrow> 32 word \<Rightarrow> ChangesFetchRequest \<Rightarrow> server \<Rightarrow> reply" where
  "handleChangesFetch H ident protocol req v =
     (if protocol \<noteq> SyncProtocolV1 then Failed (wire_err ErrnoEINVAL)
      else case changes_fetch (permitted H) (db_of v) (id_scoped ident) req of
        Inl _ \<Rightarrow> Failed (wire_err ErrnoEIO) | Inr resp \<Rightarrow> Answer (ChangesFetchResp resp))"

definition handleChangesSubscribe :: "Identity \<Rightarrow> 64 word \<Rightarrow> 32 word \<Rightarrow> server \<Rightarrow> reply \<times> server" where
  "handleChangesSubscribe ident conn protocol v =
     (if protocol \<noteq> SyncProtocolV1 then (Failed (wire_err ErrnoEINVAL), v)
      else (Answer (ChangesSubscribeResp (fst (changeFeedState (db_of v))) (if id_scoped ident = '''' then '''' else ''/'' @ id_scoped ident)),
            v\<lparr>sv_changes := snd (Subscribe (unat conn) (sv_changes v))\<rparr>))"

definition mode_of :: "8 word \<Rightarrow> LeaseMode option" where
  "mode_of b = (if b = 2 then Some LeaseExclusiveWrite else if b = 1 then Some LeaseSharedRead else None)"

definition mode_byte :: "LeaseMode \<Rightarrow> 8 word" where
  "mode_byte m = (case m of LeaseSharedRead \<Rightarrow> 1 | LeaseExclusiveWrite \<Rightarrow> 2)"

text \<open>\<^verbatim>\<open>Grant\<close> may spin without an answer; two turns are enough whenever it returns.\<close>

definition handleLeaseGrant :: "handler_env \<Rightarrow> Identity \<Rightarrow> 64 word \<Rightarrow> string \<Rightarrow> 8 word \<Rightarrow> server \<Rightarrow> reply \<times> server" where
  "handleLeaseGrant H ident conn p b v =
     (case mode_of b of
        None \<Rightarrow> (Failed (wire_err ErrnoEINVAL), v)
      | Some mode \<Rightarrow>
          if \<not> permitted H p then (Failed (wire_err ErrnoEACCES), v)
          else case grant_alone 2 (h_now H) (h_fresh H) (id_agent ident) conn p mode (sv_leases v) of
            None \<Rightarrow> (NoReply, v)
          | Some (Inl e, m) \<Rightarrow> (Failed (wire_err (grant_errno e)), v\<lparr>sv_leases := m\<rparr>)
          | Some (Inr g, m) \<Rightarrow>
              (Answer (LeaseGrantResp (be_put 16 (lg_id g)) (lg_expires_ms g) (mode_byte (lg_mode g))), v\<lparr>sv_leases := m\<rparr>))"

definition ErrnoLeaseUnknown :: int where "ErrnoLeaseUnknown = 100"

definition handleLeaseRefresh :: "handler_env \<Rightarrow> 64 word \<Rightarrow> byte list \<Rightarrow> server \<Rightarrow> reply \<times> server" where
  "handleLeaseRefresh H conn leaseID v =
     (case Refresh (h_now H) leaseID conn (sv_leases v) of
        (None, m) \<Rightarrow> (Failed (wire_err ErrnoLeaseUnknown), v\<lparr>sv_leases := m\<rparr>)
      | (Some expires, m) \<Rightarrow> (Answer (LeaseRefreshResp expires), v\<lparr>sv_leases := m\<rparr>))"

definition handleLeaseRelease :: "64 word \<Rightarrow> byte list \<Rightarrow> server \<Rightarrow> reply \<times> server" where
  "handleLeaseRelease conn leaseID v = (Answer EmptyResp, v\<lparr>sv_leases := snd (Release leaseID conn (sv_leases v))\<rparr>)"

section \<open>Dispatch\<close>

fun handle_request :: "handler_env \<Rightarrow> Identity \<Rightarrow> 64 word \<Rightarrow> request \<Rightarrow> server \<Rightarrow> reply \<times> server" where
  "handle_request H ident conn (ListReq p) v = (handleList H ident p v, v)"
| "handle_request H ident conn (StatReq p) v = (handleStat H ident p v, v)"
| "handle_request H ident conn (ManifestGetReq p) v = (handleManifestGet H ident p v, v)"
| "handle_request H ident conn (ManifestPutReq r) v = handleManifestPut H ident conn r v"
| "handle_request H ident conn (ManifestDeleteReq r) v = handleManifestDelete H ident conn r v"
| "handle_request H ident conn (ManifestRenameReq r) v = handleManifestRename H ident conn r v"
| "handle_request H ident conn (LinkReq r) v = handleLink H ident conn r v"
| "handle_request H ident conn (DirCreateReq p m) v = handleDirCreate H ident p m v"
| "handle_request H ident conn (DirRemoveReq p) v = handleDirRemove H ident p v"
| "handle_request H ident conn (SetattrReq r) v = handleSetattr H ident conn r v"
| "handle_request H ident conn (SymlinkReq p t m) v = handleSymlink H ident p t m v"
| "handle_request H ident conn (ReadlinkReq p) v = (handleReadlink H ident p v, v)"
| "handle_request H ident conn (MknodReq r) v = handleMknod H ident conn r v"
| "handle_request H ident conn (ChunkGetReq h) v = (handleChunkGet H h v, v)"
| "handle_request H ident conn (ChunkHasReq b) v = (handleChunkHas H b v, v)"
| "handle_request H ident conn (ChunkPutReq h d) v = handle_chunk_put H h d v"
| "handle_request H ident conn (JournalQueryReq r) v = (handleJournalQuery H r v, v)"
| "handle_request H ident conn (JournalRevertPathReq r) v = handleJournalRevertPath H ident r v"
| "handle_request H ident conn (ChangesFetchReq n r) v = (handleChangesFetch H ident n r v, v)"
| "handle_request H ident conn (ChangesSubscribeReq n) v = handleChangesSubscribe ident conn n v"
| "handle_request H ident conn (LeaseGrantReq p m) v = handleLeaseGrant H ident conn p m v"
| "handle_request H ident conn (LeaseRefreshReq i) v = handleLeaseRefresh H conn i v"
| "handle_request H ident conn (LeaseReleaseReq i) v = handleLeaseRelease conn i v"

section \<open>Frames\<close>

text \<open>The labels of \<^verbatim>\<open>OpTable\<close> and of the operations served outside it.\<close>

definition OpTable :: "(Op \<times> string) list" where
  "OpTable = [(0x01, ''list''), (0x02, ''stat''), (0x06, ''manifest_get''), (0x07, ''manifest_put''), (0x0B, ''manifest_delete''),
     (0x0C, ''manifest_rename''), (0x0D, ''dir_create''), (0x0E, ''dir_remove''), (0x0F, ''setattr''), (0x16, ''symlink''),
     (0x17, ''readlink''), (0x19, ''mknod''), (0x1A, ''link''), (0x08, ''chunk_get''), (0x09, ''chunk_has''), (0x0A, ''chunk_put''),
     (0x15, ''journal_query''), (0x18, ''journal_revert_path''), (0x1B, ''changes_fetch'')]"

definition nonTableOpLabels :: "(Op \<times> string) list" where
  "nonTableOpLabels = [(0x04, ''ping''), (0x05, ''close''), (0x10, ''lease_grant''), (0x11, ''lease_refresh''), (0x12, ''lease_release''),
     (0x13, ''lease_revoke''), (0x1C, ''changes_subscribe''), (0x1D, ''changes_event'')]"

definition opLabel :: "Op \<Rightarrow> string" where
  "opLabel o1 =
     (case map_of OpTable o1 of
        Some l \<Rightarrow> l
      | None \<Rightarrow> (case map_of nonTableOpLabels o1 of Some l \<Rightarrow> l | None \<Rightarrow> ''unknown''))"

fun request_op :: "request \<Rightarrow> Op" where
  "request_op (ListReq _) = 0x01"
| "request_op (StatReq _) = 0x02"
| "request_op (ManifestGetReq _) = 0x06"
| "request_op (ManifestPutReq _) = 0x07"
| "request_op (ChunkGetReq _) = 0x08"
| "request_op (ChunkHasReq _) = 0x09"
| "request_op (ChunkPutReq _ _) = 0x0A"
| "request_op (ManifestDeleteReq _) = 0x0B"
| "request_op (ManifestRenameReq _) = 0x0C"
| "request_op (DirCreateReq _ _) = 0x0D"
| "request_op (DirRemoveReq _) = 0x0E"
| "request_op (SetattrReq _) = 0x0F"
| "request_op (LeaseGrantReq _ _) = 0x10"
| "request_op (LeaseRefreshReq _) = 0x11"
| "request_op (LeaseReleaseReq _) = 0x12"
| "request_op (JournalQueryReq _) = 0x15"
| "request_op (SymlinkReq _ _ _) = 0x16"
| "request_op (ReadlinkReq _) = 0x17"
| "request_op (JournalRevertPathReq _) = 0x18"
| "request_op (MknodReq _) = 0x19"
| "request_op (LinkReq _) = 0x1A"
| "request_op (ChangesFetchReq _ _) = 0x1B"
| "request_op (ChangesSubscribeReq _) = 0x1C"

text \<open>
  The msgpack library as the data plane uses it: a payload decoded as a request of an operation, and
  the encoding of answers.
\<close>

record wire_codec =
  wk_decode :: "Op \<Rightarrow> byte list \<Rightarrow> request option"
  wk_answer :: "response \<Rightarrow> byte list option"
  wk_error :: "ErrorPayload \<Rightarrow> byte list option"

definition writeFrameError :: "wire_codec \<Rightarrow> Frame \<Rightarrow> ErrorPayload \<Rightarrow> Frame" where
  "writeFrameError K f e =
     \<lparr> fr_op = fr_op f, fr_flags = FlagResponse OR FlagError, fr_rid = fr_rid f,
       fr_payload = (case wk_error K e of None \<Rightarrow> [] | Some b \<Rightarrow> b) \<rparr>"

definition sendResp :: "wire_codec \<Rightarrow> Frame \<Rightarrow> response \<Rightarrow> Frame" where
  "sendResp K f r =
     (case wk_answer K r of
        None \<Rightarrow> writeFrameError K f (wire_err ErrnoEIO)
      | Some b \<Rightarrow> \<lparr> fr_op = fr_op f, fr_flags = FlagResponse, fr_rid = fr_rid f, fr_payload = b \<rparr>)"

definition decodeReq :: "wire_codec \<Rightarrow> Frame \<Rightarrow> request option" where
  "decodeReq K f =
     (case wk_decode K (fr_op f) (fr_payload f) of
        None \<Rightarrow> None | Some req \<Rightarrow> if request_op req = fr_op f then Some req else None)"

definition in_op_table :: "Op \<Rightarrow> bool" where
  "in_op_table o1 = (map_of OpTable o1 \<noteq> None)"

definition connection_op :: "Op \<Rightarrow> bool" where
  "connection_op o1 = (o1 \<in> set [0x10, 0x11, 0x12, 0x1C])"

text \<open>
  The body of the read loop of \<^verbatim>\<open>serveFrames\<close> for one frame: the frames sent back, the new state, and
  whether the loop goes on. Requests run on their own goroutines; here one runs to its end.
\<close>

definition serve_frame :: "handler_env \<Rightarrow> wire_codec \<Rightarrow> Identity \<Rightarrow> 64 word \<Rightarrow> Frame \<Rightarrow> server \<Rightarrow> Frame list \<times> server \<times> bool" where
  "serve_frame H K ident conn f v =
     (if fr_op f = 0x04 then ([\<lparr> fr_op = 0x04, fr_flags = FlagResponse, fr_rid = fr_rid f, fr_payload = fr_payload f \<rparr>], v, True)
      else if fr_op f = 0x05 then ([], v, False)
      else if connection_op (fr_op f) \<or> in_op_table (fr_op f) then
        (case decodeReq K f of
           None \<Rightarrow> ([writeFrameError K f (wire_err ErrnoEINVAL)], v, True)
         | Some req \<Rightarrow>
             (case handle_request H ident conn req v of
                (Failed e, v1) \<Rightarrow> ([writeFrameError K f e], v1, True)
              | (Answer r, v1) \<Rightarrow> ([sendResp K f r], v1, True)
              | (NoReply, v1) \<Rightarrow> ([], v1, True)))
      else ([writeFrameError K f (wire_err ErrnoEINVAL)], v, True))"

text \<open>
  The deferred cleanup of \<^verbatim>\<open>serveFrames\<close> when a session ends, in the order it runs: the subscription,
  then the leases of the connection.
\<close>

definition end_session :: "64 word \<Rightarrow> server \<Rightarrow> server" where
  "end_session conn v =
     v\<lparr>sv_changes := DropConn (unat conn) (sv_changes v), sv_leases := ReleaseAllForConn conn (sv_leases v)\<rparr>"

fun serve_frames :: "handler_env \<Rightarrow> wire_codec \<Rightarrow> Identity \<Rightarrow> 64 word \<Rightarrow> Frame list \<Rightarrow> server \<Rightarrow> Frame list \<times> server" where
  "serve_frames H K ident conn [] v = ([], end_session conn v)"
| "serve_frames H K ident conn (f # fs) v =
     (case serve_frame H K ident conn f v of
        (out, v1, False) \<Rightarrow> (out, end_session conn v1)
      | (out, v1, True) \<Rightarrow> (case serve_frames H K ident conn fs v1 of (rest, v2) \<Rightarrow> (out @ rest, v2)))"

section \<open>The control plane's revert\<close>

record controlJournalRevertRequest =
  jv_alloc :: string
  jv_session :: string
  jv_path :: string
  jv_seq :: nat
  jv_force :: bool
  jv_agent :: string

datatype control_reply = BadRequest string | InternalError | RevertOk | RevertConflict string

definition tenantJournalRevert :: "handler_env \<Rightarrow> controlJournalRevertRequest \<Rightarrow> server \<Rightarrow> control_reply \<times> server" where
  "tenantJournalRevert H req v =
     (if jv_alloc req = '''' then (BadRequest ''missing_allocation_id'', v)
      else if jv_path req = '''' then (BadRequest ''missing_path'', v)
      else if jv_agent req = '''' then (BadRequest ''missing_agent_id'', v)
      else case with_store (RevertPaths (\<lambda>_. store_env H v) (jv_alloc req) [jv_path req] (Some [jv_session req]) (Some [jv_seq req])
                  (writerSessionForRevert (sv_mounts v) (jv_alloc req)) (jv_agent req) (jv_force req)) v of
        ((_, _, Some _), v1) \<Rightarrow> (InternalError, v1)
      | ((reverted, conflicts, None), v1) \<Rightarrow>
          ((case conflicts of
              c # _ \<Rightarrow> RevertConflict (rc_reason c)
            | [] \<Rightarrow> if reverted = [] then RevertConflict ReasonRevertBlocked else RevertOk), v1))"

end
