(* ===== verification/Isolation.thy ===== *)
theory Isolation
  imports Confinement Handlers
begin

text \<open>
  What one agent's requests can do to another agent's files: the handlers keep \<open>confined\<close>, so a request
  of one agent is invisible in the files, symlinks and special nodes of the others (\<open>agents_isolated\<close>);
  the one exception, the rename of a directory, and what it moves (\<open>dir_rename_moves_matches\<close>).
\<close>

section \<open>The handlers\<close>

lemma with_store_db [simp]: "db_of (snd (with_store f v)) = ms_db (snd (f (store_of v)))"
  by (simp add: with_store_def db_of_def store_of_def split: prod.split)

lemma fence_db [simp]: "db_of (snd (session_fence H ident conn s a v)) = db_of v"
  by (simp add: session_fence_def db_of_def store_of_def split: prod.split)


lemma db_of_upd [simp]:
  "db_of (v\<lparr>sv_leases := x1\<rparr>) = db_of v" "db_of (v\<lparr>sv_mounts := x2\<rparr>) = db_of v" "db_of (v\<lparr>sv_changes := x3\<rparr>) = db_of v"
  by (simp_all add: db_of_def store_of_def)

lemma with_storeD: "with_store f v = (r, v') \<Longrightarrow> db_of v' = ms_db (snd (f (store_of v)))"
  using with_store_db [of f v] by simp

lemma fenceD: "session_fence H ident conn s a v = (r, v') \<Longrightarrow> db_of v' = db_of v"
  using fence_db [of H ident conn s a v] by simp

text \<open>A request that renames a directory.\<close>

fun renames_dir :: "tenant_db \<Rightarrow> request \<Rightarrow> bool" where
  "renames_dir db (ManifestRenameReq r) = (resolveKind db (mr_from r) = nodeDir)"
| "renames_dir db _ = False"

definition own_identity :: "string \<Rightarrow> Identity \<Rightarrow> bool" where
  "own_identity A ident \<longleftrightarrow> id_scoped ident = A \<and> A \<noteq> '''' \<and> slash \<notin> set A"

lemma own_paths:
  assumes "own_identity A ident"
  shows "checkAgentPath ident p \<Longrightarrow> top_dir p = A" "authorized H ident p \<Longrightarrow> top_dir p = A"
    "both_authorized H ident p q \<Longrightarrow> top_dir p = A \<and> top_dir q = A"
  using checkAgentPath_top [of ident] assms
  by (auto simp: own_identity_def authorized_def authorizePath_def both_authorized_def split: if_splits)

lemma lease_check_confined:
  assumes c: "confined A sn I (ms_db st)" and p: "top_dir p = A"
  shows "confined A sn I (ms_db (snd (PutWithLeaseCheck E p n mf s a g lease st)))"
    and "top_dir src = A \<Longrightarrow> confined A sn I (ms_db (snd (LinkWithLeaseCheck E src p s a g lease st)))"
    and "confined A sn I (ms_db (snd (DeleteWithLeaseCheck E p n s a g lease st)))"
    and "top_dir src = A \<Longrightarrow> src \<noteq> '''' \<Longrightarrow> resolveKind (ms_db st) src \<noteq> nodeDir \<Longrightarrow>
      confined A sn I (ms_db (snd (RenameWithLeaseCheck E src p ef et nr s a g lease st)))"
  using call_confined(1-4) [OF c p] c
  by (simp_all add: PutWithLeaseCheck_def LinkWithLeaseCheck_def DeleteWithLeaseCheck_def RenameWithLeaseCheck_def split: sum.split)

lemma with_store_confined:
  assumes "with_store f v = (r, v')" "confined A sn I (ms_db (snd (f (store_of v))))"
  shows "confined A sn I (db_of v')"
  using with_storeD [OF assms(1)] assms(2) by simp

lemma put_handler_confined:
  assumes c: "confined A sn I (db_of v)" and own: "own_identity A ident"
  shows "confined A sn I (db_of (snd (handleManifestPut H ident conn r v)))"
proof (cases "authorized H ident (mp_path r)")
  case True
  note p = own_paths(2) [OF own True]
  obtain y m where y: "yield_alone 2 (h_now H) (id_agent ident) (mp_path r) ''manifest_put_contention'' (sv_leases v) = (y, m)" by fastforce
  obtain f v1 where 1: "session_fence H ident conn (mp_session r) (mp_alloc r) (v\<lparr>sv_leases := m\<rparr>) = (f, v1)" by fastforce
  with c have c1: "confined A sn I (ms_db (store_of v1))" by (simp add: fenceD flip: db_of_def)
  show ?thesis
  proof (cases y)
    case (Inl e)
    with y c True show ?thesis by (simp add: handleManifestPut_def Let_def)
  next
    case y2: (Inr u)
    show ?thesis
    proof (cases f)
      case (Inl e)
      with y y2 1 c1 True show ?thesis by (simp add: handleManifestPut_def Let_def db_of_def)
    next
      case (Inr sal)
      obtain s a lease where sal: "sal = (s, a, lease)" by (cases sal)
      let ?mf = "\<lparr> m_path = mp_path r, m_inode = 0, m_nlink = 0, m_size = mp_size r, m_mode = mp_mode r, m_mtime = mp_mtime r,
        m_version = 0, m_chunks = fromWireChunks (mp_chunks r), m_uid = 0, m_gid = 0, m_atime = 0 \<rparr>"
      obtain res v2 where 2: "with_store (PutWithLeaseCheck (store_env H v1) (mp_path r) (mp_version_expected r) ?mf s a (id_agent ident) lease) v1 = (res, v2)"
        by fastforce
      then have "confined A sn I (db_of v2)" by (rule with_store_confined) (rule lease_check_confined(1) [OF c1 p])
      with y y2 1 2 Inr sal True show ?thesis
        by (cases res) (simp_all add: handleManifestPut_def Let_def split: store_error.split)
    qed
  qed
qed (use c in \<open>simp add: handleManifestPut_def\<close>)

lemma delete_handler_confined:
  assumes c: "confined A sn I (db_of v)" and own: "own_identity A ident"
  shows "confined A sn I (db_of (snd (handleManifestDelete H ident conn r v)))"
proof (cases "authorized H ident (md_path r)")
  case True
  note p = own_paths(2) [OF own True]
  obtain f v1 where 1: "session_fence H ident conn (md_session r) (md_alloc r) v = (f, v1)" by fastforce
  with c have c1: "confined A sn I (ms_db (store_of v1))" by (simp add: fenceD flip: db_of_def)
  have "confined A sn I (db_of v2)"
    if "with_store (DeleteWithLeaseCheck (store_env H v1) (md_path r) n s a g lease) v1 = (res, v2)" for n s a g lease res v2
    using that by (rule with_store_confined) (rule lease_check_confined(3) [OF c1 p])
  with 1 c1 True show ?thesis
    by (auto simp: handleManifestDelete_def Let_def db_of_def [symmetric] split: sum.split prod.split)
qed (use c in \<open>simp add: handleManifestDelete_def\<close>)

lemma link_handler_confined:
  assumes c: "confined A sn I (db_of v)" and own: "own_identity A ident"
  shows "confined A sn I (db_of (snd (handleLink H ident conn r v)))"
proof (cases "both_authorized H ident (lk_from r) (lk_to r)")
  case True
  note p = own_paths(3) [OF own True]
  obtain f v1 where 1: "session_fence H ident conn (lk_session r) (lk_alloc r) v = (f, v1)" by fastforce
  with c have c1: "confined A sn I (ms_db (store_of v1))" by (simp add: fenceD flip: db_of_def)
  have "confined A sn I (db_of v2)"
    if "with_store (LinkWithLeaseCheck (store_env H v1) (lk_from r) (lk_to r) s a g lease) v1 = (res, v2)" for s a g lease res v2
    using that by (rule with_store_confined) (rule lease_check_confined(2) [OF c1 conjunct2 [OF p] conjunct1 [OF p]])
  with 1 c1 True show ?thesis
    by (auto simp: handleLink_def db_of_def [symmetric] split: sum.split prod.split)
qed (use c in \<open>simp add: handleLink_def\<close>)

lemma rename_handler_confined:
  assumes c: "confined A sn I (db_of v)" and own: "own_identity A ident" and k: "resolveKind (db_of v) (mr_from r) \<noteq> nodeDir"
  shows "confined A sn I (db_of (snd (handleManifestRename H ident conn r v)))"
proof (cases "both_authorized H ident (mr_from r) (mr_to r)")
  case True
  note p = own_paths(3) [OF own True]
  have ne: "mr_from r \<noteq> ''''" using p own by (auto simp: own_identity_def top_dir_def)
  obtain f v1 where 1: "session_fence H ident conn (mr_session r) (mr_alloc r) v = (f, v1)" by fastforce
  have db: "ms_db (store_of v1) = db_of v" using fenceD [OF 1] by (simp add: db_of_def)
  note c1 = c [folded db] k [folded db]
  have "confined A sn I (db_of v2)"
    if "with_store (RenameWithLeaseCheck (store_env H v1) (mr_from r) (mr_to r) ef et nr s a g lease) v1 = (res, v2)" for ef et nr s a g lease res v2
    using that by (rule with_store_confined) (rule lease_check_confined(4) [OF c1(1) conjunct2 [OF p] conjunct1 [OF p] ne c1(2)])
  note moved = this
  show ?thesis
  proof (cases f)
    case (Inr sal)
    obtain s a lease where sal: "sal = (s, a, lease)" by (cases sal)
    obtain res v2 where 2: "with_store (RenameWithLeaseCheck (store_env H v1) (mr_from r) (mr_to r) (mr_expected_from r) (mr_expected_to r)
        (mr_no_replace r) s a (id_agent ident) lease) v1 = (res, v2)" by fastforce
    note c2 = moved [OF this]
    show ?thesis
    proof (cases res)
      case (Inl e)
      with c2 1 2 Inr sal True show ?thesis by (simp add: handleManifestRename_def)
    next
      case (Inr n)
      with c2 1 2 \<open>f = Inr sal\<close> sal True show ?thesis by (simp add: handleManifestRename_def)
    qed
  qed (use 1 c1(1) True in \<open>simp add: handleManifestRename_def db_of_def\<close>)
qed (use c in \<open>simp add: handleManifestRename_def\<close>)


lemma store_reply_db: "db_of (snd (store_reply H r)) = db_of (snd r)"
  by (cases r) (simp add: store_reply_def split: sum.split)

lemma node_handlers_confined:
  assumes c: "confined A sn I (db_of v)" and own: "own_identity A ident"
  shows "confined A sn I (db_of (snd (handleDirCreate H ident p mode v)))" "confined A sn I (db_of (snd (handleDirRemove H ident p v)))"
    "confined A sn I (db_of (snd (handleSymlink H ident p target mode v)))"
proof -
  have c1: "confined A sn I (ms_db (store_of v))" using c by (simp add: db_of_def)
  show "confined A sn I (db_of (snd (handleDirCreate H ident p mode v)))"
    using call_confined(5) [OF c1 own_paths(2) [OF own]] c by (simp add: handleDirCreate_def store_reply_db)
  show "confined A sn I (db_of (snd (handleDirRemove H ident p v)))"
    using call_confined(6) [OF c1 own_paths(2) [OF own]] c by (simp add: handleDirRemove_def store_reply_db)
  show "confined A sn I (db_of (snd (handleSymlink H ident p target mode v)))"
    using call_confined(7) [OF c1 own_paths(2) [OF own]] c by (simp add: handleSymlink_def store_reply_db)
qed

lemma mknod_handler_confined:
  assumes c: "confined A sn I (db_of v)" and own: "own_identity A ident"
  shows "confined A sn I (db_of (snd (handleMknod H ident conn r v)))"
proof (cases "authorized H ident (mk_path r)")
  case True
  obtain f v1 where 1: "session_fence H ident conn (mk_session r) (mk_alloc r) v = (f, v1)" by fastforce
  have c1: "confined A sn I (ms_db (store_of v1))" using c fenceD [OF 1] by (simp add: db_of_def)
  from call_confined(8) [OF this own_paths(2) [OF own True]] 1 c1 True show ?thesis
    by (cases f) (simp_all add: handleMknod_def Let_def store_reply_db db_of_def [symmetric])
qed (use c in \<open>simp add: handleMknod_def\<close>)

lemma setattr_parts_confined:
  assumes c: "confined A sn I (db_of v)" and p: "top_dir (sa_path r) = A"
  shows "confined A sn I (db_of (snd (set_owner_part H r v)))" "confined A sn I (db_of (snd (set_atime_part H r v)))"
proof -
  have c1: "confined A sn I (ms_db (store_of v))" using c by (simp add: db_of_def)
  show "confined A sn I (db_of (snd (set_owner_part H r v)))"
    using call_confined(9) [OF c1 p] c by (simp add: set_owner_part_def split: sum.split prod.split)
  show "confined A sn I (db_of (snd (set_atime_part H r v)))"
    using call_confined(10) [OF c1 p] c by (simp add: set_atime_part_def split: option.split)
qed

lemma setattr_handler_confined:
  assumes c: "confined A sn I (db_of v)" and own: "own_identity A ident"
  shows "confined A sn I (db_of (snd (handleSetattr H ident conn r v)))"
proof (cases "authorized H ident (sa_path r)")
  case True
  note p = own_paths(2) [OF own True]
  obtain f v1 where 1: "session_fence H ident conn (sa_session r) (sa_alloc r) v = (f, v1)" by fastforce
  have c1: "confined A sn I (ms_db (store_of v1))" using c fenceD [OF 1] by (simp add: db_of_def)
  show ?thesis
  proof (cases f)
    case (Inr sal)
    obtain s a lease where sal: "sal = (s, a, lease)" by (cases sal)
    obtain r2 v2 where 2: "with_store (SetMode (store_env H v1) (sa_path r) (sa_mode r) s a (id_agent ident) lease) v1 = (r2, v2)" by fastforce
    then have c2: "confined A sn I (db_of v2)" by (rule with_store_confined) (rule setmode_confined [OF c1 p])
    obtain r3 v3 where 3: "set_owner_part H r v2 = (r3, v3)" by fastforce
    have c3: "confined A sn I (db_of v3)" using setattr_parts_confined(1) [OF c2 p, of H] 3 by simp
    have "confined A sn I (db_of (snd (set_atime_part H r v3)))" by (rule setattr_parts_confined(2) [OF c3 p])
    with c2 c3 1 2 3 Inr sal True show ?thesis
      by (cases r2; cases r3) (simp_all add: handleSetattr_def Let_def store_reply_db)
  qed (use 1 c1 True in \<open>simp add: handleSetattr_def db_of_def\<close>)
qed (use c in \<open>simp add: handleSetattr_def\<close>)

lemma revert_handler_confined:
  assumes c: "confined A sn I (db_of v)" and own: "own_identity A ident"
  shows "confined A sn I (db_of (snd (handleJournalRevertPath H ident r v)))"
proof (cases "list_all (checkAgentPath ident) (jr_paths r)")
  case True
  then have "\<forall>p\<in>set (jr_paths r). top_dir p = A" using own_paths(1) [OF own] by (simp add: list_all_iff)
  moreover have "confined A sn I (ms_db (store_of v))" "A \<noteq> ''''" using c own by (simp_all add: db_of_def own_identity_def)
  ultimately have "confined A sn I (ms_db (snd (RevertPaths E alloc (jr_paths r) None None ws wg force (store_of v))))" for E alloc ws wg force
    by (intro RevertPaths_confined) auto
  note c1 = this
  obtain ok bad err v1 where w: "with_store (RevertPaths (\<lambda>_. store_env H v) (jr_alloc r) (jr_paths r) None None
      (writerSessionForRevert (sv_mounts v) (jr_alloc r)) (id_agent ident) (jr_force r)) v = ((ok, bad, err), v1)" by (metis surj_pair)
  from with_store_confined [OF w c1] w c show ?thesis by (cases err) (simp_all add: handleJournalRevertPath_def)
qed (use c in \<open>simp add: handleJournalRevertPath_def\<close>)

lemma chunk_handler_confined:
  assumes c: "confined A sn I (db_of v)"
  shows "confined A sn I (db_of (snd (handle_chunk_put H hash data v)))"
proof -
  obtain r t where 1: "handleChunkPut (h_blake3 H) (h_io H) (h_noted H) (h_unix H) hash data (sv_tenant v) = (r, t)" by fastforce
  then have "ms_db (ts_store t) = (db_of v)\<lparr>db_chunks := db_chunks (ms_db (ts_store t))\<rparr>"
    by (auto simp: handleChunkPut_def putChunk_def on_db_def db_of_def store_of_def split: if_splits prod.splits option.splits sum.splits)
  then have "confined A sn I (ms_db (ts_store t))" by (rule ssubst) (rule confined_cong [OF c], use c in simp_all)
  with 1 show ?thesis by (simp add: handle_chunk_put_def db_of_def store_of_def)
qed

lemma request_confined:
  assumes c: "confined A sn I (db_of v)" and own: "own_identity A ident" and k: "\<not> renames_dir (db_of v) req"
  shows "confined A sn I (db_of (snd (handle_request H ident conn req v)))"
proof (cases req)
  case (LeaseGrantReq p b)
  with c show ?thesis by (simp add: handleLeaseGrant_def split: option.split prod.split sum.split)
next
  case (LeaseRefreshReq i)
  with c show ?thesis by (simp add: handleLeaseRefresh_def split: option.split prod.split)
next
  case (LeaseReleaseReq i)
  with c show ?thesis by (simp add: handleLeaseRelease_def)
next
  case (ChangesSubscribeReq n)
  with c show ?thesis by (simp add: handleChangesSubscribe_def)
qed (use c k own in \<open>simp_all add: put_handler_confined delete_handler_confined rename_handler_confined link_handler_confined
  node_handlers_confined chunk_handler_confined setattr_handler_confined mknod_handler_confined revert_handler_confined\<close>)


section \<open>What the others see\<close>

definition separated :: "tenant_db \<Rightarrow> bool" where
  "separated db \<longleftrightarrow>
     (\<forall>r\<in>set (db_manifests db). \<forall>r'\<in>set (db_manifests db). mf_inode r = mf_inode r' \<longrightarrow> top_dir (mf_path r) = top_dir (mf_path r')) \<and>
     journal_local (db_journal db)"

definition inodes_of :: "string \<Rightarrow> tenant_db \<Rightarrow> nat set" where
  "inodes_of A db = {mf_inode r | r. r \<in> set (db_manifests db) \<and> top_dir (mf_path r) = A} \<union> {n. db_next_inode db < n}"

lemma separated_confined:
  assumes inv: "db_inv db" and sep: "separated db"
  shows "confined A (outside A db) (inodes_of A db) db"
proof -
  have "mf_inode r \<notin> inodes_of A db" if r: "r \<in> set (db_manifests db)" "top_dir (mf_path r) \<noteq> A" for r
  proof
    assume "mf_inode r \<in> inodes_of A db"
    moreover have "mf_inode r \<le> db_next_inode db" using rows_okD [OF db_invD(7) [OF inv] r(1)] by (simp add: row_ok_def)
    ultimately obtain r' where "r' \<in> set (db_manifests db)" "top_dir (mf_path r') = A" "mf_inode r' = mf_inode r"
      by (auto simp: inodes_of_def)
    with sep r show False unfolding separated_def by fastforce
  qed
  then have "\<forall>r\<in>set (fst (outside A db)). mf_inode r \<notin> inodes_of A db" by (auto simp: outside_def)
  moreover have "journal_local (db_journal db)" using sep by (simp add: separated_def)
  ultimately show ?thesis unfolding confined_def by (auto simp: inodes_of_def)
qed

lemma outside_rows:
  assumes "outside A db' = outside A db" "r \<in> set (db_manifests db')" "top_dir (mf_path r) \<noteq> A"
  obtains r0 where "r0 \<in> set (db_manifests db)" "mf_path r0 = mf_path r" "mf_inode r0 = mf_inode r"
proof -
  have "r\<lparr>mf_rev := 0\<rparr> \<in> set (fst (outside A db'))" using assms(2,3) by (auto simp: outside_def)
  then obtain r0 where r0: "r0 \<in> set (db_manifests db)" "r0\<lparr>mf_rev := 0\<rparr> = r\<lparr>mf_rev := 0\<rparr>"
    unfolding assms(1) by (auto simp: outside_def)
  from arg_cong [OF r0(2), of mf_path] arg_cong [OF r0(2), of mf_inode]
  have "mf_path r0 = mf_path r" "mf_inode r0 = mf_inode r" by simp_all
  with r0(1) show thesis by (rule that)
qed

lemma confined_separated:
  assumes "confined A (outside A db) I db'" "separated db"
  shows "separated db'"
proof -
  have out: "outside A db' = outside A db" using assms(1) unfolding confined_def by blast
  have sep: "top_dir (mf_path x) = top_dir (mf_path y)"
    if "x \<in> set (db_manifests db)" "y \<in> set (db_manifests db)" "mf_inode x = mf_inode y" for x y
    using assms(2) that unfolding separated_def by blast
  have "top_dir (mf_path r) = top_dir (mf_path r')" if r: "r \<in> set (db_manifests db')" "r' \<in> set (db_manifests db')" "mf_inode r = mf_inode r'" for r r'
  proof (cases "mf_inode r \<in> I")
    case True
    with confined_own(2) [OF assms(1) r(1)] confined_own(2) [OF assms(1) r(2)] r(3) show ?thesis by metis
  next
    case False
    with confined_own(1) [OF assms(1) r(1)] confined_own(1) [OF assms(1) r(2)] r(3) have n: "top_dir (mf_path r) \<noteq> A" "top_dir (mf_path r') \<noteq> A" by metis+
    obtain r0 where r0: "r0 \<in> set (db_manifests db)" "mf_path r0 = mf_path r" "mf_inode r0 = mf_inode r"
      using outside_rows [OF out r(1) n(1)] .
    obtain r1 where r1: "r1 \<in> set (db_manifests db)" "mf_path r1 = mf_path r'" "mf_inode r1 = mf_inode r'"
      using outside_rows [OF out r(2) n(2)] .
    have "top_dir (mf_path r0) = top_dir (mf_path r1)"
      by (rule sep [OF r0(1) r1(1)]) (simp only: r0(3) r1(3) r(3))
    then show ?thesis by (simp only: r0(2) r1(2))
  qed
  then show ?thesis unfolding separated_def using confined_local [OF assms(1)] by blast
qed

lemma find_stripped:
  assumes "map f (filter Q xs) = map f (filter Q ys)" "\<And>x. P x \<Longrightarrow> Q x" "\<And>x. P (f x) = P x"
  shows "map_option f (find P xs) = map_option f (find P ys)"
proof -
  have "map_option f (find P zs) = find P (map f (filter Q zs))" for zs
    using assms(2,3) by (induction zs) auto
  with assms(1) show ?thesis by simp
qed


lemma outside_lookup:
  assumes "outside A db' = outside A db" "top_dir q \<noteq> A"
  shows "map_option (\<lambda>r. r\<lparr>mf_rev := 0\<rparr>) (tbl_get mf_path (db_manifests db') q) = map_option (\<lambda>r. r\<lparr>mf_rev := 0\<rparr>) (tbl_get mf_path (db_manifests db) q)"
    and "map_option (\<lambda>r. r\<lparr>sl_rev := 0\<rparr>) (tbl_get sl_path (db_symlinks db') q) = map_option (\<lambda>r. r\<lparr>sl_rev := 0\<rparr>) (tbl_get sl_path (db_symlinks db) q)"
    and "map_option (\<lambda>r. r\<lparr>sn_rev := 0\<rparr>) (tbl_get sn_path (db_specials db') q) = map_option (\<lambda>r. r\<lparr>sn_rev := 0\<rparr>) (tbl_get sn_path (db_specials db) q)"
proof -
  note o = assms(1) [unfolded outside_def prod.inject]
  show "map_option (\<lambda>r. r\<lparr>mf_rev := 0\<rparr>) (tbl_get mf_path (db_manifests db') q) = map_option (\<lambda>r. r\<lparr>mf_rev := 0\<rparr>) (tbl_get mf_path (db_manifests db) q)"
    unfolding tbl_get_def by (rule find_stripped [OF conjunct1 [OF o]]) (use assms(2) in auto)
  show "map_option (\<lambda>r. r\<lparr>sl_rev := 0\<rparr>) (tbl_get sl_path (db_symlinks db') q) = map_option (\<lambda>r. r\<lparr>sl_rev := 0\<rparr>) (tbl_get sl_path (db_symlinks db) q)"
    unfolding tbl_get_def by (rule find_stripped [OF conjunct1 [OF conjunct2 [OF o]]]) (use assms(2) in auto)
  show "map_option (\<lambda>r. r\<lparr>sn_rev := 0\<rparr>) (tbl_get sn_path (db_specials db') q) = map_option (\<lambda>r. r\<lparr>sn_rev := 0\<rparr>) (tbl_get sn_path (db_specials db) q)"
    unfolding tbl_get_def by (rule find_stripped [OF conjunct2 [OF conjunct2 [OF o]]]) (use assms(2) in auto)
qed

lemma outside_nlink:
  assumes "confined A sn I db" "i \<notin> I"
  shows "nlink_of db i = length (filter (\<lambda>r. mf_inode r = i) (fst (outside A db)))"
proof -
  have "filter (\<lambda>r. mf_inode r = i) (db_manifests db) = filter (\<lambda>r. mf_inode r = i) (filter (\<lambda>r. top_dir (mf_path r) \<noteq> A) (db_manifests db))"
    unfolding filter_filter using confined_own(1) [OF assms(1)] assms(2) by (intro filter_cong) auto
  then show ?thesis by (simp add: nlink_of_def tbl_count_def outside_def filter_map comp_def)
qed

definition get_of :: "tenant_db \<Rightarrow> manifest_row option \<Rightarrow> store_error + Manifest" where
  "get_of db row = (case row of
        None \<Rightarrow> Inl ErrManifestNotFound
      | Some r \<Rightarrow>
          (case unpackChunks (mf_chunks r) of
             None \<Rightarrow> Inl ErrUnpackChunks
           | Some cs \<Rightarrow> Inr \<lparr> m_path = mf_path r, m_inode = mf_inode r, m_nlink = nlink_of db (mf_inode r),
               m_size = mf_size r, m_mode = mf_mode r, m_mtime = mf_mtime r, m_version = mf_version r,
               m_chunks = cs, m_uid = mf_uid r, m_gid = mf_gid r, m_atime = mf_atime r \<rparr>))"

lemma Get_stripped: "Get db q = get_of db (map_option (\<lambda>r. r\<lparr>mf_rev := 0\<rparr>) (tbl_get mf_path (db_manifests db) q))"
  by (simp add: Get_def get_of_def split: option.split)

lemma SymlinkInfo_stripped:
  "SymlinkInfo db q = map_option (\<lambda>r. (sl_target r, if sl_mode r = 0 then 511 else sl_mode r, sl_uid r, sl_gid r, sl_atime r))
     (map_option (\<lambda>r. r\<lparr>sl_rev := 0\<rparr>) (tbl_get sl_path (db_symlinks db) q))"
  by (cases "tbl_get sl_path (db_symlinks db) q") (simp_all add: SymlinkInfo_def)

lemma SpecialNodeInfo_stripped:
  "SpecialNodeInfo db q = map_option (\<lambda>r. (sn_mode r, sn_rdev r, sn_uid r, sn_gid r, sn_atime r, specialNodeKind (sn_mode r)))
     (map_option (\<lambda>r. r\<lparr>sn_rev := 0\<rparr>) (tbl_get sn_path (db_specials db) q))"
  by (simp add: SpecialNodeInfo_def option.map_comp comp_def)

lemma confined_view:
  assumes c: "confined A (outside A db) I db" and c': "confined A (outside A db) I db'" and q: "top_dir q \<noteq> A"
  shows "Get db' q = Get db q" "SymlinkInfo db' q = SymlinkInfo db q" "SpecialNodeInfo db' q = SpecialNodeInfo db q"
proof -
  have o: "outside A db' = outside A db" using c' unfolding confined_def by blast
  have "nlink_of db' (mf_inode x) = nlink_of db (mf_inode x)" if "tbl_get mf_path (db_manifests db) q = Some x" for x
  proof -
    from that have x: "x \<in> set (db_manifests db)" "mf_path x = q" by (auto dest: tbl_get_SomeD)
    with q confined_own(2) [OF c x(1)] have "mf_inode x \<notin> I" by auto
    with outside_nlink [OF c] outside_nlink [OF c'] o show ?thesis by simp
  qed
  then show "Get db' q = Get db q"
    unfolding Get_stripped outside_lookup(1) [OF o q] get_of_def by (simp split: option.split)
  show "SymlinkInfo db' q = SymlinkInfo db q" "SpecialNodeInfo db' q = SpecialNodeInfo db q"
    unfolding SymlinkInfo_stripped SpecialNodeInfo_stripped outside_lookup(2,3) [OF o q] by (rule refl)+
qed

section \<open>Properties\<close>

text \<open>
  C5. Isolation of agents: a request of the agent \<open>A\<close>, of any kind but the rename of a directory and
  whatever it is answered, leaves every file, symlink and special node outside the directory of \<open>A\<close> as it
  was, hard link counts and versions included. It assumes that no two agents share a file by hard links
  and that no journal row names another agent's path as the origin of a change, and every request keeps
  that, so the same holds for whole sessions.
\<close>

theorem agents_isolated:
  assumes "db_inv (db_of v)" "separated (db_of v)" "own_identity A ident" "\<not> renames_dir (db_of v) req"
    "handle_request H ident conn req v = (answer, v')"
  shows "separated (db_of v') \<and>
    (\<forall>q. top_dir q \<noteq> A \<longrightarrow> Get (db_of v') q = Get (db_of v) q \<and> SymlinkInfo (db_of v') q = SymlinkInfo (db_of v) q \<and>
       SpecialNodeInfo (db_of v') q = SpecialNodeInfo (db_of v) q)"
proof -
  note c = separated_confined [OF assms(1,2), of A]
  from request_confined [OF c assms(3,4), of H conn] assms(5)
  have c': "confined A (outside A (db_of v)) (inodes_of A (db_of v)) (db_of v')" by simp
  from confined_separated [OF this assms(2)] confined_view [OF c c'] show ?thesis by blast
qed


section \<open>Renaming a directory\<close>

lemma reparent_rows:
  assumes "reparentDescendantsTx now src dst rv db = Inr (u, db')"
  shows "db_manifests db' = tbl_update (\<lambda>r. like_raw (src @ ''/%'') (mf_path r))
    (\<lambda>r. r\<lparr>mf_path := reparent_path src dst (mf_path r), mf_rev := rv\<rparr>) (db_manifests db)"
  using assms
  by (auto simp: reparentDescendantsTx_def Let_def tombstoneSubtreeTx_def clearTombstoneSubtreeTx_def
      dest!: rekey_manifests_Inr(1) rekey_symlinks_Inr(1) rekey_specials_Inr(1) rekey_dirs_Inr(1))

lemma rewriteDirs_files: "rewriteRenameDirEntriesTx src dst k rv db = Inr (u, db') \<Longrightarrow> db_manifests db' = db_manifests db"
  by (auto simp: rewriteRenameDirEntriesTx_def split: prod.splits if_splits)

lemma rename_dir_rows:
  assumes run: "renameOpt_tx E src dst ef et nr s a g db = Inr (out, db')" and k: "resolveKind db src = nodeDir" and ne: "src \<noteq> dst"
  shows "db_manifests db' = tbl_update (\<lambda>r. like_raw (src @ ''/%'') (mf_path r))
    (\<lambda>r. r\<lparr>mf_path := reparent_path src dst (mf_path r), mf_rev := Suc (db_last_rev db)\<rparr>) (db_manifests db)"
  using run
proof (cases rule: renameOpt_Inr)
  case (moved dv x)
  let ?rv = "Suc (db_last_rev db)" and ?dk = "resolveKind db dst"
  have x: "x = None" using moved(5) k by simp
  from moved(7) k x obtain db2 nv je db3 db4 db5 where d: "tx_when (?dk \<noteq> nodeAbsent) (deleteDestTx dst ?dk ?rv) (db\<lparr>db_last_rev := ?rv\<rparr>) = Inr ((), db2)"
    and j: "journalRenameTx E src dst dv None s a g db2 = Inr ((nv, je), db3)"
    and m: "moveRenameSourceTx (e_now_tomb E) src dst nodeDir nv 0 ?rv db3 = Inr ((), db4)"
    and t: "rewriteRenameDirEntriesTx src dst nodeDir ?rv db4 = Inr ((), db5)" and db': "db_manifests db' = db_manifests db5"
    by (fastforce simp: rename_apply_def simp del: tx_when_Inr)
  have dk: "?dk \<noteq> nodeRegular" using resolveRenameDest_Inr(3) [OF moved(4)] k by auto
  have "db_manifests db2 = db_manifests db"
  proof (cases "?dk = nodeAbsent")
    case False
    with d have "deleteDestTx dst ?dk ?rv (db\<lparr>db_last_rev := ?rv\<rparr>) = Inr ((), db2)" by simp
    then show ?thesis using dk by (cases rule: deleteDest_Inr) simp_all
  qed (use d in simp)
  moreover have "db3 = db2" using j by (simp add: journalRenameTx_def)
  ultimately show ?thesis
    using reparent_rows [of "e_now_tomb E" src dst ?rv db3 "()" db4] m rewriteDirs_files [OF t] db' by (simp add: moveRenameSourceTx_def)
qed (use ne k in simp_all)


lemma rename_handler_Answer:
  assumes "handleManifestRename H ident conn r v = (Answer res, v')" "mr_from r \<noteq> mr_to r" "resolveKind (db_of v) (mr_from r) = nodeDir"
  obtains E s a g n je rv where
    "renameOpt_tx E (mr_from r) (mr_to r) (mr_expected_from r) (mr_expected_to r) (mr_no_replace r) s a g (db_of v) = Inr (Commit n je rv, db_of v')"
proof -
  obtain f v1 where 1: "session_fence H ident conn (mr_session r) (mr_alloc r) v = (f, v1)" by fastforce
  have db: "ms_db (store_of v1) = db_of v" using fenceD [OF 1] by (simp add: db_of_def)
  from assms(1) 1 obtain s a lease where f: "f = Inr (s, a, lease)"
    by (cases f) (auto simp: handleManifestRename_def split: if_splits)
  obtain res2 v2 where 2: "with_store (RenameWithLeaseCheck (store_env H v1) (mr_from r) (mr_to r) (mr_expected_from r) (mr_expected_to r)
        (mr_no_replace r) s a (id_agent ident) lease) v1 = (res2, v2)" by fastforce
  with assms(1) 1 f obtain n where n: "res2 = Inr n" "v2 = v'"
    by (cases res2) (auto simp: handleManifestRename_def split: if_splits)
  then obtain st' where "RenameWithLeaseCheck (store_env H v1) (mr_from r) (mr_to r) (mr_expected_from r) (mr_expected_to r)
        (mr_no_replace r) s a (id_agent ident) lease (store_of v1) = (Inr n, st')" "db_of v' = ms_db st'"
    using 2 by (auto simp: with_store_def db_of_def store_of_def split: prod.splits)
  then have run: "run_store (store_env H v1) (renameOpt_tx (store_env H v1) (mr_from r) (mr_to r) (mr_expected_from r) (mr_expected_to r)
        (mr_no_replace r) s a (id_agent ident)) (store_of v1) = (Inr n, st')" and db': "db_of v' = ms_db st'"
    by (auto simp: RenameWithLeaseCheck_def renameOpt_def split: sum.splits if_splits)
  from run show thesis
  proof (cases rule: run_store_Inr)
    case (dropped d)
    from dropped(1) show ?thesis by (cases rule: renameOpt_Inr) (use assms(2,3) db in \<open>auto simp: rename_apply_def\<close>)
  next
    case (committed je rv)
    with db db' show ?thesis by (intro that) simp
  qed
qed

text \<open>
  C32. What renaming a directory moves: after a rename of a directory that was answered, every file whose
  path matches the old path and \<^verbatim>\<open>/%\<close> as an unescaped pattern of \<^verbatim>\<open>LIKE\<close> is found, unchanged, under the
  new path followed by the rest of its own, and every other file where it was. The pattern folds case and
  reads \<^verbatim>\<open>_\<close> and \<^verbatim>\<open>%\<close> in the name as wildcards, and the paths it selects are not checked against the
  agent: the witness is a run in which one agent takes another agent's file.
\<close>

theorem dir_rename_moves_matches:
  assumes "db_inv (db_of v)" "handleManifestRename H ident conn r v = (Answer res, v')"
    "resolveKind (db_of v) (mr_from r) = nodeDir" "mr_from r \<noteq> mr_to r" "Get (db_of v) q = Inr m"
  shows "let q' = (if like_raw (mr_from r @ ''/%'') q then reparent_path (mr_from r) (mr_to r) q else q)
    in Get (db_of v') q' = Inr (m\<lparr>m_path := q'\<rparr>)"
proof -
  define q' where "q' = (if like_raw (mr_from r @ ''/%'') q then reparent_path (mr_from r) (mr_to r) q else q)"
  from rename_handler_Answer [OF assms(2,4,3)] obtain E s a g n je rv where run:
    "renameOpt_tx E (mr_from r) (mr_to r) (mr_expected_from r) (mr_expected_to r) (mr_no_replace r) s a g (db_of v) = Inr (Commit n je rv, db_of v')" .
  note rows = rename_dir_rows [OF run assms(3,4)]
  have inv': "db_inv (db_of v')" by (rule rename.commit_inv [OF assms(1) run])
  from assms(5) obtain x where x: "tbl_get mf_path (db_manifests (db_of v)) q = Some x" "m = row_manifest (db_of v) x"
    by (auto simp: Get_row [OF assms(1)] split: option.splits)
  let ?y = "if like_raw (mr_from r @ ''/%'') q then x\<lparr>mf_path := q', mf_rev := Suc (db_last_rev (db_of v))\<rparr> else x"
  have xs: "x \<in> set (db_manifests (db_of v))" "mf_path x = q" using x(1) by (auto dest: tbl_get_SomeD)
  then have "?y \<in> set (db_manifests (db_of v'))" unfolding rows q'_def by (auto simp: image_iff)
  moreover have "mf_path ?y = q'" using xs(2) by (simp add: q'_def)
  ultimately have "tbl_get mf_path (db_manifests (db_of v')) q' = Some ?y"
    using tbl_get_unique [OF db_invD(1) [OF inv'], of ?y] by simp
  moreover have "nlink_of (db_of v') i = nlink_of (db_of v) i" for i
    unfolding nlink_of_def rows by (rule nlink_update) simp
  ultimately show ?thesis
    using xs(2) by (simp add: Get_row [OF inv'] row_manifest_def x(2) q'_def)
qed


section \<open>Two agents\<close>

text \<open>Two agents whose names differ in a character that is a wildcard in the first name.\<close>

definition demo_agents :: mstore where
  "demo_agents = run_calls
     [(demo_env, MDirCreate ''/a_b'' 493), (demo_env, MDirCreate ''/axb'' 493), (demo_env, MDirCreate ''/a_b/d'' 493),
      (demo_env, MPut ''/a_b/f'' 0 (demo_file ''/a_b/f'' []) '''' '''' ''''), (demo_env, MLink ''/a_b/f'' ''/a_b/g'' '''' '''' ''''),
      (demo_env, MDirCreate ''/axb/d'' 493), (demo_env, MPut ''/axb/d/k'' 0 (demo_file ''/axb/d/k'' []) '''' '''' '''')] empty_store"

definition demo_server :: server where
  "demo_server = \<lparr> sv_tenant = \<lparr> ts_store = demo_agents, ts_chunks = demo_disk, ts_closed = False \<rparr>,
     sv_leases = newLeaseManager demo_cfg, sv_mounts = [], sv_changes = newChangeNotifier \<rparr>"

definition demo_handler :: handler_env where
  "demo_handler = \<lparr> h_env = demo_env, h_io = demo_io, h_now = 0, h_unix = 0, h_noted = True, h_fresh = 1,
     h_glob = (\<lambda>_ _. Some True), h_policy = \<lparr> pol_allow = [], pol_deny = [] \<rparr>, h_blake3 = demo_hash,
     h_commit_cause = OsOther, h_check_cause = OsOther, h_chunk_cause = (\<lambda>_. OsOther) \<rparr>"

definition demo_agent :: Identity where
  "demo_agent = \<lparr> id_agent = ''a_b'', id_tenant = ''t'', id_serial = ''1'', id_subject = '''', id_scoped = ''a_b'' \<rparr>"

definition demo_delete :: ManifestDeleteRequest where
  "demo_delete = \<lparr> md_path = ''/a_b/f'', md_expected = 1, md_session = None, md_alloc = None \<rparr>"

definition demo_rename :: ManifestRenameRequest where
  "demo_rename = \<lparr> mr_from = ''/a_b/d'', mr_to = ''/a_b/e'', mr_expected_from = 0, mr_expected_to = 0, mr_no_replace = True,
     mr_session = None, mr_alloc = None \<rparr>"

lemma demo_server_inv: "db_inv (db_of demo_server)"
  unfolding demo_server_def db_of_def store_of_def demo_agents_def server.select_convs tenantState.select_convs by (rule run_calls_inv)

theorem agents_isolated_witness:
  "case handle_request demo_handler demo_agent 1 (ManifestDeleteReq demo_delete) demo_server of
     (answer, v') \<Rightarrow> answer = Answer EmptyResp \<and> Get (db_of v') ''/axb/d/k'' = Get (db_of demo_server) ''/axb/d/k'' \<and>
       Get (db_of demo_server) ''/axb/d/k'' \<noteq> Inl ErrManifestNotFound"
proof -
  have sep: "separated (db_of demo_server)" by code_simp
  have own: "own_identity ''a_b'' demo_agent" by code_simp
  have dir: "\<not> renames_dir (db_of demo_server) (ManifestDeleteReq demo_delete)" by simp
  have ok: "fst (handle_request demo_handler demo_agent 1 (ManifestDeleteReq demo_delete) demo_server) = Answer EmptyResp" by code_simp
  have there: "Get (db_of demo_server) ''/axb/d/k'' \<noteq> Inl ErrManifestNotFound" by code_simp
  have "top_dir ''/axb/d/k'' \<noteq> ''a_b''" by code_simp
  with agents_isolated [OF demo_server_inv sep own dir, of demo_handler 1] ok there show ?thesis by (auto split: prod.split)
qed

theorem dir_rename_moves_matches_witness:
  "\<not> checkAgentPath demo_agent ''/axb/d/k'' \<and>
   (\<exists>m. Get (db_of demo_server) ''/axb/d/k'' = Inr m \<and>
      Get (db_of (snd (handleManifestRename demo_handler demo_agent 1 demo_rename demo_server))) ''/a_b/e/k'' = Inr (m\<lparr>m_path := ''/a_b/e/k''\<rparr>))"
proof -
  let ?v = "snd (handleManifestRename demo_handler demo_agent 1 demo_rename demo_server)"
  have "fst (handleManifestRename demo_handler demo_agent 1 demo_rename demo_server) = Answer (ManifestRenameResp 1)" by code_simp
  then have run: "handleManifestRename demo_handler demo_agent 1 demo_rename demo_server = (Answer (ManifestRenameResp 1), ?v)" by (metis prod.collapse)
  have k: "resolveKind (db_of demo_server) (mr_from demo_rename) = nodeDir" by code_simp
  have ne: "mr_from demo_rename \<noteq> mr_to demo_rename" by code_simp
  have "\<not> isl (Get (db_of demo_server) ''/axb/d/k'')" by code_simp
  then obtain m where m: "Get (db_of demo_server) ''/axb/d/k'' = Inr m" by (cases "Get (db_of demo_server) ''/axb/d/k''") auto
  have to: "(if like_raw (mr_from demo_rename @ ''/%'') ''/axb/d/k'' then reparent_path (mr_from demo_rename) (mr_to demo_rename) ''/axb/d/k''
      else ''/axb/d/k'') = ''/a_b/e/k''" by code_simp
  have "\<not> checkAgentPath demo_agent ''/axb/d/k''" by code_simp
  with dir_rename_moves_matches [OF demo_server_inv run k ne m] m show ?thesis unfolding Let_def to by blast
qed

end
