(* ===== verification/Spec2Isabelle.thy ===== *)
theory Spec2Isabelle
  imports Tenant_Server Feed_Reader Gate_Props Cdc Isolation
begin

text \<open>
  \<^bold>\<open>Orlop's storage server.\<close> Orlop gives agents a shared file system. A server keeps, per tenant,
  a SQLite database of file manifests, directories, symlinks, special nodes, tombstones and a session
  journal, and a content-addressed chunk store on disk; clients read and write manifests and chunks
  over the data plane, follow a change feed, and a garbage collector removes chunks no manifest
  refers to. This development models the server under src/cmd/orlop-server.

  \<^bold>\<open>How the parts map to theories.\<close>
  \<^item> \<open>Orlop_Prelude\<close>: tables as lists of rows with the operations SQL statements perform on them, and
    early returns as sums. \<open>Go_Paths\<close>, \<open>Go_Strconv\<close>, \<open>Sql_Text\<close>: what the source uses of Go's
    \<^verbatim>\<open>path\<close>, \<^verbatim>\<open>strings\<close>, \<^verbatim>\<open>strconv\<close> and \<^verbatim>\<open>encoding/hex\<close> packages and of SQLite's \<^verbatim>\<open>LIKE\<close>, \<^verbatim>\<open>GLOB\<close>,
    \<^verbatim>\<open>substr\<close> and \<^verbatim>\<open>length\<close>. \<open>Keyset\<close>: cursor pagination as a locale, interpreted by the journal.
  \<^item> \<open>Chunk_Refs\<close> (manifests.go: \<^verbatim>\<open>packChunks\<close>, \<^verbatim>\<open>unpackChunks\<close>, \<^verbatim>\<open>chunkRefDelta\<close>, \<^verbatim>\<open>applyChunkRefDelta\<close>,
    \<^verbatim>\<open>NoteChunkStored\<close>): packed chunk lists and reference counts.
  \<^item> \<open>Tenant_Db\<close> (tenantdb.go, changes.go): the tables as one record, transactions as functions from a
    database to an error or a result with the new database, revisions and tombstones.
  \<^item> \<open>Journal\<close> (journal.go): appending, undo blobs, paging, cursors, last writers.
  \<^item> \<open>Manifest_Store\<close>, \<open>Manifest_Meta\<close>, \<open>Manifest_Rename\<close> (manifests.go): every operation of
    \<^verbatim>\<open>ManifestStore\<close>, one definition per operation, composed as the source composes them. A call is
    \<open>run_store E tx st\<close>: the transaction, its commit or rollback, the journal broadcast and the
    doorbell. What a call finds outside the database (clocks, whether the commit succeeds, the
    msgpack codec, the chunk store) is the record \<open>env\<close>.
  \<^item> \<open>Db_Invariant\<close>, \<open>Manifest_Laws\<close>: the database invariant (unique keys, hard links agree, revisions
    within the counter, exact reference counts) and that each transaction keeps it. The contract of a
    mutating transaction is the locale \<open>store_op\<close>, interpreted for each of them.
  \<^item> \<open>Change_Feed\<close> (changes.go, dataplane_changes.go), \<open>Feed_Laws\<close>, \<open>Feed_Rename\<close>: the feed, its
    retention and doorbell, and why a reader misses nothing.
  \<^item> \<open>Chunk_Store\<close>, \<open>Chunk_Batch\<close> (chunkstore.go, chunkstore_batch_posix.go, backing_capacity.go), \<open>Gc\<close>
    (gc.go): chunk files, batched operations and collection. BLAKE3 is a parameter; the file system
    answers as told by a \<open>chunk_io\<close>.
  \<^item> \<open>Store_Machine\<close>, \<open>Manifest_Props\<close>, \<open>Store_Props\<close>, \<open>Chunk_Props\<close>: the store as a state machine and
    its properties: every reachable database is well formed and its reference counts are exact, what
    each call changes, leaves alone or refuses, and paging and encoding round trips.
  \<^item> \<open>Tx_Relations\<close>: relations that hold through a whole transaction, proved by composition (locale
    \<open>tx_preorder\<close>). \<open>Tenant_Server\<close> (server.go, \<^verbatim>\<open>handleChunkPut\<close>): a tenant's database and disk together
    under any interleaving of writes, uploads, collection and closing; every chunk of every manifest
    stays readable.
  \<^item> \<open>Feed_History\<close>, \<open>Feed_Reader\<close>: a reader that walks the feed page by page while the store changes,
    and when it has seen everything.
  \<^item> \<open>Lease_Manager\<close>, \<open>Lease_Laws\<close>, \<open>Lease_Props\<close> (lease.go, lease_persist.go): leases. Records are shared
    between the manager's maps, so they live in an explicit heap; \<open>lease_ok\<close> says the maps agree and
    \<open>leases\<close> is the map from paths to leases they implement. The reachable managers are an inductive
    predicate over the critical sections of all operations.
  \<^item> \<open>Admission\<close> (identity.go, cert_revocation_registry.go, cert_tenant_binding.go, the start of
    \<^verbatim>\<open>serveFrames\<close>), \<open>Request_Gates\<close> (policy.go, mount_lease_registry.go, control_mount_lease.go,
    \<^verbatim>\<open>checkAgentPath\<close> and \<^verbatim>\<open>checkSessionFence\<close> of dataplane_server.go), \<open>Gate_Props\<close>: who may open a
    session, which paths it may name and which mount sessions may write.
  \<^item> \<open>Cdc\<close> (cdc.go): content-defined chunking with its gear tables. \<open>chunk_loop\<close> may in principle not end
    and may read out of range, so it is a partial function; that it always returns a partition of the
    file within the size bounds, and cuts where a plain gear hash would, are theorems.
  \<^item> \<open>Wire_Frames\<close> (dataplane/protocol.go, dataplane/codec.go): the frame header and what a reader makes of
    a byte stream, whole or cut off. \<open>Wire_Messages\<close> (dataplane/messages.go): requests, answers and errors
    as decoded values.
  \<^item> \<open>Revert\<close>, \<open>Revert_Props\<close> (revert.go): undoing journalled changes, path by path, and what an undo
    restores or refuses.
  \<^item> \<open>Handlers\<close> (dataplane_server.go, dataplane_changes.go, lease_handlers.go, control_journal_revert.go):
    the request handlers over the state of one tenant, the dispatch of frames and the end of a session.
    A handler runs its gates, calls the stores above and turns the result into an answer.
  \<^item> \<open>Confinement\<close>, \<open>Isolation\<close>: gates, handlers and stores together: what an agent's request can do to the
    files of other agents.

  \<^bold>\<open>Bounds and fuel.\<close> \<open>grant_alone\<close> runs the loop of \<^verbatim>\<open>Grant\<close> for a number of turns; two are enough
  whenever it returns at all, and the one case in which it does not is a theorem about every number.
  \<open>yield_alone\<close> of a manifest write has fuel two: its deadline leaves room for one revoke.
  The walks over the journal and the feed take fuel equal to a number of pages; the theorems ask for
  one more page than there are rows. The collector's sweep takes one element of a list per batch,
  which also says what other calls did in between.

  \<^bold>\<open>Not modelled.\<close> Listeners, TLS, QUIC, the msgpack encoding of payloads, metrics, the audit log's files,
  configuration and process start-up are I/O or third-party code. Parallelism is modelled as
  interleaving of the sections the code runs under a lock. The Rust client, the control plane
  (src/cmd/orlop-control) and its SQL are separate programs and are not modelled.
\<close>

end
